(* ===== verification/KT_Prelude.thy ===== *)
theory KT_Prelude
  imports Main "HOL-Library.Word"
begin

text \<open>
  Shared vocabulary of the development: Go's 64-bit signed integers as integers with the
  wrap-around written out, durations and points in time, object names, and the collections
  of simplification rules the component theories feed.
\<close>

named_theorems go_int \<open>rewriting of wrapped 64-bit arithmetic\<close>
named_theorems frame \<open>what an operation leaves unchanged\<close>

section \<open>64-bit signed integers\<close>

text \<open>
  Go's \<^verbatim>\<open>int\<close>, \<^verbatim>\<open>int64\<close> and \<^verbatim>\<open>time.Duration\<close> are 64-bit two's complement. A value is kept
  as an \<^typ>\<open>int\<close>, and every operation of the source that can leave the range is followed by
  \<open>wrap64\<close>. Points in time (\<^verbatim>\<open>time.Time\<close>) are nanoseconds on an unbounded scale.
\<close>

type_synonym go_int = int
type_synonym duration = int
type_synonym time = int

definition wrap64 :: "int \<Rightarrow> int" where
  "wrap64 x = (x + 2 ^ 63) mod 2 ^ 64 - 2 ^ 63"

definition in_i64 :: "int \<Rightarrow> bool" where
  "in_i64 x \<longleftrightarrow> - (2 ^ 63) \<le> x \<and> x < 2 ^ 63"

lemma wrap64_range: "in_i64 (wrap64 x)"
  by (simp add: in_i64_def wrap64_def)

lemma wrap64_id [go_int]: "in_i64 x \<Longrightarrow> wrap64 x = x"
  by (simp add: in_i64_def wrap64_def)

lemma wrap64_cong: "wrap64 x mod 2 ^ 64 = x mod 2 ^ 64"
  by (simp add: wrap64_def mod_diff_left_eq)

lemma wrap64_wrap64 [simp]:
  "wrap64 (wrap64 a + b) = wrap64 (a + b)" "wrap64 (wrap64 a - b) = wrap64 (a - b)"
  "wrap64 (wrap64 a) = wrap64 a"
proof -
  have "wrap64 (wrap64 a + c) = wrap64 (a + c)" for c
  proof -
    have "(wrap64 a + c + 2 ^ 63) mod 2 ^ 64 = (wrap64 a mod 2 ^ 64 + (c + 2 ^ 63)) mod 2 ^ 64"
      by (simp only: mod_add_left_eq add.assoc)
    also have "\<dots> = (a + c + 2 ^ 63) mod 2 ^ 64"
      by (simp only: wrap64_cong mod_add_left_eq add.assoc)
    finally show ?thesis by (simp only: wrap64_def [of "wrap64 a + c"] wrap64_def [of "a + c"])
  qed
  from this [of b] this [of "- b"] this [of 0]
  show "wrap64 (wrap64 a + b) = wrap64 (a + b)" "wrap64 (wrap64 a - b) = wrap64 (a - b)"
    "wrap64 (wrap64 a) = wrap64 a" by simp_all
qed

text \<open>The wrap-around is the one of the machine word.\<close>

lemma wrap64_is_word: "wrap64 x = sint (word_of_int x :: 64 word)"
proof -
  have "sint (word_of_int x :: 64 word) = signed_take_bit 63 x"
    by (simp add: sint_sbintrunc')
  then show ?thesis
    by (simp add: wrap64_def signed_take_bit_eq_take_bit_shift take_bit_eq_mod)
qed

text \<open>
  \<^verbatim>\<open>1 << uint(k)\<close> at 64 bits: a negative \<open>k\<close> converts to a shift of at least 64, which
  leaves 0.
\<close>

definition shl1 :: "int \<Rightarrow> int" where
  "shl1 k = (if k < 0 \<or> 64 \<le> k then 0 else wrap64 (2 ^ nat k))"

lemma shl1_small [go_int]: "0 \<le> k \<Longrightarrow> k \<le> 62 \<Longrightarrow> shl1 k = 2 ^ nat k"
proof -
  assume k: "0 \<le> k" "k \<le> 62"
  then have "(2::int) ^ nat k \<le> 2 ^ 62"
    by (intro power_increasing) auto
  moreover have "- (2 ^ 63) \<le> (2::int) ^ nat k"
    by (rule order_trans [of _ 0]) simp_all
  ultimately have "in_i64 (2 ^ nat k)"
    by (simp add: in_i64_def)
  with k show ?thesis by (simp add: shl1_def wrap64_id)
qed

text \<open>Go divides towards zero.\<close>

definition go_div :: "int \<Rightarrow> int \<Rightarrow> int" where
  "go_div a b = sgn a * sgn b * (\<bar>a\<bar> div \<bar>b\<bar>)"

lemma go_div_nonneg [go_int]: "0 \<le> a \<Longrightarrow> 0 < b \<Longrightarrow> go_div a b = a div b"
  by (cases "a = 0") (simp_all add: go_div_def)

section \<open>Durations\<close>

definition Nanosecond :: duration where "Nanosecond = 1"
definition Millisecond :: duration where "Millisecond = 1000000"
definition Second :: duration where "Second = 1000000000"
definition Minute :: duration where "Minute = 60000000000"
definition Hour :: duration where "Hour = 3600000000000"

lemmas duration_defs = Nanosecond_def Millisecond_def Second_def Minute_def Hour_def

text \<open>\<^verbatim>\<open>Time.Sub\<close> saturates at the ends of the 64-bit range.\<close>

definition time_Sub :: "time \<Rightarrow> time \<Rightarrow> duration" where
  "time_Sub t u = max (- (2 ^ 63)) (min (2 ^ 63 - 1) (t - u))"

section \<open>Names\<close>

text \<open>\<^verbatim>\<open>types.NamespacedName\<close>, the key of a namespaced object.\<close>

record NamespacedName =
  Namespace :: string
  Name :: string

end
