(* ===== verification/Go_Heap.thy ===== *)
theory Go_Heap
  imports KT_Prelude "HOL-Library.Multiset"
begin

text \<open>
  The operations of Go's \<^verbatim>\<open>container/heap\<close> that \<^verbatim>\<open>src/internal/queue/work_queue.go\<close> calls, over
  an arbitrary implementation of \<^verbatim>\<open>heap.Interface\<close>, and the locale \<open>heap_interface\<close> with the
  contract an implementation has to meet. The locale proves once that sifting up and down
  restores the heap order and permutes the elements.
\<close>

section \<open>The interface and the operations\<close>

record ('s, 'x) heap_if =
  h_Len :: "'s \<Rightarrow> nat"
  h_Less :: "'s \<Rightarrow> nat \<Rightarrow> nat \<Rightarrow> bool"
  h_Swap :: "'s \<Rightarrow> nat \<Rightarrow> nat \<Rightarrow> 's"
  h_Push :: "'s \<Rightarrow> 'x \<Rightarrow> 's"
  h_Pop :: "'s \<Rightarrow> 'x \<times> 's"

function heap_up :: "('s, 'x) heap_if \<Rightarrow> 's \<Rightarrow> nat \<Rightarrow> 's" where
  "heap_up H s j =
     (let i = (j - 1) div 2 in
      if i = j \<or> \<not> h_Less H s j i then s
      else heap_up H (h_Swap H s i j) i)"
  by pat_completeness auto
termination
  by (relation "measure (\<lambda>(H, s, j). j)") auto

function heap_down_loop :: "('s, 'x) heap_if \<Rightarrow> 's \<Rightarrow> nat \<Rightarrow> nat \<Rightarrow> 's \<times> nat" where
  "heap_down_loop H s i n =
     (let j1 = 2 * i + 1 in
      if j1 \<ge> n then (s, i)
      else
        let j2 = j1 + 1;
            j = (if j2 < n \<and> h_Less H s j2 j1 then j2 else j1)
        in if \<not> h_Less H s j i then (s, i)
           else heap_down_loop H (h_Swap H s i j) j n)"
  by pat_completeness auto
termination
  by (relation "measure (\<lambda>(H, s, i, n). n - i)") (auto simp: Let_def)

declare heap_up.simps [simp del] heap_down_loop.simps [simp del]

definition heap_down :: "('s, 'x) heap_if \<Rightarrow> 's \<Rightarrow> nat \<Rightarrow> nat \<Rightarrow> 's \<times> bool" where
  "heap_down H s i0 n = (let (s', i) = heap_down_loop H s i0 n in (s', i > i0))"

text \<open>
  \<^verbatim>\<open>heap.Init\<close> sifts down from \<open>n/2 - 1\<close> to \<open>0\<close>; the list is that sequence of indices.
\<close>

definition heap_Init :: "('s, 'x) heap_if \<Rightarrow> 's \<Rightarrow> 's" where
  "heap_Init H s =
     fold (\<lambda>i s. fst (heap_down H s i (h_Len H s))) (rev [0..<h_Len H s div 2]) s"

definition heap_Push :: "('s, 'x) heap_if \<Rightarrow> 's \<Rightarrow> 'x \<Rightarrow> 's" where
  "heap_Push H s x = (let s' = h_Push H s x in heap_up H s' (h_Len H s' - 1))"

text \<open>
  \<^verbatim>\<open>heap.Pop\<close> of an empty heap indexes at -1 and panics: \<^const>\<open>None\<close>.
\<close>

definition heap_Pop :: "('s, 'x) heap_if \<Rightarrow> 's \<Rightarrow> ('x \<times> 's) option" where
  "heap_Pop H s =
     (if h_Len H s = 0 then None
      else let n = h_Len H s - 1;
               s1 = h_Swap H s 0 n;
               s2 = fst (heap_down H s1 0 n)
           in Some (h_Pop H s2))"

text \<open>
  \<^verbatim>\<open>heap.Fix\<close> at an index that is not in the heap: at -1 both loops stop at once and nothing
  happens; at any other such index the comparison in \<^verbatim>\<open>up\<close> panics.
\<close>

definition heap_Fix :: "('s, 'x) heap_if \<Rightarrow> 's \<Rightarrow> int \<Rightarrow> 's option" where
  "heap_Fix H s i =
     (if i = - 1 then Some s
      else if i < 0 \<or> int (h_Len H s) \<le> i then None
      else let (s', moved) = heap_down H s (nat i) (h_Len H s)
           in Some (if \<not> moved then heap_up H s' (nat i) else s'))"

section \<open>Heap order on arrays\<close>

definition parent :: "nat \<Rightarrow> nat" where
  "parent i = (i - 1) div 2"

lemma parent_less [simp]: "0 < i \<Longrightarrow> parent i < i"
  by (auto simp: parent_def)

lemma parent_neq [simp]: "0 < i \<Longrightarrow> parent i \<noteq> i"
  using parent_less [of i] by linarith

lemma parent_child [simp]: "parent (2 * i + 1) = i" "parent (2 * i + 2) = i"
  by (simp_all add: parent_def)

lemma parent_eq_iff: "0 < k \<Longrightarrow> parent k = i \<longleftrightarrow> k = 2 * i + 1 \<or> k = 2 * i + 2"
  by (auto simp: parent_def)

text \<open>
  \<open>heap_ordered lt xs n\<close>: no element among the first \<open>n\<close> sorts before its parent.
  \<open>heap_except lt xs n i\<close>: the same but for the pairs \<open>i\<close> takes part in, and the children of
  \<open>i\<close> do not sort before the parent of \<open>i\<close>.
\<close>

definition heap_ordered :: "('k \<Rightarrow> 'k \<Rightarrow> bool) \<Rightarrow> 'k list \<Rightarrow> nat \<Rightarrow> bool" where
  "heap_ordered lt xs n \<longleftrightarrow> (\<forall>k. 0 < k \<longrightarrow> k < n \<longrightarrow> \<not> lt (xs ! k) (xs ! parent k))"

definition heap_except :: "('k \<Rightarrow> 'k \<Rightarrow> bool) \<Rightarrow> 'k list \<Rightarrow> nat \<Rightarrow> nat \<Rightarrow> bool" where
  "heap_except lt xs n i \<longleftrightarrow>
     (\<forall>k. 0 < k \<longrightarrow> k < n \<longrightarrow> k \<noteq> i \<longrightarrow> parent k \<noteq> i \<longrightarrow> \<not> lt (xs ! k) (xs ! parent k)) \<and>
     (\<forall>k. 0 < k \<longrightarrow> k < n \<longrightarrow> parent k = i \<longrightarrow> 0 < i \<longrightarrow> \<not> lt (xs ! k) (xs ! parent i))"

definition children_ok :: "('k \<Rightarrow> 'k \<Rightarrow> bool) \<Rightarrow> 'k list \<Rightarrow> nat \<Rightarrow> nat \<Rightarrow> bool" where
  "children_ok lt xs n i \<longleftrightarrow> (\<forall>k. 0 < k \<longrightarrow> k < n \<longrightarrow> parent k = i \<longrightarrow> \<not> lt (xs ! k) (xs ! i))"

definition parent_ok :: "('k \<Rightarrow> 'k \<Rightarrow> bool) \<Rightarrow> 'k list \<Rightarrow> nat \<Rightarrow> bool" where
  "parent_ok lt xs i \<longleftrightarrow> (0 < i \<longrightarrow> \<not> lt (xs ! i) (xs ! parent i))"

definition swap_at :: "'k list \<Rightarrow> nat \<Rightarrow> nat \<Rightarrow> 'k list" where
  "swap_at xs i j = xs[i := xs ! j, j := xs ! i]"

lemma length_swap_at [simp]: "length (swap_at xs i j) = length xs"
  by (simp add: swap_at_def)

lemma nth_swap_at:
  "i < length xs \<Longrightarrow> j < length xs \<Longrightarrow> k < length xs \<Longrightarrow>
   swap_at xs i j ! k = (if k = i then xs ! j else if k = j then xs ! i else xs ! k)"
  by (auto simp: swap_at_def nth_list_update)

lemma mset_swap_at [simp]:
  "i < length xs \<Longrightarrow> j < length xs \<Longrightarrow> mset (swap_at xs i j) = mset xs"
  by (simp add: swap_at_def mset_swap)

lemma heap_ordered_iff_except:
  "i < n \<Longrightarrow> heap_except lt xs n i \<Longrightarrow> children_ok lt xs n i \<Longrightarrow> parent_ok lt xs i \<Longrightarrow>
   heap_ordered lt xs n"
  unfolding heap_ordered_def heap_except_def children_ok_def parent_ok_def by metis

text \<open>The order a comparison has to be: a strict weak order.\<close>

locale weak_order =
  fixes lt :: "'k \<Rightarrow> 'k \<Rightarrow> bool"
  assumes lt_asym: "lt a b \<Longrightarrow> \<not> lt b a"
    and nlt_trans: "\<not> lt b a \<Longrightarrow> \<not> lt c b \<Longrightarrow> \<not> lt c a"
begin

lemma lt_nlt_trans: "lt a b \<Longrightarrow> \<not> lt c b \<Longrightarrow> lt a c"
  using nlt_trans by blast

lemma heap_root_least:
  assumes "heap_ordered lt xs n" and "i < n"
  shows "\<not> lt (xs ! i) (xs ! 0)"
  using assms(2)
proof (induction i rule: less_induct)
  case (less i)
  show ?case
  proof (cases "i = 0")
    case True
    then show ?thesis using lt_asym by blast
  next
    case False
    then have "parent i < i" by simp
    with less have "\<not> lt (xs ! parent i) (xs ! 0)" by simp
    moreover from assms(1) False less.prems have "\<not> lt (xs ! i) (xs ! parent i)"
      by (simp add: heap_ordered_def)
    ultimately show ?thesis using nlt_trans by blast
  qed
qed

text \<open>One exchange with the parent moves the exception to the parent.\<close>

lemma sift_up_step:
  assumes "j < n" and "n \<le> length xs" and "0 < j"
    and ex: "heap_except lt xs n j" and ch: "children_ok lt xs n j"
    and lt: "lt (xs ! j) (xs ! parent j)"
  shows "heap_except lt (swap_at xs (parent j) j) n (parent j)
       \<and> children_ok lt (swap_at xs (parent j) j) n (parent j)"
proof -
  let ?i = "parent j"
  let ?ys = "swap_at xs ?i j"
  have ij: "?i < j" "?i < length xs" "j < length xs"
    using assms(1-3) parent_less [of j] by linarith+
  have nth: "?ys ! k = (if k = ?i then xs ! j else if k = j then xs ! ?i else xs ! k)"
    if "k < n" for k using ij that assms(2) by (simp add: nth_swap_at)
  have par: "parent k < n" if "0 < k" "k < n" for k using that by (simp add: less_trans [of _ k])
  have keep: "\<not> lt (xs ! k) (xs ! parent k)" if "0 < k" "k < n" "k \<noteq> j" "parent k \<noteq> j" for k
    using ex that by (simp add: heap_except_def)
  have sib: "\<not> lt (xs ! k) (xs ! j)" if "0 < k" "k < n" "parent k = ?i" for k
    using that lt_asym [OF lt] lt_asym keep [of k] nlt_trans [OF lt_asym [OF lt], of "xs ! k"] ij(1)
    by (cases "k = j") auto
  have "heap_except lt ?ys n ?i"
    unfolding heap_except_def
  proof (intro conjI allI impI)
    fix k assume k: "0 < k" "k < n" "k \<noteq> ?i" "parent k \<noteq> ?i"
    show "\<not> lt (?ys ! k) (?ys ! parent k)"
      using k ex keep [of k] par [of k] nth [of k] nth [of "parent k"] assms(3)
      by (auto simp: heap_except_def)
  next
    fix k assume k: "0 < k" "k < n" "parent k = ?i" "0 < ?i"
    have ppi: "parent ?i < ?i" using k(4) by simp
    then have "parent ?i \<noteq> j" using ij(1) by linarith
    then have pi: "\<not> lt (xs ! ?i) (xs ! parent ?i)"
      using keep [of ?i] k(4) ij(1) assms(1) by simp
    have "\<not> lt (xs ! k) (xs ! parent ?i)" if "k \<noteq> j"
      using nlt_trans [OF pi, of "xs ! k"] keep [of k] k(1-3) that ij(1) by simp
    moreover have "?ys ! parent ?i = xs ! parent ?i"
      using nth [of "parent ?i"] ppi ij(1) assms(1) by simp
    moreover have "k \<noteq> ?i" using parent_neq [of k] k(1,3) by simp
    ultimately show "\<not> lt (?ys ! k) (?ys ! parent ?i)"
      using pi nth [OF k(2)] by simp
  qed
  moreover have "children_ok lt ?ys n ?i"
    unfolding children_ok_def
  proof (intro allI impI)
    fix k assume k: "0 < k" "k < n" "parent k = ?i"
    then show "\<not> lt (?ys ! k) (?ys ! ?i)"
      using sib [of k] lt_asym [OF lt] nth [of k] nth [of ?i] ij(1) assms(1) parent_neq [of k]
      by (cases "k = j") auto
  qed
  ultimately show ?thesis ..
qed

text \<open>One exchange with the lesser child moves the exception to that child.\<close>

lemma sift_down_step:
  assumes "n \<le> length xs" and "0 < j" and "j < n" and pj: "parent j = i"
    and ex: "heap_except lt xs n i"
    and least: "\<And>k. 0 < k \<Longrightarrow> k < n \<Longrightarrow> parent k = i \<Longrightarrow> \<not> lt (xs ! k) (xs ! j)"
    and lt: "lt (xs ! j) (xs ! i)"
  shows "heap_except lt (swap_at xs i j) n j \<and> parent_ok lt (swap_at xs i j) j"
proof -
  let ?ys = "swap_at xs i j"
  have ij: "i < j" "i < n" "i < length xs" "j < length xs"
    using assms(1-3) pj parent_less [of j] by auto
  have nth: "?ys ! k = (if k = i then xs ! j else if k = j then xs ! i else xs ! k)"
    if "k < n" for k using ij that assms(1) by (simp add: nth_swap_at)
  have par: "parent k < n" if "0 < k" "k < n" for k using that by (simp add: less_trans [of _ k])
  have up: "\<not> lt (xs ! j) (xs ! parent i)" if "0 < i"
    using ex that assms(2,3) pj by (simp add: heap_except_def)
  have keep: "\<not> lt (xs ! k) (xs ! parent k)" if "0 < k" "k < n" "k \<noteq> i" "parent k \<noteq> i" for k
    using ex that by (simp add: heap_except_def)
  have "heap_except lt ?ys n j"
    unfolding heap_except_def
  proof (intro conjI allI impI)
    fix k assume k: "0 < k" "k < n" "k \<noteq> j" "parent k \<noteq> j"
    show "\<not> lt (?ys ! k) (?ys ! parent k)"
      using k up keep [of k] least [of k] par [of k] nth [of k] nth [of "parent k"]
        parent_neq [of k] by auto
  next
    fix k assume k: "0 < k" "k < n" "parent k = j" "0 < j"
    then have "k \<noteq> j" "k \<noteq> i" using ij parent_less [of k] by auto
    then show "\<not> lt (?ys ! k) (?ys ! parent j)"
      using k pj ij keep [of k] nth [of k] nth [of i] by auto
  qed
  moreover have "parent_ok lt ?ys j"
    using lt lt_asym pj nth [of j] nth [of i] ij assms(3) by (auto simp: parent_ok_def)
  ultimately show ?thesis ..
qed

end

section \<open>The contract of an implementation\<close>

text \<open>
  \<open>elems s\<close> is the sequence of keys the implementation stands for, \<open>ok\<close> its own consistency,
  and \<open>fr s t\<close> says that \<open>t\<close> differs from \<open>s\<close> only in what an exchange may touch.
\<close>

locale heap_interface = weak_order lt
  for lt :: "'k \<Rightarrow> 'k \<Rightarrow> bool" +
  fixes H :: "('s, 'x) heap_if"
    and elems :: "'s \<Rightarrow> 'k list"
    and ok :: "'s \<Rightarrow> bool"
    and fr :: "'s \<Rightarrow> 's \<Rightarrow> bool"
  assumes Len: "ok s \<Longrightarrow> h_Len H s = length (elems s)"
    and Less: "ok s \<Longrightarrow> i < length (elems s) \<Longrightarrow> j < length (elems s) \<Longrightarrow>
          h_Less H s i j = lt (elems s ! i) (elems s ! j)"
    and Swap_elems: "ok s \<Longrightarrow> i < length (elems s) \<Longrightarrow> j < length (elems s) \<Longrightarrow>
          elems (h_Swap H s i j) = swap_at (elems s) i j"
    and Swap_ok: "ok s \<Longrightarrow> i < length (elems s) \<Longrightarrow> j < length (elems s) \<Longrightarrow> ok (h_Swap H s i j)"
    and Swap_fr: "ok s \<Longrightarrow> i < length (elems s) \<Longrightarrow> j < length (elems s) \<Longrightarrow> fr s (h_Swap H s i j)"
    and fr_refl: "fr s s"
    and fr_trans: "fr s t \<Longrightarrow> fr t u \<Longrightarrow> fr s u"
begin

lemma up_correct:
  assumes "ok s" and "j < length (elems s)"
    and "heap_except lt (elems s) (length (elems s)) j"
    and "children_ok lt (elems s) (length (elems s)) j"
  shows "ok (heap_up H s j) \<and> fr s (heap_up H s j) \<and> mset (elems (heap_up H s j)) = mset (elems s)
       \<and> heap_ordered lt (elems (heap_up H s j)) (length (elems s))"
  using assms
proof (induction j arbitrary: s rule: less_induct)
  case (less j)
  let ?i = "parent j" and ?n = "length (elems s)"
  have unfold: "heap_up H s j =
      (if ?i = j \<or> \<not> h_Less H s j ?i then s else heap_up H (h_Swap H s ?i j) ?i)"
    by (subst heap_up.simps) (simp add: parent_def Let_def)
  show ?case
  proof (cases "?i = j \<or> \<not> h_Less H s j ?i")
    case True
    have "parent_ok lt (elems s) j"
      unfolding parent_ok_def
    proof
      assume "0 < j"
      then have "?i < j" by simp
      with True less.prems(1,2) show "\<not> lt (elems s ! j) (elems s ! ?i)"
        using Less [of s j ?i] by auto
    qed
    with True less.prems show ?thesis
      by (simp add: unfold fr_refl heap_ordered_iff_except)
  next
    case False
    then have j: "0 < j" by (auto simp: parent_def)
    then have i: "?i < j" "?i < ?n" using less.prems(2) parent_less [of j] by linarith+
    let ?t = "h_Swap H s ?i j"
    have t: "ok ?t" "elems ?t = swap_at (elems s) ?i j" "fr s ?t"
      using less.prems(1,2) i by (simp_all add: Swap_ok Swap_elems Swap_fr)
    have "lt (elems s ! j) (elems s ! ?i)"
      using False Less [of s j ?i] less.prems(1,2) i by simp
    then have "heap_except lt (elems ?t) ?n ?i \<and> children_ok lt (elems ?t) ?n ?i"
      using sift_up_step less.prems(2-4) j t(2) by simp
    then have "ok (heap_up H ?t ?i) \<and> fr ?t (heap_up H ?t ?i) \<and>
        mset (elems (heap_up H ?t ?i)) = mset (elems ?t) \<and>
        heap_ordered lt (elems (heap_up H ?t ?i)) ?n"
      using less.IH [OF i(1) t(1)] i(2) t(2) by simp
    with False t less.prems(2) i(2) show ?thesis
      by (auto simp: unfold intro: fr_trans)
  qed
qed

text \<open>The child \<^verbatim>\<open>down\<close> compares with is the lesser one.\<close>

lemma lesser_child:
  assumes "ok s" and "n \<le> length (elems s)" and "2 * i + 1 < n"
    and j: "j = (if 2 * i + 2 < n \<and> h_Less H s (2 * i + 2) (2 * i + 1) then 2 * i + 2 else 2 * i + 1)"
  shows "0 < j" "j < n" "parent j = i"
    and "0 < k \<Longrightarrow> k < n \<Longrightarrow> parent k = i \<Longrightarrow> \<not> lt (elems s ! k) (elems s ! j)"
proof -
  let ?xs = "elems s"
  show "0 < j" "j < n" "parent j = i" using assms(3) parent_child [of i] by (auto simp: j)
  have less: "h_Less H s (2 * i + 2) (2 * i + 1) = lt (?xs ! (2 * i + 2)) (?xs ! (2 * i + 1))"
    if "2 * i + 2 < n" using that assms(1-3) by (intro Less) auto
  show "\<not> lt (?xs ! k) (?xs ! j)" if "0 < k" "k < n" "parent k = i"
  proof -
    have "k = 2 * i + 1 \<or> k = 2 * i + 2" using that by (simp add: parent_eq_iff)
    then show ?thesis
    proof
      assume "k = 2 * i + 1"
      then show ?thesis using less lt_asym by (cases "j = 2 * i + 1") (auto simp: j)
    next
      assume "k = 2 * i + 2"
      then show ?thesis using less lt_asym that(2) by (auto simp: j)
    qed
  qed
qed

text \<open>
  The elements at and beyond \<open>n\<close> are not touched by a sift down bounded by \<open>n\<close>; the loop
  stops at the index it started from exactly when it exchanged nothing.
\<close>

lemma down_correct:
  assumes "ok s" and "n \<le> length (elems s)" and "i < n"
    and "heap_except lt (elems s) n i"
    and "heap_down_loop H s i n = (t, k)"
  shows "ok t \<and> fr s t \<and> mset (elems t) = mset (elems s)
       \<and> (\<forall>m\<ge>n. m < length (elems s) \<longrightarrow> elems t ! m = elems s ! m)
       \<and> i \<le> k
       \<and> (if k = i then t = s \<and> children_ok lt (elems s) n i else heap_ordered lt (elems t) n)
       \<and> (parent_ok lt (elems s) i \<longrightarrow> heap_ordered lt (elems t) n)"
  using assms
proof (induction "n - i" arbitrary: s i rule: less_induct)
  case less
  define j where
    "j = (if 2 * i + 2 < n \<and> h_Less H s (2 * i + 2) (2 * i + 1) then 2 * i + 2 else 2 * i + 1)"
  have unfold: "heap_down_loop H s i n =
      (if n \<le> 2 * i + 1 then (s, i) else if \<not> h_Less H s j i then (s, i)
       else heap_down_loop H (h_Swap H s i j) j n)"
    by (subst heap_down_loop.simps) (simp add: Let_def j_def)
  note child = lesser_child [OF less.prems(1,2) _ j_def]
  show ?case
  proof (cases "n \<le> 2 * i + 1 \<or> \<not> h_Less H s j i")
    case True
    have "children_ok lt (elems s) n i"
      unfolding children_ok_def
    proof (intro allI impI)
      fix k assume k: "0 < k" "k < n" "parent k = i"
      then have c: "2 * i + 1 < n" by (auto simp: parent_eq_iff)
      then have "\<not> lt (elems s ! j) (elems s ! i)"
        using True Less [of s j i] child(2) less.prems(1-3) by auto
      then show "\<not> lt (elems s ! k) (elems s ! i)"
        using child(4) [OF c k] nlt_trans by blast
    qed
    then show ?thesis
      using True less.prems unfold heap_ordered_iff_except [OF less.prems(3,4)]
      by (auto simp: fr_refl split: if_splits)
  next
    case False
    then have c: "2 * i + 1 < n" by simp
    have j: "j < n" "j < length (elems s)" "i < j" "i < length (elems s)"
      using child(1-3) [OF c] parent_less [of j] less.prems(2,3) by auto
    let ?u = "h_Swap H s i j"
    have u: "ok ?u" "elems ?u = swap_at (elems s) i j" "fr s ?u"
      using less.prems(1) j by (simp_all add: Swap_ok Swap_elems Swap_fr)
    have "lt (elems s ! j) (elems s ! i)"
      using False Less [of s j i] less.prems(1) j by simp
    then have ex: "heap_except lt (elems ?u) n j" "parent_ok lt (elems ?u) j"
      using sift_down_step [of n "elems s" j i] child [OF c] less.prems(2,4) u(2) by auto
    have run: "heap_down_loop H ?u j n = (t, k)"
      using unfold False less.prems(5) by simp
    have dec: "n - j < n - i" using j by simp
    show ?thesis
      using less.hyps [OF dec u(1) _ j(1) ex(1) run] ex(2) u j less.prems(2)
      by (auto simp: nth_swap_at intro: fr_trans)
  qed
qed

subsection \<open>The calls the queue makes\<close>

text \<open>A heap stays a heap but for \<open>i\<close> when only the key at \<open>i\<close> changes.\<close>

lemma heap_except_update:
  assumes "heap_ordered lt xs n" and "n \<le> length xs" and "i < n"
  shows "heap_except lt (xs[i := v]) n i"
  unfolding heap_except_def
proof (intro conjI allI impI)
  fix k assume "0 < k" "k < n" "k \<noteq> i" "parent k \<noteq> i"
  then show "\<not> lt (xs[i := v] ! k) (xs[i := v] ! parent k)"
    using assms(1) by (simp add: heap_ordered_def)
next
  fix k assume k: "0 < k" "k < n" "parent k = i" "0 < i"
  then have "k \<noteq> i" "parent i \<noteq> i" using parent_neq [of k] by simp_all
  moreover have "\<not> lt (xs ! k) (xs ! i)" "\<not> lt (xs ! i) (xs ! parent i)"
    using assms k by (auto simp: heap_ordered_def)
  ultimately show "\<not> lt (xs[i := v] ! k) (xs[i := v] ! parent i)"
    using nlt_trans by simp
qed

lemma Push_correct:
  assumes "ok t" and "elems t = elems s @ [k]"
    and "heap_ordered lt (elems s) (length (elems s))"
    and u: "u = heap_up H t (h_Len H t - 1)"
  shows "ok u" "fr t u" "mset (elems u) = mset (elems s) + {#k#}"
    and "heap_ordered lt (elems u) (length (elems u))"
proof -
  let ?n = "length (elems s)"
  have len: "h_Len H t - 1 = ?n" using assms(1,2) by (simp add: Len)
  have "heap_except lt (elems t) (Suc ?n) ?n"
    unfolding heap_except_def
  proof (intro conjI allI impI)
    fix m assume m: "0 < m" "m < Suc ?n" "m \<noteq> ?n" "parent m \<noteq> ?n"
    then have "parent m < m" "m < ?n" by simp_all
    with m(1) assms(2,3) show "\<not> lt (elems t ! m) (elems t ! parent m)"
      by (simp add: heap_ordered_def nth_append)
  qed (simp add: parent_eq_iff)
  moreover have "children_ok lt (elems t) (Suc ?n) ?n"
    by (auto simp: children_ok_def parent_eq_iff)
  ultimately have *: "ok u \<and> fr t u \<and> mset (elems u) = mset (elems t) \<and>
      heap_ordered lt (elems u) (Suc ?n)"
    unfolding u len using up_correct [OF assms(1), of ?n] assms(2) by simp
  then show "ok u" "fr t u" "mset (elems u) = mset (elems s) + {#k#}"
    using assms(2) by simp_all
  then have "length (elems u) = Suc ?n"
    by (metis size_mset size_add_mset add_mset_add_single)
  with * show "heap_ordered lt (elems u) (length (elems u))" by simp
qed

lemma Pop_correct:
  assumes "ok s" and "elems s \<noteq> []" and "heap_ordered lt (elems s) (length (elems s))"
    and n: "n = h_Len H s - 1"
    and t: "t = fst (heap_down H (h_Swap H s 0 n) 0 n)"
  shows "ok t" "fr s t" "mset (elems t) = mset (elems s)"
    and "length (elems t) = Suc n" "elems t ! n = elems s ! 0"
    and "heap_ordered lt (elems t) n"
proof -
  let ?s1 = "h_Swap H s 0 n"
  have len: "length (elems s) = Suc n" using assms(1,2) by (simp add: n Len)
  have s1: "ok ?s1" "elems ?s1 = swap_at (elems s) 0 n" "fr s ?s1"
    using assms(1) len by (simp_all add: Swap_ok Swap_elems Swap_fr)
  have last: "elems ?s1 ! n = elems s ! 0" using s1(2) len by (simp add: nth_swap_at)
  obtain t' k where run: "heap_down_loop H ?s1 0 n = (t', k)" by fastforce
  then have tt: "t = t'" by (simp add: t heap_down_def)
  have all: "ok t \<and> fr s t \<and> mset (elems t) = mset (elems s) \<and> elems t ! n = elems s ! 0
      \<and> heap_ordered lt (elems t) n"
  proof (cases "n = 0")
    case True
    then have "t = ?s1" using run by (simp add: tt heap_down_loop.simps)
    then show ?thesis using s1 len last True by (simp add: heap_ordered_def)
  next
    case False
    have "heap_except lt (elems ?s1) n 0"
      unfolding heap_except_def
    proof (intro conjI allI impI)
      fix k assume k: "0 < k" "k < n" "k \<noteq> 0" "parent k \<noteq> 0"
      then have "parent k < k" by simp
      with k len assms(3) show "\<not> lt (elems ?s1 ! k) (elems ?s1 ! parent k)"
        by (simp add: s1(2) nth_swap_at heap_ordered_def)
    qed simp
    then show ?thesis
      using down_correct [OF s1(1) _ _ _ run] False s1 len last tt
      by (auto simp: parent_ok_def intro: fr_trans)
  qed
  then show "ok t" "fr s t" "mset (elems t) = mset (elems s)" "elems t ! n = elems s ! 0"
    "heap_ordered lt (elems t) n" by simp_all
  then show "length (elems t) = Suc n" using len by (metis size_mset)
qed

lemma Fix_correct:
  assumes "ok s" and "0 \<le> i" and "i < int (length (elems s))"
    and "heap_except lt (elems s) (length (elems s)) (nat i)"
  obtains t where "heap_Fix H s i = Some t" "ok t" "fr s t" "mset (elems t) = mset (elems s)"
    and "heap_ordered lt (elems t) (length (elems t))"
proof -
  let ?n = "length (elems s)"
  obtain t k where run: "heap_down_loop H s (nat i) ?n = (t, k)" by fastforce
  have ni: "nat i < ?n" using assms(2,3) by linarith
  note down = down_correct [OF assms(1) order_refl ni assms(4) run]
  define u where "u = (if k = nat i then heap_up H t (nat i) else t)"
  have eq: "heap_Fix H s i = Some u"
    using assms(1-3) run down by (auto simp: heap_Fix_def heap_down_def u_def Len)
  have "ok u \<and> fr s u \<and> mset (elems u) = mset (elems s) \<and> heap_ordered lt (elems u) ?n"
    using down up_correct [OF assms(1) ni] assms(4)
    by (cases "k = nat i") (simp_all add: u_def)
  moreover from this have "length (elems u) = ?n" by (metis size_mset)
  ultimately show ?thesis using that [OF eq] by simp
qed

end

end
