(* ===== verification/Work_Queue.thy ===== *)
theory Work_Queue
  imports Go_Heap
begin

text \<open>
  The retry queue of \<^verbatim>\<open>src/internal/queue/work_queue.go\<close>. A \<^verbatim>\<open>*WorkItem\<close> is shared by the heap
  slice, by the index map and by the worker that holds it, so items live in a store and the
  queue holds addresses. Operations run under the queue's mutex and are atomic; each takes the
  clock readings it makes as arguments. \<^const>\<open>None\<close> is a run-time panic.
\<close>

section \<open>Data\<close>

type_synonym ptr = nat

record WorkItem =
  item_NamespacedName :: NamespacedName
  Priority :: go_int
  RetryCount :: go_int
  RetryCycle :: go_int
  EnqueuedAt :: time
  ScheduledAt :: time
  index :: go_int

record QueueMetrics =
  enqueueCount :: go_int
  dequeueCount :: go_int
  retryCount :: go_int
  currentDepth :: go_int
  processingItems :: go_int

text \<open>
  \<open>store\<close> and \<open>next_ptr\<close> are the part of the Go heap that holds work items; the other fields are
  the struct's. The mutex and the condition variable carry no data.
\<close>

record WorkQueue =
  store :: "ptr \<Rightarrow> WorkItem"
  next_ptr :: ptr
  items :: "ptr list"
  itemsMap :: "NamespacedName \<rightharpoonup> ptr"
  shutdown :: bool
  metrics :: QueueMetrics
  MaxRetries :: go_int
  InitialRetryDelay :: duration
  MaxRetryDelay :: duration
  MaxRetryCycles :: go_int

definition DefaultMaxRetries :: go_int where "DefaultMaxRetries = 5"
definition DefaultInitialRetryDelay :: duration where "DefaultInitialRetryDelay = 1 * Second"
definition DefaultMaxRetryDelay :: duration where "DefaultMaxRetryDelay = 5 * Minute"
definition DefaultMaxRetryCycles :: go_int where "DefaultMaxRetryCycles = 3"

section \<open>The priority queue as an implementation of heap.Interface\<close>

type_synonym pq = "(ptr \<Rightarrow> WorkItem) \<times> ptr list"

definition pq_Len :: "pq \<Rightarrow> nat" where
  "pq_Len s = length (snd s)"

definition pq_Less :: "pq \<Rightarrow> nat \<Rightarrow> nat \<Rightarrow> bool" where
  "pq_Less s i j =
     (let a = fst s (snd s ! i); b = fst s (snd s ! j) in
      if Priority a \<noteq> Priority b then Priority a > Priority b
      else ScheduledAt a < ScheduledAt b)"

definition pq_Swap :: "pq \<Rightarrow> nat \<Rightarrow> nat \<Rightarrow> pq" where
  "pq_Swap s i j =
     (let m = fst s; xs = snd s;
          ys = xs[i := xs ! j, j := xs ! i];
          m1 = m(ys ! i := (m (ys ! i))\<lparr>index := int i\<rparr>);
          m2 = m1(ys ! j := (m1 (ys ! j))\<lparr>index := int j\<rparr>)
      in (m2, ys))"

definition pq_Push :: "pq \<Rightarrow> ptr \<Rightarrow> pq" where
  "pq_Push s p =
     (let m = fst s; xs = snd s
      in (m(p := (m p)\<lparr>index := int (length xs)\<rparr>), xs @ [p]))"

definition pq_Pop :: "pq \<Rightarrow> ptr \<times> pq" where
  "pq_Pop s =
     (let m = fst s; old = snd s; p = last old
      in (p, (m(p := (m p)\<lparr>index := - 1\<rparr>), butlast old)))"

definition priorityQueue :: "(pq, ptr) heap_if" where
  "priorityQueue =
     \<lparr>h_Len = pq_Len, h_Less = pq_Less, h_Swap = pq_Swap, h_Push = pq_Push, h_Pop = pq_Pop\<rparr>"

section \<open>The queue's operations\<close>

definition zero_item :: WorkItem where
  "zero_item = \<lparr>item_NamespacedName = \<lparr>Namespace = '''', Name = ''''\<rparr>, Priority = 0, RetryCount = 0,
     RetryCycle = 0, EnqueuedAt = 0, ScheduledAt = 0, index = 0\<rparr>"

definition NewWorkQueueWithConfig :: "go_int \<Rightarrow> duration \<Rightarrow> duration \<Rightarrow> go_int \<Rightarrow> WorkQueue" where
  "NewWorkQueueWithConfig maxRetries initialDelay maxDelay maxCycles =
     (let (m, xs) = heap_Init priorityQueue (\<lambda>_. zero_item, [])
      in \<lparr>store = m, next_ptr = 0, items = xs, itemsMap = Map.empty, shutdown = False,
          metrics = \<lparr>enqueueCount = 0, dequeueCount = 0, retryCount = 0, currentDepth = 0,
                     processingItems = 0\<rparr>,
          MaxRetries = maxRetries, InitialRetryDelay = initialDelay, MaxRetryDelay = maxDelay,
          MaxRetryCycles = maxCycles\<rparr>)"

definition NewWorkQueue :: WorkQueue where
  "NewWorkQueue = NewWorkQueueWithConfig DefaultMaxRetries DefaultInitialRetryDelay
     DefaultMaxRetryDelay DefaultMaxRetryCycles"

definition Enqueue :: "WorkQueue \<Rightarrow> NamespacedName \<Rightarrow> go_int \<Rightarrow> time \<Rightarrow> time \<Rightarrow> WorkQueue option" where
  "Enqueue wq nn priority now1 now2 =
     (case itemsMap wq nn of
        Some p \<Rightarrow>
          if priority > Priority (store wq p) then
            let m = (store wq)(p := (store wq p)\<lparr>Priority := priority\<rparr>) in
            case heap_Fix priorityQueue (m, items wq) (index (m p)) of
              None \<Rightarrow> None
            | Some s \<Rightarrow> Some (wq\<lparr>store := fst s, items := snd s\<rparr>)
          else Some wq
      | None \<Rightarrow>
          let p = next_ptr wq;
              item = \<lparr>item_NamespacedName = nn, Priority = priority, RetryCount = 0, RetryCycle = 0,
                      EnqueuedAt = now1, ScheduledAt = now2, index = 0\<rparr>;
              s = heap_Push priorityQueue ((store wq)(p := item), items wq) p
          in Some (wq\<lparr>store := fst s, items := snd s, next_ptr := Suc p,
                     itemsMap := (itemsMap wq)(nn \<mapsto> p),
                     metrics := (metrics wq)
                       \<lparr>enqueueCount := wrap64 (enqueueCount (metrics wq) + 1),
                        currentDepth := int (length (snd s))\<rparr>\<rparr>))"

text \<open>
  One pass of the loop of \<^verbatim>\<open>Dequeue\<close>, from taking the mutex to returning or waiting on the
  condition variable (which releases it): the result, or how it waits.
\<close>

datatype dequeue_outcome =
    Dequeued ptr
  | DequeueShutdown
  | WaitTimer duration
  | WaitSignal

definition Dequeue_pass :: "WorkQueue \<Rightarrow> time \<Rightarrow> (dequeue_outcome \<times> WorkQueue) option" where
  "Dequeue_pass wq now =
     (if shutdown wq then Some (DequeueShutdown, wq)
      else if length (items wq) > 0 then
        let p = items wq ! 0; item = store wq p in
        if now < ScheduledAt item then Some (WaitTimer (time_Sub (ScheduledAt item) now), wq)
        else
          case heap_Pop priorityQueue (store wq, items wq) of
            None \<Rightarrow> None
          | Some (_, s) \<Rightarrow>
              Some (Dequeued p,
                wq\<lparr>store := fst s, items := snd s,
                   itemsMap := (itemsMap wq)(item_NamespacedName item := None),
                   metrics := (metrics wq)
                     \<lparr>dequeueCount := wrap64 (dequeueCount (metrics wq) + 1),
                      currentDepth := int (length (snd s)),
                      processingItems := wrap64 (processingItems (metrics wq) + 1)\<rparr>\<rparr>)
      else Some (WaitSignal, wq))"

text \<open>The delay before the retry whose number (after the increment) is \<open>rc\<close>.\<close>

definition backoff_delay :: "WorkQueue \<Rightarrow> go_int \<Rightarrow> duration" where
  "backoff_delay wq rc =
     (let retryCount = wrap64 (rc - 1);
          retryCount = (if retryCount > 30 then 30 else retryCount);
          delay = wrap64 (InitialRetryDelay wq * shl1 retryCount)
      in if delay > MaxRetryDelay wq then MaxRetryDelay wq else delay)"

definition dec_processing :: "WorkQueue \<Rightarrow> WorkQueue" where
  "dec_processing wq =
     wq\<lparr>metrics := (metrics wq)\<lparr>processingItems := wrap64 (processingItems (metrics wq) - 1)\<rparr>\<rparr>"

definition Requeue :: "WorkQueue \<Rightarrow> ptr \<Rightarrow> time \<Rightarrow> WorkQueue" where
  "Requeue wq p now =
     (let item = (store wq p)\<lparr>RetryCount := wrap64 (RetryCount (store wq p) + 1)\<rparr>;
          wq = dec_processing (wq\<lparr>store := (store wq)(p := item)\<rparr>)
      in if RetryCount item > MaxRetries wq \<and> MaxRetryCycles wq > 0 \<and>
            RetryCycle item \<ge> MaxRetryCycles wq
         then dec_processing wq
         else
           let item' = (if RetryCount item > MaxRetries wq
                        then item\<lparr>RetryCycle := wrap64 (RetryCycle item + 1), RetryCount := 0\<rparr>
                        else item);
               delay = (if RetryCount item > MaxRetries wq then MaxRetryDelay wq
                        else backoff_delay wq (RetryCount item));
               item'' = item'\<lparr>ScheduledAt := now + delay\<rparr>;
               s = heap_Push priorityQueue ((store wq)(p := item''), items wq) p
           in wq\<lparr>store := fst s, items := snd s,
                 itemsMap := (itemsMap wq)(item_NamespacedName item'' \<mapsto> p),
                 metrics := (metrics wq)
                   \<lparr>retryCount := wrap64 (retryCount (metrics wq) + 1),
                    currentDepth := int (length (snd s))\<rparr>\<rparr>)"

definition Done :: "WorkQueue \<Rightarrow> ptr \<Rightarrow> WorkQueue" where
  "Done wq p = dec_processing wq"

definition Shutdown :: "WorkQueue \<Rightarrow> WorkQueue" where
  "Shutdown wq = wq\<lparr>shutdown := True\<rparr>"

definition GetMetrics :: "WorkQueue \<Rightarrow> QueueMetrics" where
  "GetMetrics wq = metrics wq"

definition Len :: "WorkQueue \<Rightarrow> nat" where
  "Len wq = length (items wq)"

definition Contains :: "WorkQueue \<Rightarrow> NamespacedName \<Rightarrow> bool" where
  "Contains wq nn \<longleftrightarrow> itemsMap wq nn \<noteq> None"

section \<open>The interface contract holds\<close>

type_synonym key = "ptr \<times> go_int \<times> time"

definition key_of :: "(ptr \<Rightarrow> WorkItem) \<Rightarrow> ptr \<Rightarrow> key" where
  "key_of m p = (p, Priority (m p), ScheduledAt (m p))"

definition pq_elems :: "pq \<Rightarrow> key list" where
  "pq_elems s = map (key_of (fst s)) (snd s)"

fun key_lt :: "key \<Rightarrow> key \<Rightarrow> bool" where
  "key_lt (p, pr, t) (q, pr', t') \<longleftrightarrow> pr > pr' \<or> pr = pr' \<and> t < t'"

text \<open>Every item of the slice knows its position.\<close>

definition pq_ok :: "pq \<Rightarrow> bool" where
  "pq_ok s \<longleftrightarrow> (\<forall>i < length (snd s). index (fst s (snd s ! i)) = int i)"

text \<open>An exchange changes nothing but the indices of items of the slice.\<close>

definition same_item :: "WorkItem \<Rightarrow> WorkItem \<Rightarrow> bool" where
  "same_item a b \<longleftrightarrow> a\<lparr>index := 0\<rparr> = b\<lparr>index := 0\<rparr>"

definition pq_fr :: "pq \<Rightarrow> pq \<Rightarrow> bool" where
  "pq_fr s t \<longleftrightarrow> set (snd t) = set (snd s) \<and> (\<forall>p. same_item (fst t p) (fst s p)) \<and>
     (\<forall>p. p \<notin> set (snd s) \<longrightarrow> fst t p = fst s p)"

definition pq_heap :: "pq \<Rightarrow> bool" where
  "pq_heap s \<longleftrightarrow> pq_ok s \<and> heap_ordered key_lt (pq_elems s) (length (snd s))"

lemma priorityQueue_simps [simp]:
  "h_Len priorityQueue = pq_Len" "h_Less priorityQueue = pq_Less"
  "h_Swap priorityQueue = pq_Swap" "h_Push priorityQueue = pq_Push"
  "h_Pop priorityQueue = pq_Pop"
  by (simp_all add: priorityQueue_def)

lemma length_pq_elems [simp]: "length (pq_elems s) = length (snd s)"
  by (simp add: pq_elems_def)

lemma nth_pq_elems: "i < length (snd s) \<Longrightarrow> pq_elems s ! i = key_of (fst s) (snd s ! i)"
  by (simp add: pq_elems_def)

lemma pq_ok_distinct: "pq_ok s \<Longrightarrow> distinct (snd s)"
  unfolding pq_ok_def distinct_conv_nth by (metis of_nat_eq_iff)

lemma pq_Swap_items: "snd (pq_Swap s i j) = swap_at (snd s) i j"
  by (simp add: pq_Swap_def swap_at_def Let_def)

lemma pq_Swap_store:
  assumes "i < length (snd s)" and "j < length (snd s)"
  shows "fst (pq_Swap s i j) p =
    (if p = snd s ! i then (fst s p)\<lparr>index := int j\<rparr>
     else if p = snd s ! j then (fst s p)\<lparr>index := int i\<rparr> else fst s p)"
  using assms by (cases "i = j") (simp_all add: pq_Swap_def Let_def)

lemma pq_Swap_key:
  "i < length (snd s) \<Longrightarrow> j < length (snd s) \<Longrightarrow> key_of (fst (pq_Swap s i j)) = key_of (fst s)"
  by (rule ext) (simp add: key_of_def pq_Swap_store)

lemma map_swap_at:
  "i < length xs \<Longrightarrow> j < length xs \<Longrightarrow> map f (swap_at xs i j) = swap_at (map f xs) i j"
  by (simp add: swap_at_def map_update)

lemma pq_Swap_elems:
  "i < length (snd s) \<Longrightarrow> j < length (snd s) \<Longrightarrow>
   pq_elems (pq_Swap s i j) = swap_at (pq_elems s) i j"
  by (simp add: pq_elems_def pq_Swap_items pq_Swap_key map_swap_at)

lemma pq_Swap_ok:
  assumes "pq_ok s" and "i < length (snd s)" and "j < length (snd s)"
  shows "pq_ok (pq_Swap s i j)"
proof -
  have d: "snd s ! k = snd s ! l \<longleftrightarrow> k = l" if "k < length (snd s)" "l < length (snd s)" for k l
    using pq_ok_distinct [OF assms(1)] that by (simp add: nth_eq_iff_index_eq)
  show ?thesis
    unfolding pq_ok_def
  proof (intro allI impI)
    fix k assume "k < length (snd (pq_Swap s i j))"
    then have k: "k < length (snd s)" by (simp add: pq_Swap_items)
    show "index (fst (pq_Swap s i j) (snd (pq_Swap s i j) ! k)) = int k"
      using assms k d by (simp add: pq_Swap_store pq_Swap_items nth_swap_at pq_ok_def)
  qed
qed

lemma set_swap_at [simp]: "i < length xs \<Longrightarrow> j < length xs \<Longrightarrow> set (swap_at xs i j) = set xs"
  by (simp add: swap_at_def)

lemma pq_Swap_fr:
  "i < length (snd s) \<Longrightarrow> j < length (snd s) \<Longrightarrow> pq_fr s (pq_Swap s i j)"
  by (auto simp: pq_fr_def same_item_def pq_Swap_store pq_Swap_items)

interpretation pqh: heap_interface key_lt priorityQueue pq_elems pq_ok pq_fr
proof (unfold_locales, goal_cases)
  case (1 a b) then show ?case by (cases a; cases b) auto
next
  case (2 b a c) then show ?case by (cases a; cases b; cases c) auto
next
  case (3 s) then show ?case by (simp add: pq_Len_def)
next
  case (4 s i j) then show ?case
    by (auto simp: pq_Less_def nth_pq_elems key_of_def Let_def)
next
  case (5 s i j) then show ?case by (simp add: pq_Swap_elems)
next
  case (6 s i j) then show ?case by (simp add: pq_Swap_ok)
next
  case (7 s i j) then show ?case by (simp add: pq_Swap_fr)
next
  case (8 s) then show ?case by (simp add: pq_fr_def same_item_def)
next
  case (9 s t u) then show ?case by (simp add: pq_fr_def same_item_def)
qed

section \<open>What the heap calls do to the queue\<close>

lemma same_item_fields:
  assumes "same_item a b"
  shows "item_NamespacedName a = item_NamespacedName b" "Priority a = Priority b"
    "RetryCount a = RetryCount b" "RetryCycle a = RetryCycle b"
    "EnqueuedAt a = EnqueuedAt b" "ScheduledAt a = ScheduledAt b"
  using assms by (cases a; cases b; simp add: same_item_def)+

lemma same_item_trans: "same_item a b \<Longrightarrow> same_item b c \<Longrightarrow> same_item a c"
  by (simp add: same_item_def)

lemma same_item_index [simp]: "same_item (a\<lparr>index := k\<rparr>) a" "same_item a a"
  by (simp_all add: same_item_def)

lemma key_of_same: "\<forall>p. same_item (m p) (m' p) \<Longrightarrow> key_of m = key_of m'"
  by (rule ext) (simp add: key_of_def same_item_fields)

lemma items_elems: "map fst (pq_elems s) = snd s"
  by (simp add: pq_elems_def key_of_def comp_def)

lemma mset_items:
  "mset (pq_elems t) = mset (pq_elems s) + mset (map (key_of m) ps) \<Longrightarrow>
   mset (snd t) = mset (snd s) + mset ps"
proof -
  assume "mset (pq_elems t) = mset (pq_elems s) + mset (map (key_of m) ps)"
  then have "image_mset fst (mset (pq_elems t)) =
      image_mset fst (mset (pq_elems s)) + image_mset fst (mset (map (key_of m) ps))"
    by simp
  then show ?thesis
    by (simp flip: mset_map add: items_elems key_of_def comp_def)
qed

lemma pq_Push_call:
  assumes "pq_heap (m, xs)" and "p \<notin> set xs" and s: "s = heap_Push priorityQueue (m, xs) p"
  shows "pq_heap s" "mset (snd s) = mset xs + {#p#}" "\<And>q. same_item (fst s q) (m q)"
    and "\<And>q. q \<notin> set xs \<Longrightarrow> q \<noteq> p \<Longrightarrow> fst s q = m q"
proof -
  let ?t = "pq_Push (m, xs) p"
  have t: "?t = (m(p := (m p)\<lparr>index := int (length xs)\<rparr>), xs @ [p])"
    by (simp add: pq_Push_def)
  have k: "key_of (fst ?t) = key_of m" by (rule key_of_same) (simp add: t)
  have ok: "pq_ok ?t" using assms(1,2)
    by (auto simp: pq_heap_def pq_ok_def t nth_append nth_eq_iff_index_eq in_set_conv_nth)
  have el: "pq_elems ?t = pq_elems (m, xs) @ [key_of m p]"
    using k by (simp add: pq_elems_def t)
  have su: "s = heap_up priorityQueue ?t (h_Len priorityQueue ?t - 1)"
    by (simp add: s heap_Push_def Let_def)
  have ho: "heap_ordered key_lt (pq_elems (m, xs)) (length (pq_elems (m, xs)))"
    using assms(1) by (simp add: pq_heap_def)
  note push = pqh.Push_correct [OF ok el ho su]
  show "pq_heap s" using push(1,4) by (simp add: pq_heap_def)
  show "mset (snd s) = mset xs + {#p#}"
    using mset_items [of s "(m, xs)" m "[p]"] push(3) by simp
  show "same_item (fst s q) (m q)" for q
    using push(2) same_item_trans [of "fst s q" "fst ?t q" "m q"] by (simp add: pq_fr_def t)
  show "fst s q = m q" if "q \<notin> set xs" "q \<noteq> p" for q
    using push(2) that by (simp add: pq_fr_def t)
qed

text \<open>Removing the last pointer of the slice leaves a heap.\<close>

lemma pq_heap_Pop:
  assumes ok: "pq_ok t" and len: "length (snd t) = Suc n" and last: "last (snd t) = p"
    and ho: "heap_ordered key_lt (pq_elems t) n"
    and s: "s = ((fst t)(p := (fst t p)\<lparr>index := - 1\<rparr>), butlast (snd t))"
  shows "pq_heap s"
proof -
  have len': "length (snd s) = n" using len by (simp add: s)
  have nth: "snd s ! i = snd t ! i" "snd t ! i \<noteq> p" if "i < n" for i
  proof -
    show "snd s ! i = snd t ! i" using that len' by (simp add: s nth_butlast)
    have "snd t ! n = p" using len last by (metis diff_Suc_1 last_conv_nth list.size(3) nat.distinct(1))
    moreover have "snd t ! i \<noteq> snd t ! n"
      using that len pq_ok_distinct [OF ok] by (simp add: nth_eq_iff_index_eq)
    ultimately show "snd t ! i \<noteq> p" by simp
  qed
  have "pq_ok s" using ok len len' nth by (simp add: pq_ok_def s)
  moreover have "pq_elems s ! i = pq_elems t ! i" if "i < n" for i
    using that len len' nth by (simp add: nth_pq_elems key_of_def s)
  then have "heap_ordered key_lt (pq_elems s) n"
    using ho by (auto simp: heap_ordered_def less_trans [OF parent_less])
  ultimately show ?thesis by (simp add: pq_heap_def len')
qed

lemma pq_Pop_call:
  assumes "pq_heap (m, xs)" and "xs \<noteq> []"
  obtains s where "heap_Pop priorityQueue (m, xs) = Some (xs ! 0, s)" "pq_heap s"
    and "mset xs = mset (snd s) + {#xs ! 0#}" "\<forall>q. same_item (fst s q) (m q)"
    and "index (fst s (xs ! 0)) = - 1" "\<forall>q. q \<notin> set xs \<longrightarrow> fst s q = m q"
proof -
  define n where "n = h_Len priorityQueue (m, xs) - 1"
  define t where "t = fst (heap_down priorityQueue (h_Swap priorityQueue (m, xs) 0 n) 0 n)"
  have ne: "pq_elems (m, xs) \<noteq> []" using assms(2) by (simp add: pq_elems_def)
  note pop = pqh.Pop_correct [OF _ ne _ n_def t_def]
  have ok: "pq_ok (m, xs)" and ho: "heap_ordered key_lt (pq_elems (m, xs)) (length (pq_elems (m, xs)))"
    using assms(1) by (simp_all add: pq_heap_def)
  note pop = pop [OF ok ho]
  have last: "snd t \<noteq> []" "last (snd t) = xs ! 0" "snd t = butlast (snd t) @ [xs ! 0]"
  proof -
    show ne': "snd t \<noteq> []" using pop(4) by auto
    have "fst (pq_elems t ! n) = xs ! 0"
      using pop(5) assms(2) by (simp add: nth_pq_elems key_of_def)
    then show l: "last (snd t) = xs ! 0"
      using pop(4) ne' by (simp add: nth_pq_elems key_of_def last_conv_nth)
    show "snd t = butlast (snd t) @ [xs ! 0]" using ne' l append_butlast_last_id by metis
  qed
  define s where "s = snd (pq_Pop t)"
  have s: "s = ((fst t)(xs ! 0 := (fst t (xs ! 0))\<lparr>index := - 1\<rparr>), butlast (snd t))"
    using last by (simp add: s_def pq_Pop_def Let_def)
  have "heap_Pop priorityQueue (m, xs) = Some (xs ! 0, s)"
    using assms(2) last(2)
    by (simp add: heap_Pop_def pq_Len_def Let_def t_def n_def s_def pq_Pop_def)
  moreover have "pq_heap s"
    using pop(4) last(2) by (intro pq_heap_Pop [OF pop(1) _ _ pop(6) s]) simp_all
  moreover have "mset xs = mset (snd s) + {#xs ! 0#}"
  proof -
    have "mset (snd t) = mset xs" using mset_items [of t "(m, xs)" m "[]"] pop(3) by simp
    also have "mset (snd t) = mset (butlast (snd t) @ [xs ! 0])" using last(3) by simp
    finally show ?thesis by (simp add: s)
  qed
  moreover have "\<forall>q. same_item (fst s q) (m q)"
  proof
    show "same_item (fst s q) (m q)" for q
      using pop(2) same_item_trans [of "fst s q" "fst t q" "m q"] by (simp add: pq_fr_def s)
  qed
  moreover have "index (fst s (xs ! 0)) = - 1" by (simp add: s)
  moreover have "\<forall>q. q \<notin> set xs \<longrightarrow> fst s q = m q"
    using pop(2) assms(2) nth_mem [of 0 xs] by (auto simp: pq_fr_def s)
  ultimately show ?thesis by (rule that)
qed

lemma pq_Fix_call:
  assumes "pq_heap (m, xs)" and "p \<in> set xs"
    and m': "m' = m(p := (m p)\<lparr>Priority := pr\<rparr>)"
  obtains s where "heap_Fix priorityQueue (m', xs) (index (m' p)) = Some s" "pq_heap s"
    and "mset (snd s) = mset xs" "\<forall>q. same_item (fst s q) (m' q)"
    and "\<forall>q. q \<notin> set xs \<longrightarrow> fst s q = m q"
proof -
  obtain i where i: "i < length xs" "xs ! i = p" using assms(2) by (auto simp: in_set_conv_nth)
  have ok: "pq_ok (m', xs)" using assms(1) by (auto simp: pq_heap_def pq_ok_def m')
  have d: "distinct xs" using pq_ok_distinct [OF ok] by simp
  have idx: "index (m' p) = int i"
    using ok i by (auto simp: pq_ok_def)
  have el: "pq_elems (m', xs) = (pq_elems (m, xs))[i := key_of m' p]"
    using i d by (intro nth_equalityI)
      (auto simp: nth_pq_elems nth_list_update key_of_def m' nth_eq_iff_index_eq)
  have "heap_except key_lt (pq_elems (m', xs)) (length xs) i"
    unfolding el using pqh.heap_except_update [of "pq_elems (m, xs)" "length xs"] assms(1) i
    by (simp add: pq_heap_def)
  then obtain s where s: "heap_Fix priorityQueue (m', xs) (int i) = Some s" "pq_ok s"
      "pq_fr (m', xs) s" "mset (pq_elems s) = mset (pq_elems (m', xs))"
      "heap_ordered key_lt (pq_elems s) (length (pq_elems s))"
    using pqh.Fix_correct [OF ok, of "int i"] i by auto
  show ?thesis
  proof (rule that)
    show "heap_Fix priorityQueue (m', xs) (index (m' p)) = Some s" using s(1) idx by simp
    show "pq_heap s" using s(2,5) by (simp add: pq_heap_def)
    show "mset (snd s) = mset xs" using mset_items [of s "(m', xs)" m "[]"] s(4) by simp
    show "\<forall>q. same_item (fst s q) (m' q)" using s(3) by (simp add: pq_fr_def)
    show "\<forall>q. q \<notin> set xs \<longrightarrow> fst s q = m q"
      using s(3) assms(2) by (auto simp: pq_fr_def m')
  qed
qed

end
