(* ===== verification/Queue_Invariant.thy ===== *)
theory Queue_Invariant
  imports Work_Queue
begin

text \<open>
  The invariant of the work queue, what every operation does to the multiset of queued items,
  and the reachable states of a queue shared by reconcilers and workers.
\<close>

section \<open>The invariant\<close>

text \<open>
  \<open>held\<close> are the items handed out by \<^verbatim>\<open>Dequeue\<close> and not yet given back. The heap slice is
  heap ordered and every item knows its position; the map only points into the slice, at an
  item of the right name; a held item is not in the slice.
\<close>

definition queue_inv :: "WorkQueue \<Rightarrow> ptr set \<Rightarrow> bool" where
  "queue_inv wq held \<longleftrightarrow>
     pq_heap (store wq, items wq) \<and>
     (\<forall>p \<in> set (items wq). p < next_ptr wq) \<and>
     (\<forall>p \<in> held. p < next_ptr wq \<and> p \<notin> set (items wq)) \<and>
     (\<forall>nn p. itemsMap wq nn = Some p \<longrightarrow>
        p \<in> set (items wq) \<and> item_NamespacedName (store wq p) = nn)"

text \<open>
  What is queued, with the position forgotten: the abstract state of the queue.
\<close>

definition forget :: "WorkItem \<Rightarrow> WorkItem" where
  "forget w = w\<lparr>index := 0\<rparr>"

definition contents :: "WorkQueue \<Rightarrow> WorkItem multiset" where
  "contents wq = image_mset (\<lambda>p. forget (store wq p)) (mset (items wq))"

text \<open>\<open>w\<close> is served before or together with \<open>v\<close>.\<close>

definition served_first :: "WorkItem \<Rightarrow> WorkItem \<Rightarrow> bool" where
  "served_first w v \<longleftrightarrow> Priority w > Priority v \<or>
     Priority w = Priority v \<and> ScheduledAt w \<le> ScheduledAt v"

text \<open>Every queued item is the one its name is mapped to; in particular names are unique.\<close>

definition unique_names :: "WorkQueue \<Rightarrow> bool" where
  "unique_names wq \<longleftrightarrow>
     (\<forall>p \<in> set (items wq). itemsMap wq (item_NamespacedName (store wq p)) = Some p)"

lemma same_item_forget: "same_item a b \<longleftrightarrow> forget a = forget b"
  by (simp add: same_item_def forget_def)

lemma forget_sel [simp]:
  "item_NamespacedName (forget w) = item_NamespacedName w" "Priority (forget w) = Priority w"
  "RetryCount (forget w) = RetryCount w" "RetryCycle (forget w) = RetryCycle w"
  "EnqueuedAt (forget w) = EnqueuedAt w" "ScheduledAt (forget w) = ScheduledAt w"
  by (simp_all add: forget_def)

lemma queue_invD:
  assumes "queue_inv wq held"
  shows "pq_heap (store wq, items wq)" "distinct (items wq)"
    and "p \<in> set (items wq) \<Longrightarrow> p < next_ptr wq"
    and "p \<in> held \<Longrightarrow> p < next_ptr wq" "p \<in> held \<Longrightarrow> p \<notin> set (items wq)"
    and "itemsMap wq nn = Some p \<Longrightarrow> p \<in> set (items wq)"
    and "itemsMap wq nn = Some p \<Longrightarrow> item_NamespacedName (store wq p) = nn"
  using assms pq_ok_distinct [of "(store wq, items wq)"]
  by (auto simp: queue_inv_def pq_heap_def)

lemma distinct_notin_diff: "distinct xs \<Longrightarrow> p \<notin># mset xs - {#p#}"
  by (auto simp: in_diff_count distinct_count_atmost_1)

lemma image_mset_forget_cong:
  "(\<And>p. p \<in># M \<Longrightarrow> same_item (m p) (m' p)) \<Longrightarrow>
   image_mset (\<lambda>p. forget (m p)) M = image_mset (\<lambda>p. forget (m' p)) M"
  by (rule image_mset_cong) (simp add: same_item_forget)

section \<open>Creation\<close>

lemma New_fields [simp]:
  "items (NewWorkQueueWithConfig r d M c) = []" "itemsMap (NewWorkQueueWithConfig r d M c) = Map.empty"
  "shutdown (NewWorkQueueWithConfig r d M c) = False" "next_ptr (NewWorkQueueWithConfig r d M c) = 0"
  "MaxRetries (NewWorkQueueWithConfig r d M c) = r"
  "InitialRetryDelay (NewWorkQueueWithConfig r d M c) = d"
  "MaxRetryDelay (NewWorkQueueWithConfig r d M c) = M"
  "MaxRetryCycles (NewWorkQueueWithConfig r d M c) = c"
  by (simp_all add: NewWorkQueueWithConfig_def heap_Init_def pq_Len_def)

lemma queue_inv_New: "queue_inv (NewWorkQueueWithConfig r d M c) {}"
  by (simp add: queue_inv_def pq_heap_def pq_ok_def heap_ordered_def)

section \<open>Enqueue\<close>

definition new_item :: "NamespacedName \<Rightarrow> go_int \<Rightarrow> time \<Rightarrow> time \<Rightarrow> WorkItem" where
  "new_item nn pr t1 t2 = \<lparr>item_NamespacedName = nn, Priority = pr, RetryCount = 0, RetryCycle = 0,
     EnqueuedAt = t1, ScheduledAt = t2, index = 0\<rparr>"

lemma pq_heap_store_cong:
  assumes "\<And>p. p \<in> set xs \<Longrightarrow> m' p = m p"
  shows "pq_heap (m', xs) = pq_heap (m, xs)"
proof -
  have "pq_elems (m', xs) = pq_elems (m, xs)"
    using assms by (simp add: pq_elems_def key_of_def)
  moreover have "pq_ok (m', xs) = pq_ok (m, xs)"
    using assms by (auto simp: pq_ok_def)
  ultimately show ?thesis by (simp add: pq_heap_def)
qed

text \<open>Pushing a pointer that is not queued: what \<open>Enqueue\<close> does with a new item and \<open>Requeue\<close>
  with one a worker holds.\<close>

lemma push_item:
  assumes inv: "queue_inv wq held" and pn: "p \<notin> set (items wq)"
    and nx: "p < next_ptr wq'" "next_ptr wq \<le> next_ptr wq'"
    and eq: "(store wq', items wq') = heap_Push priorityQueue ((store wq)(p := w), items wq) p"
    and im: "itemsMap wq' = (itemsMap wq)(item_NamespacedName w \<mapsto> p)"
  shows "queue_inv wq' (held - {p})" "contents wq' = contents wq + {#forget w#}"
    and "mset (items wq') = mset (items wq) + {#p#}" "same_item (store wq' p) w"
    and "\<And>q. q \<noteq> p \<Longrightarrow> same_item (store wq' q) (store wq q)"
proof -
  have "pq_heap ((store wq)(p := w), items wq)"
    using queue_invD(1) [OF inv] pn by (subst pq_heap_store_cong [of _ _ "store wq"]) auto
  note push = pq_Push_call [OF this pn eq, simplified]
  show ms: "mset (items wq') = mset (items wq) + {#p#}" and sp: "same_item (store wq' p) w"
    using push(2) push(3) [of p] by simp_all
  show st: "same_item (store wq' q) (store wq q)" if "q \<noteq> p" for q using push(3) [of q] that by simp
  have set: "set (items wq') = insert p (set (items wq))"
    using ms by (metis set_mset_mset set_mset_add_mset_insert add_mset_add_single)
  have "item_NamespacedName (store wq' q) = n" if n: "itemsMap wq' n = Some q" for n q
  proof (cases "n = item_NamespacedName w")
    case True
    then show ?thesis using n same_item_fields(1) [OF sp] by (simp add: im)
  next
    case False
    then have old: "itemsMap wq n = Some q" using n by (simp add: im)
    then have "q \<noteq> p" using queue_invD(6) [OF inv old] pn by metis
    then show ?thesis using same_item_fields(1) [OF st] queue_invD(7) [OF inv old] by simp
  qed
  moreover have "q \<in> set (items wq')" if "itemsMap wq' n = Some q" for n q
    using that queue_invD(6) [OF inv, of n q] by (auto simp: im set split: if_splits)
  moreover have "q < next_ptr wq'" if "q \<in> set (items wq') \<or> q \<in> held" for q
    using that nx queue_invD(3,4) [OF inv, of q] by (auto simp: set)
  ultimately show "queue_inv wq' (held - {p})"
    using push(1) queue_invD(5) [OF inv] by (auto simp: queue_inv_def set)
  have "image_mset (\<lambda>q. forget (store wq' q)) (mset (items wq)) = contents wq"
    unfolding contents_def using pn by (intro image_mset_forget_cong st) auto
  then show "contents wq' = contents wq + {#forget w#}" using sp by (simp add: contents_def ms same_item_forget)
qed

lemma Enqueue_new:
  assumes inv: "queue_inv wq held" and "itemsMap wq nn = None"
  obtains wq' where "Enqueue wq nn pr t1 t2 = Some wq'" "queue_inv wq' held"
    and "contents wq' = contents wq + {#new_item nn pr t1 t2#}"
    and "itemsMap wq' = (itemsMap wq)(nn \<mapsto> next_ptr wq)"
    and "mset (items wq') = mset (items wq) + {#next_ptr wq#}"
    and "\<forall>q. q \<noteq> next_ptr wq \<longrightarrow> same_item (store wq' q) (store wq q)"
    and "same_item (store wq' (next_ptr wq)) (new_item nn pr t1 t2)"
proof -
  let ?p = "next_ptr wq" and ?w = "new_item nn pr t1 t2"
  have fresh: "?p \<notin> set (items wq)" "held - {?p} = held" using queue_invD(3,4) [OF inv] by blast+
  obtain wq' where wq': "Enqueue wq nn pr t1 t2 = Some wq'" "next_ptr wq' = Suc ?p"
      "(store wq', items wq') = heap_Push priorityQueue ((store wq)(?p := ?w), items wq) ?p"
      "itemsMap wq' = (itemsMap wq)(nn \<mapsto> ?p)"
    using assms(2) by (simp add: Enqueue_def Let_def new_item_def)
  have name: "item_NamespacedName ?w = nn" "forget ?w = ?w" by (simp_all add: forget_def new_item_def)
  have push: "queue_inv wq' (held - {?p})" "contents wq' = contents wq + {#forget ?w#}"
      "mset (items wq') = mset (items wq) + {#?p#}" "same_item (store wq' ?p) ?w"
      "\<And>q. q \<noteq> ?p \<Longrightarrow> same_item (store wq' q) (store wq q)"
    by (rule push_item [OF inv fresh(1) _ _ wq'(3)]; simp add: wq'(2,4) name)+
  show ?thesis
    using that [OF wq'(1)] push wq'(4) by (simp add: fresh name)
qed

lemma Enqueue_raise:
  assumes inv: "queue_inv wq held" and p: "itemsMap wq nn = Some p" and pr: "Priority (store wq p) < pr"
  obtains wq' where "Enqueue wq nn pr t1 t2 = Some wq'" "queue_inv wq' held"
    and "contents wq' = contents wq - {#forget (store wq p)#} + {#forget ((store wq p)\<lparr>Priority := pr\<rparr>)#}"
    and "itemsMap wq' = itemsMap wq" "mset (items wq') = mset (items wq)"
    and "\<forall>q. same_item (store wq' q) (((store wq)(p := (store wq p)\<lparr>Priority := pr\<rparr>)) q)"
proof -
  define m where "m = (store wq)(p := (store wq p)\<lparr>Priority := pr\<rparr>)"
  have pin: "p \<in> set (items wq)" using queue_invD(6) [OF inv p] .
  obtain s where s: "heap_Fix priorityQueue (m, items wq) (index (m p)) = Some s" "pq_heap s"
      "mset (snd s) = mset (items wq)" "\<forall>q. same_item (fst s q) (m q)"
      "\<forall>q. q \<notin> set (items wq) \<longrightarrow> fst s q = store wq q"
    by (rule pq_Fix_call [OF queue_invD(1) [OF inv] pin m_def])
  obtain wq' where wq': "Enqueue wq nn pr t1 t2 = Some wq'" "store wq' = fst s" "items wq' = snd s"
      "next_ptr wq' = next_ptr wq" "itemsMap wq' = itemsMap wq"
    using p pr s(1) by (simp add: Enqueue_def Let_def m_def)
  have set: "set (items wq') = set (items wq)" using s(3) wq'(3) by (metis set_mset_mset)
  have name: "item_NamespacedName (store wq' q) = item_NamespacedName (store wq q)" for q
    using same_item_fields(1) [OF s(4) [rule_format], of q] by (simp add: wq' m_def)
  have "queue_inv wq' held"
    using inv s(2) by (simp add: queue_inv_def wq'(2-5) set [unfolded wq'(3)] name [unfolded wq'(2)])
  moreover have "contents wq' = contents wq - {#forget (store wq p)#} +
      {#forget ((store wq p)\<lparr>Priority := pr\<rparr>)#}"
  proof -
    have M: "mset (items wq) = add_mset p (mset (items wq) - {#p#})" using pin by simp
    have nin: "p \<notin># mset (items wq) - {#p#}"
      using queue_invD(2) [OF inv] by (rule distinct_notin_diff)
    have "image_mset (\<lambda>q. forget (fst s q)) (mset (items wq) - {#p#}) =
        image_mset (\<lambda>q. forget (store wq q)) (mset (items wq) - {#p#})"
      using nin s(4) by (intro image_mset_forget_cong) (metis fun_upd_other m_def)
    moreover have "forget (fst s p) = forget ((store wq p)\<lparr>Priority := pr\<rparr>)"
      using s(4) [rule_format, of p] by (simp add: m_def same_item_forget)
    ultimately show ?thesis
      unfolding contents_def wq' s(3) by (subst (1 2) M) simp
  qed
  ultimately show ?thesis
    using that wq' s(3,4) by (simp add: m_def)
qed

lemma Enqueue_dup:
  "itemsMap wq nn = Some p \<Longrightarrow> pr \<le> Priority (store wq p) \<Longrightarrow> Enqueue wq nn pr t1 t2 = Some wq"
  by (simp add: Enqueue_def)

section \<open>Dequeue\<close>

lemma heap_head_first:
  assumes "pq_heap (m, xs)" and "q \<in> set xs"
  shows "served_first (m (xs ! 0)) (m q)"
proof -
  obtain i where i: "i < length xs" "q = xs ! i" using assms(2) by (auto simp: in_set_conv_nth)
  then have "\<not> key_lt (pq_elems (m, xs) ! i) (pq_elems (m, xs) ! 0)"
    using pqh.heap_root_least [of "pq_elems (m, xs)" "length xs" i] assms(1)
    by (simp add: pq_heap_def)
  then show ?thesis
    using i by (cases xs) (auto simp: nth_pq_elems key_of_def served_first_def)
qed

lemma contents_head_first:
  assumes "queue_inv wq held" and "v \<in># contents wq"
  shows "served_first (forget (store wq (items wq ! 0))) v"
proof -
  obtain q where "q \<in> set (items wq)" "v = forget (store wq q)"
    using assms(2) by (auto simp: contents_def)
  then show ?thesis
    using heap_head_first [OF queue_invD(1) [OF assms(1)], of q] by (simp add: served_first_def)
qed

lemma Dequeue_item:
  assumes inv: "queue_inv wq held" and "\<not> shutdown wq" and "items wq \<noteq> []"
    and "ScheduledAt (store wq (items wq ! 0)) \<le> now"
  obtains wq' where "Dequeue_pass wq now = Some (Dequeued (items wq ! 0), wq')"
    and "queue_inv wq' (insert (items wq ! 0) held)"
    and "mset (items wq) = mset (items wq') + {#items wq ! 0#}"
    and "contents wq = contents wq' + {#forget (store wq (items wq ! 0))#}"
    and "itemsMap wq' = (itemsMap wq)(item_NamespacedName (store wq (items wq ! 0)) := None)"
    and "\<forall>q. same_item (store wq' q) (store wq q)" "next_ptr wq' = next_ptr wq"
proof -
  let ?p = "items wq ! 0" and ?nn = "item_NamespacedName (store wq (items wq ! 0))"
  obtain s where s: "heap_Pop priorityQueue (store wq, items wq) = Some (?p, s)" "pq_heap s"
      "mset (items wq) = mset (snd s) + {#?p#}" "\<forall>q. same_item (fst s q) (store wq q)"
      "index (fst s ?p) = - 1" "\<forall>q. q \<notin> set (items wq) \<longrightarrow> fst s q = store wq q"
    by (rule pq_Pop_call [OF queue_invD(1) [OF inv] assms(3)])
  obtain wq' where wq': "Dequeue_pass wq now = Some (Dequeued ?p, wq')" "store wq' = fst s"
      "items wq' = snd s" "next_ptr wq' = next_ptr wq" "itemsMap wq' = (itemsMap wq)(?nn := None)"
    using assms(2-4) s(1) by (simp add: Dequeue_pass_def Let_def)
  have pin: "?p \<in> set (items wq)" using assms(3) by simp
  have set: "set (items wq) = insert ?p (set (items wq'))"
    using s(3) wq'(3) by (metis set_mset_mset set_mset_add_mset_insert add_mset_add_single)
  have "distinct (?p # items wq')"
    using queue_invD(2) [OF inv] s(3) wq'(3)
    by (metis add_mset_add_single mset.simps(2) mset_eq_imp_distinct_iff)
  then have notin: "?p \<notin> set (items wq')" by simp
  have name: "item_NamespacedName (store wq' q) = item_NamespacedName (store wq q)" for q
    using same_item_fields(1) [OF s(4) [rule_format], of q] by (simp add: wq'(2))
  have "queue_inv wq' (insert ?p held)"
    unfolding queue_inv_def
  proof (intro conjI allI impI ballI)
    show "pq_heap (store wq', items wq')" using s(2) wq' by simp
    show "p < next_ptr wq'" if "p \<in> set (items wq')" for p
      using that queue_invD(3) [OF inv, of p] set wq'(4) by auto
    show "p < next_ptr wq'" if "p \<in> insert ?p held" for p
      using that queue_invD(3) [OF inv pin] queue_invD(4) [OF inv, of p] wq'(4) by auto
    show "p \<notin> set (items wq')" if "p \<in> insert ?p held" for p
      using that notin queue_invD(5) [OF inv, of p] set by auto
    fix n p assume n: "itemsMap wq' n = Some p"
    then have old: "itemsMap wq n = Some p" "n \<noteq> ?nn" by (auto simp: wq'(5) split: if_splits)
    then show "item_NamespacedName (store wq' p) = n" using queue_invD(7) [OF inv] name by metis
    from old have "p \<noteq> ?p" using queue_invD(7) [OF inv old(1)] by auto
    then show "p \<in> set (items wq')" using queue_invD(6) [OF inv old(1)] set by auto
  qed
  moreover have "contents wq = contents wq' + {#forget (store wq ?p)#}"
    using image_mset_forget_cong [of "mset (snd s)" "fst s" "store wq"] s(4)
    by (simp add: contents_def wq' s(3))
  ultimately show ?thesis
    using that wq' s(3,4) by simp
qed

lemma Dequeue_wait:
  assumes "\<not> shutdown wq" and "items wq \<noteq> []" and "now < ScheduledAt (store wq (items wq ! 0))"
  shows "Dequeue_pass wq now =
    Some (WaitTimer (time_Sub (ScheduledAt (store wq (items wq ! 0))) now), wq)"
  using assms by (simp add: Dequeue_pass_def Let_def)

lemma Dequeue_empty:
  "\<not> shutdown wq \<Longrightarrow> items wq = [] \<Longrightarrow> Dequeue_pass wq now = Some (WaitSignal, wq)"
  by (simp add: Dequeue_pass_def)

lemma Dequeue_shutdown: "shutdown wq \<Longrightarrow> Dequeue_pass wq now = Some (DequeueShutdown, wq)"
  by (simp add: Dequeue_pass_def)

lemmas Dequeue_other = Dequeue_wait Dequeue_empty Dequeue_shutdown

section \<open>Requeue, Done and Shutdown\<close>

text \<open>
  The retry bookkeeping of \<^verbatim>\<open>Requeue\<close> on the item alone: whether it gives the item up, and
  otherwise the item as it goes back into the queue.
\<close>

definition gives_up :: "WorkQueue \<Rightarrow> WorkItem \<Rightarrow> bool" where
  "gives_up wq w \<longleftrightarrow> wrap64 (RetryCount w + 1) > MaxRetries wq \<and> MaxRetryCycles wq > 0 \<and>
     RetryCycle w \<ge> MaxRetryCycles wq"

definition retried :: "WorkQueue \<Rightarrow> WorkItem \<Rightarrow> time \<Rightarrow> WorkItem" where
  "retried wq w now =
     (if wrap64 (RetryCount w + 1) > MaxRetries wq
      then w\<lparr>RetryCycle := wrap64 (RetryCycle w + 1), RetryCount := 0,
             ScheduledAt := now + MaxRetryDelay wq\<rparr>
      else w\<lparr>RetryCount := wrap64 (RetryCount w + 1),
             ScheduledAt := now + backoff_delay wq (wrap64 (RetryCount w + 1))\<rparr>)"

lemma dec_processing_fields [simp]:
  "store (dec_processing wq) = store wq" "next_ptr (dec_processing wq) = next_ptr wq"
  "items (dec_processing wq) = items wq" "itemsMap (dec_processing wq) = itemsMap wq"
  "shutdown (dec_processing wq) = shutdown wq" "MaxRetries (dec_processing wq) = MaxRetries wq"
  "InitialRetryDelay (dec_processing wq) = InitialRetryDelay wq"
  "MaxRetryDelay (dec_processing wq) = MaxRetryDelay wq"
  "MaxRetryCycles (dec_processing wq) = MaxRetryCycles wq"
  "processingItems (metrics (dec_processing wq)) = wrap64 (processingItems (metrics wq) - 1)"
  by (simp_all add: dec_processing_def)

lemma backoff_delay_dec [simp]:
  "backoff_delay (dec_processing wq) = backoff_delay wq"
  "backoff_delay (wq\<lparr>store := m\<rparr>) = backoff_delay wq"
  by (rule ext, simp add: backoff_delay_def Let_def)+

lemma Requeue_gives_up:
  assumes "gives_up wq (store wq p)"
  shows "items (Requeue wq p now) = items wq" "itemsMap (Requeue wq p now) = itemsMap wq"
    "next_ptr (Requeue wq p now) = next_ptr wq"
    "q \<noteq> p \<Longrightarrow> store (Requeue wq p now) q = store wq q"
    "metrics (Requeue wq p now) =
       (metrics wq)\<lparr>processingItems := wrap64 (wrap64 (processingItems (metrics wq) - 1) - 1)\<rparr>"
  using assms by (simp_all add: Requeue_def gives_up_def Let_def dec_processing_def)

lemma queue_inv_store_held:
  assumes inv: "queue_inv wq held" and "p \<in> held"
  shows "queue_inv (wq\<lparr>store := (store wq)(p := w)\<rparr>) held"
proof -
  have p: "p \<notin> set (items wq)" using queue_invD(5) [OF inv assms(2)] .
  then have "pq_heap ((store wq)(p := w), items wq)"
    using queue_invD(1) [OF inv] by (subst pq_heap_store_cong [of _ _ "store wq"]) auto
  with inv p show ?thesis by (auto simp: queue_inv_def)
qed

lemma queue_inv_dec [simp]: "queue_inv (dec_processing wq) held = queue_inv wq held"
  by (simp add: queue_inv_def)

lemma queue_inv_metrics [simp]: "queue_inv (wq\<lparr>metrics := x\<rparr>) held = queue_inv wq held"
  by (simp add: queue_inv_def)

lemma queue_inv_mono: "queue_inv wq held \<Longrightarrow> held' \<subseteq> held \<Longrightarrow> queue_inv wq held'"
  by (auto simp: queue_inv_def)

lemma Requeue_push:
  assumes inv: "queue_inv wq held" and p: "p \<in> held" and ng: "\<not> gives_up wq (store wq p)"
    and wq': "wq' = Requeue wq p now" and w: "w = retried wq (store wq p) now"
  shows "queue_inv wq' (held - {p})" "contents wq' = contents wq + {#forget w#}"
    and "itemsMap wq' = (itemsMap wq)(item_NamespacedName w \<mapsto> p)"
    and "mset (items wq') = mset (items wq) + {#p#}" "same_item (store wq' p) w"
    and "\<And>q. q \<noteq> p \<Longrightarrow> same_item (store wq' q) (store wq q)" "next_ptr wq' = next_ptr wq"
proof -
  have eq: "(store wq', items wq') = heap_Push priorityQueue ((store wq)(p := w), items wq) p"
    and nx: "next_ptr wq' = next_ptr wq"
    and im: "itemsMap wq' = (itemsMap wq)(item_NamespacedName w \<mapsto> p)"
    using ng unfolding wq' w by (auto simp: Requeue_def gives_up_def retried_def Let_def)
  have "p < next_ptr wq'" "next_ptr wq \<le> next_ptr wq'" using queue_invD(4) [OF inv p] nx by simp_all
  note push = push_item [OF inv queue_invD(5) [OF inv p] this eq im]
  show "queue_inv wq' (held - {p})" "contents wq' = contents wq + {#forget w#}"
      "mset (items wq') = mset (items wq) + {#p#}" "same_item (store wq' p) w"
    by (fact push)+
  show "same_item (store wq' q) (store wq q)" if "q \<noteq> p" for q by (rule push(5) [OF that])
  show "itemsMap wq' = (itemsMap wq)(item_NamespacedName w \<mapsto> p)" "next_ptr wq' = next_ptr wq"
    by (fact im nx)+
qed

lemma queue_inv_Requeue:
  assumes inv: "queue_inv wq held" and p: "p \<in> held"
  shows "queue_inv (Requeue wq p now) (held - {p})"
proof (cases "gives_up wq (store wq p)")
  case True
  obtain w where "store (Requeue wq p now) = (store wq)(p := w)"
    using True by (simp add: Requeue_def gives_up_def Let_def)
  then have "queue_inv (Requeue wq p now) held"
    using queue_inv_store_held [OF inv p, of w] Requeue_gives_up(1-3) [OF True]
    by (simp add: queue_inv_def)
  then show ?thesis by (rule queue_inv_mono) auto
next
  case False
  then show ?thesis using Requeue_push(1) [OF inv p] by simp
qed

end
