(* ===== verification/Queue_Behaviour.thy ===== *)
theory Queue_Behaviour
  imports Queue_Invariant
begin

text \<open>
  The abstract queue the implementation refines, the states a queue shared by reconcilers and
  workers can reach, deduplication, and the metrics.
\<close>

section \<open>Abstract queue\<close>

text \<open>
  The specification forgets the heap: a multiset of items, and for each name the item a second
  \<^verbatim>\<open>Enqueue\<close> of that name is merged into.
\<close>

record aqueue =
  a_items :: "WorkItem multiset"
  a_index :: "NamespacedName \<rightharpoonup> WorkItem"

definition abs_queue :: "WorkQueue \<Rightarrow> aqueue" where
  "abs_queue wq = \<lparr>a_items = contents wq,
     a_index = (\<lambda>nn. map_option (\<lambda>p. forget (store wq p)) (itemsMap wq nn))\<rparr>"

definition a_Enqueue :: "aqueue \<Rightarrow> NamespacedName \<Rightarrow> go_int \<Rightarrow> time \<Rightarrow> time \<Rightarrow> aqueue" where
  "a_Enqueue a nn pr t1 t2 =
     (case a_index a nn of
        None \<Rightarrow> \<lparr>a_items = a_items a + {#new_item nn pr t1 t2#},
                 a_index = (a_index a)(nn \<mapsto> new_item nn pr t1 t2)\<rparr>
      | Some w \<Rightarrow>
          if pr > Priority w
          then \<lparr>a_items = a_items a - {#w#} + {#w\<lparr>Priority := pr\<rparr>#},
                a_index = (a_index a)(nn \<mapsto> w\<lparr>Priority := pr\<rparr>)\<rparr>
          else a)"

text \<open>Serving takes some item that no other queued item precedes.\<close>

definition a_Dequeue :: "aqueue \<Rightarrow> WorkItem \<Rightarrow> aqueue \<Rightarrow> bool" where
  "a_Dequeue a w a' \<longleftrightarrow> w \<in># a_items a \<and> (\<forall>v \<in># a_items a. served_first w v) \<and>
     a' = \<lparr>a_items = a_items a - {#w#}, a_index = (a_index a)(item_NamespacedName w := None)\<rparr>"

definition a_Requeue :: "aqueue \<Rightarrow> WorkItem \<Rightarrow> aqueue" where
  "a_Requeue a w = \<lparr>a_items = a_items a + {#w#}, a_index = (a_index a)(item_NamespacedName w \<mapsto> w)\<rparr>"

section \<open>Steps of a shared queue\<close>

text \<open>
  One operation at a time holds the mutex. The second component is the set of items held by
  workers: \<^verbatim>\<open>Dequeue\<close> adds to it, and \<^verbatim>\<open>Requeue\<close> and \<^verbatim>\<open>Done\<close> are called on held items only.
\<close>

datatype queue_event =
    EvEnqueue NamespacedName go_int time time
  | EvDequeue time
  | EvRequeue ptr time
  | EvDone ptr
  | EvShutdown

inductive queue_step :: "WorkQueue \<times> ptr set \<Rightarrow> queue_event \<Rightarrow> WorkQueue \<times> ptr set \<Rightarrow> bool" where
  step_enqueue: "Enqueue wq nn pr t1 t2 = Some wq' \<Longrightarrow>
     queue_step (wq, held) (EvEnqueue nn pr t1 t2) (wq', held)"
| step_dequeue: "Dequeue_pass wq now = Some (Dequeued p, wq') \<Longrightarrow>
     queue_step (wq, held) (EvDequeue now) (wq', insert p held)"
| step_wait: "Dequeue_pass wq now = Some (out, wq') \<Longrightarrow> \<forall>p. out \<noteq> Dequeued p \<Longrightarrow>
     queue_step (wq, held) (EvDequeue now) (wq', held)"
| step_requeue: "p \<in> held \<Longrightarrow>
     queue_step (wq, held) (EvRequeue p now) (Requeue wq p now, held - {p})"
| step_done: "p \<in> held \<Longrightarrow> queue_step (wq, held) (EvDone p) (Done wq p, held - {p})"
| step_shutdown: "queue_step (wq, held) EvShutdown (Shutdown wq, held)"

inductive queue_reach :: "WorkQueue \<Rightarrow> WorkQueue \<times> ptr set \<Rightarrow> bool" for wq0 where
  reach_start: "queue_reach wq0 (wq0, {})"
| reach_step: "queue_reach wq0 s \<Longrightarrow> queue_step s e t \<Longrightarrow> queue_reach wq0 t"

section \<open>The invariant in every reachable state\<close>

lemma queue_inv_Shutdown [simp]: "queue_inv (Shutdown wq) held = queue_inv wq held"
  by (simp add: queue_inv_def Shutdown_def)

lemma queue_inv_Enqueue:
  assumes inv: "queue_inv wq held"
  shows "\<exists>wq'. Enqueue wq nn pr t1 t2 = Some wq' \<and> queue_inv wq' held"
proof (cases "itemsMap wq nn")
  case None
  show ?thesis by (rule Enqueue_new [OF inv None, of pr t1 t2]) blast
next
  case (Some p)
  show ?thesis
  proof (cases "Priority (store wq p) < pr")
    case True
    show ?thesis by (rule Enqueue_raise [OF inv Some True, of t1 t2]) blast
  next
    case False
    then show ?thesis using Enqueue_dup [OF Some] inv by simp
  qed
qed

lemma queue_inv_Dequeue:
  assumes inv: "queue_inv wq held"
  shows "\<exists>out wq'. Dequeue_pass wq now = Some (out, wq') \<and>
    (case out of Dequeued p \<Rightarrow> queue_inv wq' (insert p held) | _ \<Rightarrow> wq' = wq)"
proof -
  consider "shutdown wq" | "\<not> shutdown wq" "items wq = []"
    | "\<not> shutdown wq" "items wq \<noteq> []" "now < ScheduledAt (store wq (items wq ! 0))"
    | "\<not> shutdown wq" "items wq \<noteq> []" "ScheduledAt (store wq (items wq ! 0)) \<le> now"
    by linarith
  then show ?thesis
  proof cases
    case 4
    then obtain wq' where "Dequeue_pass wq now = Some (Dequeued (items wq ! 0), wq')"
        "queue_inv wq' (insert (items wq ! 0) held)"
      using Dequeue_item [OF inv] by metis
    then show ?thesis by simp
  qed (simp_all add: Dequeue_other)
qed

lemma queue_step_inv:
  assumes "queue_step s e t" and "queue_inv (fst s) (snd s)"
  shows "queue_inv (fst t) (snd t)"
  using assms
proof (induction rule: queue_step.induct)
  case (step_enqueue wq nn pr t1 t2 wq' held)
  then show ?case using queue_inv_Enqueue [of wq held nn pr t1 t2] by auto
next
  case (step_dequeue wq now p wq' held)
  then show ?case using queue_inv_Dequeue [of wq held now] by auto
next
  case (step_wait wq now out wq' held)
  then show ?case
    using queue_inv_Dequeue [of wq held now] by (cases out) auto
next
  case (step_requeue p held wq now)
  then show ?case by (simp add: queue_inv_Requeue)
next
  case (step_done p held wq)
  then show ?case by (auto simp: Done_def intro: queue_inv_mono)
qed simp

lemma queue_reach_inv:
  "queue_reach wq0 s \<Longrightarrow> queue_inv wq0 {} \<Longrightarrow> queue_inv (fst s) (snd s)"
  by (induction rule: queue_reach.induct) (auto dest: queue_step_inv)

section \<open>A concrete run\<close>

text \<open>
  A worker takes an item, the same name is enqueued again meanwhile, the worker gives its item
  back for a retry, and a worker takes the next item.
\<close>

definition ex_n :: NamespacedName where
  "ex_n = \<lparr>Namespace = ''team-a'', Name = ''web''\<rparr>"

definition ex_queued :: WorkQueue where
  "ex_queued = the (Enqueue NewWorkQueue ex_n 0 1 1)"

definition ex_taken :: WorkQueue where
  "ex_taken = snd (the (Dequeue_pass ex_queued 2))"

definition ex_again :: WorkQueue where
  "ex_again = the (Enqueue ex_taken ex_n 0 3 3)"

definition ex_twice :: WorkQueue where
  "ex_twice = Requeue ex_again 0 4"

definition ex_lost :: WorkQueue where
  "ex_lost = snd (the (Dequeue_pass ex_twice 5))"

lemma ex_pass:
  "map_option fst (Dequeue_pass q t) = Some out \<Longrightarrow>
     Dequeue_pass q t = Some (out, snd (the (Dequeue_pass q t)))"
  by (cases "Dequeue_pass q t") auto

lemma ex_some: "x \<noteq> None \<Longrightarrow> x = Some (the x)"
  by auto

lemma ex_run:
  "Enqueue NewWorkQueue ex_n 0 1 1 = Some ex_queued"
  "Dequeue_pass ex_queued 2 = Some (Dequeued 0, ex_taken)"
  "Enqueue ex_taken ex_n 0 3 3 = Some ex_again"
  "Dequeue_pass ex_twice 5 = Some (Dequeued 1, ex_lost)"
  unfolding ex_queued_def ex_taken_def ex_again_def ex_lost_def
  by (rule ex_some ex_pass, code_simp)+

lemma ex_reach:
  "queue_reach NewWorkQueue (ex_queued, {})"
  "queue_reach NewWorkQueue (ex_taken, {0})"
  "queue_reach NewWorkQueue (ex_again, {0})"
  "queue_reach NewWorkQueue (ex_twice, {})"
  "queue_reach NewWorkQueue (ex_lost, {1})"
proof -
  show 1: "queue_reach NewWorkQueue (ex_queued, {})"
    by (rule reach_step [OF reach_start step_enqueue [OF ex_run(1)]])
  show 2: "queue_reach NewWorkQueue (ex_taken, {0})"
    by (rule reach_step [OF 1 step_dequeue [OF ex_run(2)]])
  show 3: "queue_reach NewWorkQueue (ex_again, {0})"
    by (rule reach_step [OF 2 step_enqueue [OF ex_run(3)]])
  have "queue_step (ex_again, {0}) (EvRequeue 0 4) (ex_twice, {0} - {0})"
    unfolding ex_twice_def by (rule step_requeue) simp
  then show 4: "queue_reach NewWorkQueue (ex_twice, {})"
    using reach_step [OF 3] by simp
  show "queue_reach NewWorkQueue (ex_lost, {1})"
    by (rule reach_step [OF 4 step_dequeue [OF ex_run(4)]])
qed

lemma ex_inv:
  "queue_inv NewWorkQueue {}" "queue_inv ex_queued {}" "queue_inv ex_taken {0}"
  "queue_inv ex_again {0}" "queue_inv ex_twice {}" "queue_inv ex_lost {1}"
proof -
  show n: "queue_inv NewWorkQueue {}" by (simp add: NewWorkQueue_def queue_inv_New)
  show "queue_inv ex_queued {}" "queue_inv ex_taken {0}" "queue_inv ex_again {0}"
    "queue_inv ex_twice {}" "queue_inv ex_lost {1}"
    using ex_reach [THEN queue_reach_inv] n by simp_all
qed

section \<open>No panic\<close>

text \<open>
  C7: From a new queue, whatever the interleaving of \<^verbatim>\<open>Enqueue\<close>, \<^verbatim>\<open>Dequeue\<close>, \<^verbatim>\<open>Requeue\<close>, \<^verbatim>\<open>Done\<close>
  and \<^verbatim>\<open>Shutdown\<close>, the slice stays a heap whose items know their positions and the map points
  into it at items of the right name; hence no later \<^verbatim>\<open>Enqueue\<close> or \<^verbatim>\<open>Dequeue\<close> indexes out of
  range: neither panics.
\<close>

theorem queue_never_panics:
  assumes "queue_reach (NewWorkQueueWithConfig r d M c) (wq, held)"
  shows "queue_inv wq held \<and> Enqueue wq nn pr t1 t2 \<noteq> None \<and> Dequeue_pass wq now \<noteq> None"
proof -
  have inv: "queue_inv wq held"
    using queue_reach_inv [OF assms] queue_inv_New by simp
  then show ?thesis
    using queue_inv_Enqueue [OF inv, of nn pr t1 t2] queue_inv_Dequeue [OF inv, of now] by auto
qed

theorem queue_never_panics_witness:
  "queue_inv ex_twice {} \<and> Enqueue ex_twice ex_n 1 6 6 \<noteq> None \<and> Dequeue_pass ex_twice 5 \<noteq> None"
  by (rule queue_never_panics [OF ex_reach(4) [unfolded NewWorkQueue_def]])

section \<open>Refinement of the abstract queue\<close>

lemma map_option_cong_some:
  "(\<And>p. x = Some p \<Longrightarrow> f p = g p) \<Longrightarrow> map_option f x = map_option g x"
  by (cases x) simp_all

lemma Enqueue_new_refines:
  assumes inv: "queue_inv wq held" and None: "itemsMap wq nn = None"
  shows "\<exists>wq'. Enqueue wq nn pr t1 t2 = Some wq' \<and> abs_queue wq' = a_Enqueue (abs_queue wq) nn pr t1 t2"
proof -
  let ?n = "next_ptr wq"
  obtain wq' where wq': "Enqueue wq nn pr t1 t2 = Some wq'" "queue_inv wq' held"
      "contents wq' = contents wq + {#new_item nn pr t1 t2#}"
      "itemsMap wq' = (itemsMap wq)(nn \<mapsto> ?n)" "mset (items wq') = mset (items wq) + {#?n#}"
      "\<forall>q. q \<noteq> ?n \<longrightarrow> same_item (store wq' q) (store wq q)"
      "same_item (store wq' ?n) (new_item nn pr t1 t2)"
    by (rule Enqueue_new [OF inv None])
  have "map_option (\<lambda>p. forget (store wq' p)) (itemsMap wq n) =
      map_option (\<lambda>p. forget (store wq p)) (itemsMap wq n)" for n
  proof (rule map_option_cong_some)
    fix p assume "itemsMap wq n = Some p"
    then have "p < ?n" using queue_invD(3,6) [OF inv] by blast
    then show "forget (store wq' p) = forget (store wq p)"
      using wq'(6) by (simp add: same_item_forget)
  qed
  moreover have "forget (store wq' ?n) = new_item nn pr t1 t2"
    using wq'(7) by (simp add: same_item_forget forget_def new_item_def)
  ultimately show ?thesis
    using None wq'(1) by (auto simp: abs_queue_def a_Enqueue_def wq'(3,4))
qed

text \<open>The index of the abstract queue after the value at one pointer changed.\<close>

lemma index_updated:
  assumes inv: "queue_inv wq held" and nn: "itemsMap wq nn = Some p"
    and m: "\<forall>q. same_item (m q) (((store wq)(p := v)) q)"
  shows "(\<lambda>n. map_option (\<lambda>p. forget (m p)) (itemsMap wq n)) =
    (\<lambda>n. map_option (\<lambda>p. forget (store wq p)) (itemsMap wq n))(nn \<mapsto> forget v)"
proof
  fix n
  have "forget (m q) = forget (store wq q)" if "itemsMap wq n = Some q" "n \<noteq> nn" for q
  proof -
    have "q \<noteq> p" using that queue_invD(7) [OF inv that(1)] queue_invD(7) [OF inv nn] by auto
    then show ?thesis using m [rule_format, of q] by (simp add: same_item_forget)
  qed
  then show "map_option (\<lambda>p. forget (m p)) (itemsMap wq n) =
      ((\<lambda>n. map_option (\<lambda>p. forget (store wq p)) (itemsMap wq n))(nn \<mapsto> forget v)) n"
    using nn m [rule_format, of p] by (cases "n = nn") (auto simp: same_item_forget intro!: map_option_cong_some)
qed

lemma Enqueue_raise_refines:
  assumes inv: "queue_inv wq held" and Some: "itemsMap wq nn = Some p" and pr: "Priority (store wq p) < pr"
  shows "\<exists>wq'. Enqueue wq nn pr t1 t2 = Some wq' \<and> abs_queue wq' = a_Enqueue (abs_queue wq) nn pr t1 t2"
proof -
  let ?v = "(store wq p)\<lparr>Priority := pr\<rparr>"
  obtain wq' where wq': "Enqueue wq nn pr t1 t2 = Some wq'" "queue_inv wq' held"
      "contents wq' = contents wq - {#forget (store wq p)#} + {#forget ?v#}"
      "itemsMap wq' = itemsMap wq" "mset (items wq') = mset (items wq)"
      "\<forall>q. same_item (store wq' q) (((store wq)(p := ?v)) q)"
    by (rule Enqueue_raise [OF inv Some pr])
  have "forget ?v = (forget (store wq p))\<lparr>Priority := pr\<rparr>" by (simp add: forget_def)
  then show ?thesis
    using Some pr wq'(1) index_updated [OF inv Some wq'(6)] by (simp add: abs_queue_def a_Enqueue_def wq'(3,4))
qed

text \<open>
  C12: \<^verbatim>\<open>Enqueue\<close> implements the abstract queue: an unknown name adds one fresh item, a known name
  adds nothing and at most raises the priority of the item already there.
\<close>

theorem Enqueue_refines:
  assumes inv: "queue_inv wq held"
  shows "\<exists>wq'. Enqueue wq nn pr t1 t2 = Some wq' \<and>
    abs_queue wq' = a_Enqueue (abs_queue wq) nn pr t1 t2"
proof (cases "itemsMap wq nn")
  case None
  then show ?thesis by (rule Enqueue_new_refines [OF inv])
next
  case (Some p)
  then show ?thesis
    using Enqueue_raise_refines [OF inv Some] Enqueue_dup [OF Some]
    by (cases "Priority (store wq p) < pr") (auto simp: abs_queue_def a_Enqueue_def)
qed

theorem Enqueue_refines_witness:
  "\<exists>wq'. Enqueue ex_taken ex_n 0 3 3 = Some wq' \<and>
     abs_queue wq' = a_Enqueue (abs_queue ex_taken) ex_n 0 3 3"
  by (rule Enqueue_refines [OF ex_inv(3)])

lemma Dequeued_cases:
  assumes "Dequeue_pass wq now = Some (Dequeued p, wq')"
  shows "\<not> shutdown wq" "items wq \<noteq> []" "p = items wq ! 0" "ScheduledAt (store wq p) \<le> now"
  using assms by (auto simp: Dequeue_pass_def Let_def split: if_splits option.splits)

text \<open>
  C4: What \<^verbatim>\<open>Dequeue\<close> returns is due, and is served first: no queued item has a higher priority,
  or the same priority and an earlier schedule. Exactly that item leaves the queue, unchanged,
  and its name becomes free.
\<close>

theorem Dequeue_refines:
  assumes inv: "queue_inv wq held" and deq: "Dequeue_pass wq now = Some (Dequeued p, wq')"
  shows "a_Dequeue (abs_queue wq) (forget (store wq p)) (abs_queue wq') \<and>
    ScheduledAt (store wq p) \<le> now \<and> forget (store wq' p) = forget (store wq p) \<and>
    queue_inv wq' (insert p held)"
proof -
  note c = Dequeued_cases [OF deq]
  obtain wq'' where w: "Dequeue_pass wq now = Some (Dequeued (items wq ! 0), wq'')"
      "queue_inv wq'' (insert (items wq ! 0) held)"
      "mset (items wq) = mset (items wq'') + {#items wq ! 0#}"
      "contents wq = contents wq'' + {#forget (store wq (items wq ! 0))#}"
      "itemsMap wq'' = (itemsMap wq)(item_NamespacedName (store wq (items wq ! 0)) := None)"
      "\<forall>q. same_item (store wq'' q) (store wq q)" "next_ptr wq'' = next_ptr wq"
    by (rule Dequeue_item [OF inv c(1,2) c(4) [unfolded c(3)]])
  have eq: "wq'' = wq'" "items wq ! 0 = p" using w(1) deq by simp_all
  note w = w [unfolded eq]
  have first: "served_first (forget (store wq p)) v" if "v \<in># contents wq" for v
    using contents_head_first [OF inv that] eq(2) by simp
  have idx: "(\<lambda>n. map_option (\<lambda>p. forget (store wq' p)) (itemsMap wq' n)) =
      (\<lambda>n. map_option (\<lambda>p. forget (store wq p)) (itemsMap wq n))(item_NamespacedName (store wq p) := None)"
    using w(6) by (auto simp: w(5) same_item_forget fun_eq_iff intro!: map_option_cong_some)
  have "a_Dequeue (abs_queue wq) (forget (store wq p)) (abs_queue wq')"
    using first idx by (simp add: a_Dequeue_def abs_queue_def w(4))
  then show ?thesis
    using c(4) w(2,6) by (simp add: same_item_forget)
qed

theorem Dequeue_refines_witness:
  "a_Dequeue (abs_queue ex_twice) (forget (store ex_twice 1)) (abs_queue ex_lost) \<and>
    ScheduledAt (store ex_twice 1) \<le> 5 \<and> forget (store ex_lost 1) = forget (store ex_twice 1) \<and>
    queue_inv ex_lost (insert 1 {})"
  by (rule Dequeue_refines [OF ex_inv(5) ex_run(4)])

text \<open>
  C26: \<^verbatim>\<open>Requeue\<close> of a held item adds exactly that item back, with its retry bookkeeping and its
  next schedule, or gives it up and leaves what is queued as it was.
\<close>

theorem Requeue_refines:
  assumes inv: "queue_inv wq held" and p: "p \<in> held"
  shows "abs_queue (Requeue wq p now) =
    (if gives_up wq (store wq p) then abs_queue wq
     else a_Requeue (abs_queue wq) (forget (retried wq (store wq p) now)))"
proof -
  have pn: "q \<noteq> p" if "q \<in> set (items wq)" for q using that queue_invD(5) [OF inv p] by auto
  show ?thesis
  proof (cases "gives_up wq (store wq p)")
    case True
    note g = Requeue_gives_up [OF True, where now = now]
    have "map_option (\<lambda>q. forget (store (Requeue wq p now) q)) (itemsMap wq n) =
        map_option (\<lambda>q. forget (store wq q)) (itemsMap wq n)" for n
      using g(4) pn queue_invD(6) [OF inv] by (intro map_option_cong_some) simp
    moreover have "contents (Requeue wq p now) = contents wq"
      using g(1,4) pn by (auto simp: contents_def intro!: image_mset_cong)
    ultimately show ?thesis using True g(2) by (simp add: abs_queue_def)
  next
    case False
    let ?w = "retried wq (store wq p) now"
    note r = Requeue_push [OF inv p False refl refl, where now = now]
    have old: "map_option (\<lambda>q. forget (store (Requeue wq p now) q)) (itemsMap wq n) =
        map_option (\<lambda>q. forget (store wq q)) (itemsMap wq n)" for n
      using r(6) [unfolded same_item_forget] pn queue_invD(6) [OF inv]
      by (intro map_option_cong_some) simp
    have "forget (store (Requeue wq p now) p) = forget ?w"
      using r(5) by (simp add: same_item_forget)
    then show ?thesis
      using False old by (auto simp: abs_queue_def a_Requeue_def r(2,3))
  qed
qed

theorem Requeue_refines_witness:
  "abs_queue (Requeue ex_again 0 4) =
    (if gives_up ex_again (store ex_again 0) then abs_queue ex_again
     else a_Requeue (abs_queue ex_again) (forget (retried ex_again (store ex_again 0) 4)))"
  by (rule Requeue_refines [OF ex_inv(4)]) simp

section \<open>Deduplication\<close>

lemma unique_names_inj:
  "unique_names wq \<Longrightarrow> inj_on (\<lambda>p. item_NamespacedName (store wq p)) (set (items wq))"
  unfolding unique_names_def inj_on_def by (metis option.inject)

lemma set_items_add: "mset xs = mset ys + {#p#} \<Longrightarrow> set xs = insert p (set ys)"
  by (metis set_mset_mset set_mset_add_mset_insert add_mset_add_single)

lemma length_items_add: "mset xs = mset ys + {#p#} \<Longrightarrow> length xs = Suc (length ys)"
  by (metis size_mset size_add_mset add_mset_add_single)

lemma unique_pushed:
  assumes u: "unique_names wq" and free: "itemsMap wq (item_NamespacedName w) = None"
    and ms: "mset (items wq') = mset (items wq) + {#p#}" and sp: "same_item (store wq' p) w"
    and st: "\<And>q. q \<noteq> p \<Longrightarrow> same_item (store wq' q) (store wq q)"
    and im: "itemsMap wq' = (itemsMap wq)(item_NamespacedName w \<mapsto> p)"
  shows "unique_names wq'"
  unfolding unique_names_def
proof
  fix q assume q: "q \<in> set (items wq')"
  show "itemsMap wq' (item_NamespacedName (store wq' q)) = Some q"
  proof (cases "q = p")
    case True
    then show ?thesis using same_item_fields(1) [OF sp] by (simp add: im)
  next
    case False
    then have "itemsMap wq (item_NamespacedName (store wq q)) = Some q"
      using q u set_items_add [OF ms] by (simp add: unique_names_def)
    then show ?thesis using free same_item_fields(1) [OF st [OF False]] by (auto simp: im)
  qed
qed

lemma Enqueue_counts:
  assumes inv: "queue_inv wq held"
  shows "\<exists>wq'. Enqueue wq nn pr t1 t2 = Some wq' \<and> queue_inv wq' held \<and>
    (unique_names wq \<longrightarrow> unique_names wq') \<and>
    (\<forall>m. Contains wq' m \<longleftrightarrow> m = nn \<or> Contains wq m) \<and>
    Len wq' = (if Contains wq nn then Len wq else Suc (Len wq))"
proof (cases "itemsMap wq nn")
  case None
  let ?n = "next_ptr wq"
  obtain wq' where w: "Enqueue wq nn pr t1 t2 = Some wq'" "queue_inv wq' held"
      "contents wq' = contents wq + {#new_item nn pr t1 t2#}"
      "itemsMap wq' = (itemsMap wq)(nn \<mapsto> ?n)" "mset (items wq') = mset (items wq) + {#?n#}"
      "\<forall>q. q \<noteq> ?n \<longrightarrow> same_item (store wq' q) (store wq q)"
      "same_item (store wq' ?n) (new_item nn pr t1 t2)"
    by (rule Enqueue_new [OF inv None])
  have name: "item_NamespacedName (new_item nn pr t1 t2) = nn" by (simp add: new_item_def)
  have "unique_names wq'" if "unique_names wq"
    by (rule unique_pushed [OF that _ w(5) w(7) w(6) [rule_format]]) (simp_all add: w(4) None name)
  then show ?thesis
    using w(1,2) None length_items_add [OF w(5)] by (auto simp: Contains_def Len_def w(4))
next
  case (Some p)
  show ?thesis
  proof (cases "Priority (store wq p) < pr")
    case False
    then show ?thesis using Enqueue_dup [OF Some] inv Some by (auto simp: Contains_def)
  next
    case True
    obtain wq' where w: "Enqueue wq nn pr t1 t2 = Some wq'" "queue_inv wq' held"
        "contents wq' = contents wq - {#forget (store wq p)#} + {#forget ((store wq p)\<lparr>Priority := pr\<rparr>)#}"
        "itemsMap wq' = itemsMap wq" "mset (items wq') = mset (items wq)"
        "\<forall>q. same_item (store wq' q) (((store wq)(p := (store wq p)\<lparr>Priority := pr\<rparr>)) q)"
      by (rule Enqueue_raise [OF inv Some True])
    have "item_NamespacedName (store wq' q) = item_NamespacedName (store wq q)" for q
      using same_item_fields(1) [OF w(6) [rule_format, of q]] by simp
    moreover have "set (items wq') = set (items wq)" "length (items wq') = length (items wq)"
      using w(5) by (metis set_mset_mset, metis size_mset)
    ultimately show ?thesis
      using w(1,2) Some by (auto simp: unique_names_def w(4) Contains_def Len_def)
  qed
qed

text \<open>The part of the queue a producer relies on, and what follows from it for a batch.\<close>

fun enqueue_all ::
  "('q \<Rightarrow> NamespacedName \<Rightarrow> go_int \<Rightarrow> time \<Rightarrow> time \<Rightarrow> 'q option) \<Rightarrow> 'q \<Rightarrow> NamespacedName list \<Rightarrow> time \<Rightarrow> 'q option"
where
  "enqueue_all enq q [] t = Some q"
| "enqueue_all enq q (n # ns) t =
     (case enq q n 0 t t of None \<Rightarrow> None | Some q' \<Rightarrow> enqueue_all enq q' ns t)"

locale producer_queue =
  fixes qinv :: "'q \<Rightarrow> bool"
    and enq :: "'q \<Rightarrow> NamespacedName \<Rightarrow> go_int \<Rightarrow> time \<Rightarrow> time \<Rightarrow> 'q option"
    and has :: "'q \<Rightarrow> NamespacedName \<Rightarrow> bool"
    and size_of :: "'q \<Rightarrow> nat"
  assumes enq_law: "qinv q \<Longrightarrow> \<exists>q'. enq q nn pr t1 t2 = Some q' \<and> qinv q' \<and>
      (\<forall>m. has q' m \<longleftrightarrow> m = nn \<or> has q m) \<and>
      size_of q' = (if has q nn then size_of q else Suc (size_of q))"
begin

lemma enqueue_all_law:
  "qinv q \<Longrightarrow> \<exists>q'. enqueue_all enq q ns t = Some q' \<and> qinv q' \<and>
     (\<forall>m. has q' m \<longleftrightarrow> m \<in> set ns \<or> has q m) \<and>
     size_of q' = size_of q + card {n \<in> set ns. \<not> has q n}"
proof (induction ns arbitrary: q)
  case Nil
  then show ?case by simp
next
  case (Cons n ns)
  obtain q1 where q1: "enq q n 0 t t = Some q1" "qinv q1" "\<And>m. has q1 m \<longleftrightarrow> m = n \<or> has q m"
      "size_of q1 = (if has q n then size_of q else Suc (size_of q))"
    using enq_law [OF Cons.prems] by metis
  obtain q' where q': "enqueue_all enq q1 ns t = Some q'" "qinv q'"
      "\<And>m. has q' m \<longleftrightarrow> m \<in> set ns \<or> has q1 m"
      "size_of q' = size_of q1 + card {m \<in> set ns. \<not> has q1 m}"
    using Cons.IH [OF q1(2)] by metis
  have "{m \<in> set (n # ns). \<not> has q m} =
      (if has q n then {} else {n}) \<union> {m \<in> set ns. \<not> has q1 m}"
    using q1(3) by auto
  moreover have "n \<notin> {m \<in> set ns. \<not> has q1 m}" using q1(3) by simp
  ultimately have "card {m \<in> set (n # ns). \<not> has q m} =
      (if has q n then 0 else 1) + card {m \<in> set ns. \<not> has q1 m}"
    by simp
  then show ?case using q1 q' by auto
qed

end

interpretation wqp: producer_queue "\<lambda>wq. queue_inv wq held" Enqueue Contains Len for held
proof unfold_locales
  fix wq nn pr t1 t2 assume "queue_inv wq held"
  then show "\<exists>q'. Enqueue wq nn pr t1 t2 = Some q' \<and> queue_inv q' held \<and>
      (\<forall>m. Contains q' m = (m = nn \<or> Contains wq m)) \<and>
      Len q' = (if Contains wq nn then Len wq else Suc (Len wq))"
    using Enqueue_counts by blast
qed

text \<open>
  A batch of enqueues adds each name not yet queued exactly once, whatever the repetitions
  in the batch, and panics nowhere.
\<close>

lemma enqueue_batch_dedup:
  assumes "queue_inv wq held"
  shows "\<exists>wq'. enqueue_all Enqueue wq ns t = Some wq' \<and> queue_inv wq' held \<and>
    (\<forall>m. Contains wq' m \<longleftrightarrow> m \<in> set ns \<or> Contains wq m) \<and>
    Len wq' = Len wq + card {n \<in> set ns. \<not> Contains wq n}"
  using assms by (rule wqp.enqueue_all_law)

lemma enqueue_batch_dedup_witness:
  "\<exists>wq'. enqueue_all Enqueue NewWorkQueue [ex_n, ex_n] 1 = Some wq' \<and> queue_inv wq' {} \<and>
    (\<forall>m. Contains wq' m \<longleftrightarrow> m \<in> set [ex_n, ex_n] \<or> Contains NewWorkQueue m) \<and>
    Len wq' = Len NewWorkQueue + card {n \<in> set [ex_n, ex_n]. \<not> Contains NewWorkQueue n}"
  by (rule enqueue_batch_dedup [OF ex_inv(1)])

lemma Dequeue_unique:
  assumes inv: "queue_inv wq held" and deq: "Dequeue_pass wq now = Some (Dequeued p, wq')"
    and u: "unique_names wq"
  shows "unique_names wq' \<and> \<not> Contains wq' (item_NamespacedName (store wq p))"
proof -
  note c = Dequeued_cases [OF deq]
  obtain wq'' where w: "Dequeue_pass wq now = Some (Dequeued (items wq ! 0), wq'')"
      "queue_inv wq'' (insert (items wq ! 0) held)"
      "mset (items wq) = mset (items wq'') + {#items wq ! 0#}"
      "contents wq = contents wq'' + {#forget (store wq (items wq ! 0))#}"
      "itemsMap wq'' = (itemsMap wq)(item_NamespacedName (store wq (items wq ! 0)) := None)"
      "\<forall>q. same_item (store wq'' q) (store wq q)" "next_ptr wq'' = next_ptr wq"
    by (rule Dequeue_item [OF inv c(1,2) c(4) [unfolded c(3)]])
  have eq: "wq'' = wq'" "items wq ! 0 = p" using w(1) deq by simp_all
  note w = w [unfolded eq]
  have pn: "p \<notin> set (items wq')" using queue_invD(5) [OF w(2), of p] by simp
  have "unique_names wq'"
    unfolding unique_names_def
  proof
    fix q assume q: "q \<in> set (items wq')"
    then have qi: "q \<in> set (items wq)" "p \<in> set (items wq)" using set_items_add [OF w(3)] by auto
    have "item_NamespacedName (store wq q) \<noteq> item_NamespacedName (store wq p)"
      using inj_onD [OF unique_names_inj [OF u], of q p] qi pn q by auto
    then show "itemsMap wq' (item_NamespacedName (store wq' q)) = Some q"
      using u qi(1) same_item_fields(1) [OF w(6) [rule_format, of q]]
      by (simp add: w(5) unique_names_def)
  qed
  then show ?thesis by (simp add: Contains_def w(5))
qed

lemma unique_Requeue:
  assumes inv: "queue_inv wq held" and u: "unique_names wq" and p: "p \<in> held"
    and free: "\<not> Contains wq (item_NamespacedName (store wq p))"
  shows "unique_names (Requeue wq p now)"
proof (cases "gives_up wq (store wq p)")
  case True
  have "q \<noteq> p" if "q \<in> set (items wq)" for q
    using that queue_invD(5) [OF inv p] by auto
  then show ?thesis using u Requeue_gives_up [OF True, where now = now] by (simp add: unique_names_def)
next
  case False
  note r = Requeue_push [OF inv p False refl refl, where now = now]
  show ?thesis
    by (rule unique_pushed [OF u _ r(4-6) r(3)]) (use free in \<open>auto simp: Contains_def retried_def\<close>)
qed

text \<open>
  C35: Names stay unique as long as a held item is requeued only while its name is not queued
  again: \<^verbatim>\<open>Enqueue\<close> and \<^verbatim>\<open>Dequeue\<close> keep uniqueness unconditionally, \<^verbatim>\<open>Requeue\<close> under that condition.
\<close>

theorem unique_names_preserved:
  assumes inv: "queue_inv wq held" and u: "unique_names wq"
    and step: "queue_step (wq, held) e (wq', held')"
    and re: "\<forall>p t. e = EvRequeue p t \<longrightarrow> \<not> Contains wq (item_NamespacedName (store wq p))"
  shows "unique_names wq'"
  using step
proof (cases rule: queue_step.cases)
  case (step_enqueue nn pr t1 t2)
  then show ?thesis using Enqueue_counts [OF inv, of nn pr t1 t2] u by auto
next
  case (step_dequeue now p)
  then show ?thesis using Dequeue_unique [OF inv _ u] by auto
next
  case (step_wait now out)
  then show ?thesis using queue_inv_Dequeue [OF inv, of now] u by (cases out) auto
next
  case (step_requeue p now)
  then show ?thesis using unique_Requeue [OF inv u] re by auto
next
  case (step_done p)
  then show ?thesis using u by (simp add: unique_names_def Done_def)
next
  case step_shutdown
  then show ?thesis using u by (simp add: unique_names_def Shutdown_def)
qed

theorem unique_names_preserved_witness: "unique_names ex_taken"
proof (rule unique_names_preserved [OF ex_inv(2) _ step_dequeue [OF ex_run(2)]])
  show "unique_names ex_queued" by code_simp
qed simp

text \<open>
  Uniqueness can be lost: when a worker gives back for retry an item whose name was enqueued
  again meanwhile, the name is queued twice and the map forgets the other item, so a later
  \<^verbatim>\<open>Dequeue\<close> of one of them makes \<^verbatim>\<open>Contains\<close> deny a name that is still queued.
\<close>

lemma Requeue_can_duplicate:
  assumes inv: "queue_inv wq held" and p: "p \<in> held" and ng: "\<not> gives_up wq (store wq p)"
    and c: "Contains wq (item_NamespacedName (store wq p))"
  shows "\<exists>q. q \<noteq> p \<and> {p, q} \<subseteq> set (items (Requeue wq p now)) \<and>
    item_NamespacedName (store (Requeue wq p now) q) = item_NamespacedName (store (Requeue wq p now) p) \<and>
    itemsMap (Requeue wq p now) (item_NamespacedName (store wq p)) = Some p \<and>
    \<not> unique_names (Requeue wq p now)"
proof -
  let ?w' = "Requeue wq p now" and ?n = "item_NamespacedName (store wq p)"
  note r = Requeue_push [OF inv p ng refl refl, where now = now]
  obtain q where q: "itemsMap wq ?n = Some q" using c by (auto simp: Contains_def)
  have qi: "q \<in> set (items wq)" and qn: "item_NamespacedName (store wq q) = ?n"
    using queue_invD(6,7) [OF inv q] by auto
  have ne: "q \<noteq> p" using qi queue_invD(5) [OF inv p] by auto
  have set: "set (items ?w') = insert p (set (items wq))" by (rule set_items_add [OF r(4)])
  have names: "item_NamespacedName (store ?w' q) = ?n" "item_NamespacedName (store ?w' p) = ?n"
    using same_item_fields(1) [OF r(5)] same_item_fields(1) [OF r(6) [OF ne]] qn by (auto simp: retried_def)
  have m: "itemsMap ?w' ?n = Some p" using r(3) by (simp add: retried_def)
  have "\<not> unique_names ?w'"
    using set qi names m ne by (auto simp: unique_names_def intro!: bexI [of _ q])
  then show ?thesis using ne set qi names m by auto
qed

lemma Requeue_can_duplicate_witness:
  "(\<exists>q. q \<noteq> 0 \<and> {0, q} \<subseteq> set (items (Requeue ex_again 0 4)) \<and>
    item_NamespacedName (store (Requeue ex_again 0 4) q) =
      item_NamespacedName (store (Requeue ex_again 0 4) 0) \<and>
    itemsMap (Requeue ex_again 0 4) (item_NamespacedName (store ex_again 0)) = Some 0 \<and>
    \<not> unique_names (Requeue ex_again 0 4)) \<and>
   queue_reach NewWorkQueue (ex_lost, {1}) \<and> \<not> Contains ex_lost ex_n \<and>
   map (\<lambda>p. item_NamespacedName (store ex_lost p)) (items ex_lost) = [ex_n]"
proof (intro conjI)
  show "\<exists>q. q \<noteq> 0 \<and> {0, q} \<subseteq> set (items (Requeue ex_again 0 4)) \<and>
      item_NamespacedName (store (Requeue ex_again 0 4) q) =
        item_NamespacedName (store (Requeue ex_again 0 4) 0) \<and>
      itemsMap (Requeue ex_again 0 4) (item_NamespacedName (store ex_again 0)) = Some 0 \<and>
      \<not> unique_names (Requeue ex_again 0 4)"
  proof (rule Requeue_can_duplicate [OF ex_inv(4)])
    show "\<not> gives_up ex_again (store ex_again 0)" by code_simp
    show "Contains ex_again (item_NamespacedName (store ex_again 0))" by code_simp
  qed simp
  show "queue_reach NewWorkQueue (ex_lost, {1})" by (rule ex_reach)
  show "\<not> Contains ex_lost ex_n" by code_simp
  show "map (\<lambda>p. item_NamespacedName (store ex_lost p)) (items ex_lost) = [ex_n]" by code_simp
qed

section \<open>Scheduling\<close>

text \<open>
  When all queued items have one priority, as in the operator, which enqueues everything at
  priority 0, \<^verbatim>\<open>Dequeue\<close> waits on its timer only if nothing is due, and it asks to be woken when
  the earliest item is.
\<close>

lemma Dequeue_waits_only_if_nothing_due:
  assumes inv: "queue_inv wq held" and deq: "Dequeue_pass wq now = Some (WaitTimer d, wq')"
    and prio: "\<forall>v \<in># contents wq. Priority v = pr"
  shows "wq' = wq \<and> (\<forall>v \<in># contents wq. now < ScheduledAt v) \<and>
    (\<exists>w \<in># contents wq. d = time_Sub (ScheduledAt w) now \<and>
       (\<forall>v \<in># contents wq. ScheduledAt w \<le> ScheduledAt v))"
proof -
  let ?p = "items wq ! 0"
  have c: "items wq \<noteq> []" "now < ScheduledAt (store wq ?p)" "wq' = wq"
      "d = time_Sub (ScheduledAt (store wq ?p)) now"
    using deq by (auto simp: Dequeue_pass_def Let_def split: if_splits option.splits)
  have p: "forget (store wq ?p) \<in># contents wq" using c(1) by (auto simp: contents_def)
  have le: "ScheduledAt (store wq ?p) \<le> ScheduledAt v" if v: "v \<in># contents wq" for v
  proof -
    obtain q where q: "q \<in> set (items wq)" "v = forget (store wq q)" using v by (auto simp: contents_def)
    have "Priority (store wq ?p) = Priority (store wq q)" using bspec [OF prio p] bspec [OF prio v] q(2) by simp
    then show ?thesis
      using heap_head_first [OF queue_invD(1) [OF inv] q(1)] q(2) by (simp add: served_first_def)
  qed
  show ?thesis
  proof (intro conjI ballI bexI [OF _ p])
    show "now < ScheduledAt v" if "v \<in># contents wq" for v using c(2) le [OF that] by simp
  qed (use c le in simp_all)
qed

lemma Dequeue_waits_only_if_nothing_due_witness:
  "Dequeue_pass ex_queued 0 = Some (WaitTimer 1, ex_queued) \<and> 0 < ScheduledAt (store ex_queued 0) \<and>
    1 = time_Sub (ScheduledAt (store ex_queued 0)) 0"
proof -
  have e: "items ex_queued = [0] \<and> \<not> shutdown ex_queued \<and> ScheduledAt (store ex_queued 0) = 1 \<and>
      Priority (store ex_queued 0) = 0"
    by code_simp
  then have c: "contents ex_queued = {#forget (store ex_queued 0)#}" by (simp add: contents_def)
  have d: "Dequeue_pass ex_queued 0 = Some (WaitTimer 1, ex_queued)"
    using e Dequeue_wait [of ex_queued 0] by (simp add: time_Sub_def)
  show ?thesis
    using Dequeue_waits_only_if_nothing_due [OF ex_inv(2) d, of 0] e by (simp add: c d)
qed

section \<open>Metrics\<close>

text \<open>The depth gauge is the number of queued items, the processing gauge the number held.\<close>

definition metrics_ok :: "WorkQueue \<Rightarrow> ptr set \<Rightarrow> bool" where
  "metrics_ok wq held \<longleftrightarrow> finite held \<and> currentDepth (metrics wq) = int (length (items wq)) \<and>
     processingItems (metrics wq) = wrap64 (int (card held))"

lemma Enqueue_metrics:
  assumes inv: "queue_inv wq held" and m: "metrics_ok wq held" and enq: "Enqueue wq nn pr t1 t2 = Some wq'"
  shows "metrics_ok wq' held"
proof (cases "itemsMap wq nn")
  case None
  then show ?thesis using m enq by (auto simp: Enqueue_def Let_def metrics_ok_def)
next
  case (Some p)
  then have "metrics wq' = metrics wq"
    using enq by (auto simp: Enqueue_def Let_def split: if_splits option.splits)
  moreover have "length (items wq') = length (items wq)"
    using Enqueue_counts [OF inv, of nn pr t1 t2] Some enq by (auto simp: Len_def Contains_def)
  ultimately show ?thesis using m by (simp add: metrics_ok_def)
qed

lemma Dequeue_metrics:
  assumes inv: "queue_inv wq held" and m: "metrics_ok wq held"
    and deq: "Dequeue_pass wq now = Some (Dequeued p, wq')"
  shows "metrics_ok wq' (insert p held)"
proof -
  note c = Dequeued_cases [OF deq]
  have "p \<in> set (items wq)" using c(2,3) by simp
  then have "p \<notin> held" using queue_invD(5) [OF inv, of p] by auto
  then have "int (card (insert p held)) = int (card held) + 1"
    using m by (simp add: metrics_ok_def)
  then show ?thesis
    using m deq by (auto simp: Dequeue_pass_def Let_def metrics_ok_def split: if_splits option.splits)
qed

lemma card_held_remove: "finite held \<Longrightarrow> p \<in> held \<Longrightarrow> int (card (held - {p})) = int (card held) - 1"
  using card_Suc_Diff1 [of held p] by linarith

text \<open>
  C34: The gauges stay exact over every operation but one: a \<^verbatim>\<open>Requeue\<close> that gives the item up.
\<close>

theorem metrics_exact:
  assumes inv: "queue_inv wq held" and m: "metrics_ok wq held"
    and step: "queue_step (wq, held) e (wq', held')"
    and ng: "\<forall>p t. e = EvRequeue p t \<longrightarrow> \<not> gives_up wq (store wq p)"
  shows "metrics_ok wq' held'"
  using step
proof (cases rule: queue_step.cases)
  case (step_enqueue nn pr t1 t2)
  then show ?thesis using Enqueue_metrics [OF inv m] by simp
next
  case (step_dequeue now p)
  then show ?thesis using Dequeue_metrics [OF inv m] by simp
next
  case (step_wait now out)
  then show ?thesis using queue_inv_Dequeue [OF inv, of now] m by (cases out) auto
next
  case (step_requeue p now)
  then have p: "p \<in> held" and e: "e = EvRequeue p now"
    and eq: "wq' = Requeue wq p now" "held' = held - {p}" by auto
  have "\<not> gives_up wq (store wq p)" using ng e by simp
  then have "currentDepth (metrics wq') = int (length (items wq'))"
      "processingItems (metrics wq') = wrap64 (processingItems (metrics wq) - 1)"
    by (auto simp: eq Requeue_def gives_up_def Let_def dec_processing_def)
  then show ?thesis using m p card_held_remove [of held p] by (simp add: metrics_ok_def eq)
next
  case (step_done p)
  then show ?thesis
    using m card_held_remove [of held p] by (auto simp: Done_def metrics_ok_def dec_processing_def)
next
  case step_shutdown
  then show ?thesis using m by (simp add: metrics_ok_def Shutdown_def)
qed

theorem metrics_exact_witness: "metrics_ok ex_twice {}"
proof -
  have "metrics_ok ex_twice ({0} - {0})"
  proof (rule metrics_exact [OF ex_inv(4)])
    have "currentDepth (metrics ex_again) = int (length (items ex_again)) \<and>
      processingItems (metrics ex_again) = wrap64 1"
    by code_simp
  then show "metrics_ok ex_again {0}" by (simp add: metrics_ok_def)
    show "queue_step (ex_again, {0}) (EvRequeue 0 4) (ex_twice, {0} - {0})"
      unfolding ex_twice_def by (rule step_requeue) simp
    have "\<not> gives_up ex_again (store ex_again 0)" by code_simp
    then show "\<forall>p t. EvRequeue 0 4 = EvRequeue p t \<longrightarrow> \<not> gives_up ex_again (store ex_again p)"
      by simp
  qed
  then show ?thesis by simp
qed

text \<open>
  The exception is real: a \<^verbatim>\<open>Requeue\<close> that gives up takes two off the processing gauge for one
  item, so the gauge goes wrong by one.
\<close>

lemma give_up_breaks_gauge:
  assumes m: "metrics_ok wq held" and p: "p \<in> held" and g: "gives_up wq (store wq p)"
    and small: "card held < 2 ^ 63"
  shows "processingItems (metrics (Requeue wq p now)) = int (card (held - {p})) - 1 \<and>
    \<not> metrics_ok (Requeue wq p now) (held - {p})"
proof -
  have fin: "finite held" and gauge: "processingItems (metrics wq) = wrap64 (int (card held))"
    using m by (auto simp: metrics_ok_def)
  have c: "int (card (held - {p})) = int (card held) - 1" using fin p by (rule card_held_remove)
  have "processingItems (metrics (Requeue wq p now)) = wrap64 (int (card held) - 2)"
    by (simp add: Requeue_gives_up(5) [OF g] gauge)
  also have "\<dots> = int (card held) - 2" using small by (intro wrap64_id) (simp add: in_i64_def)
  finally have e: "processingItems (metrics (Requeue wq p now)) = int (card (held - {p})) - 1"
    using c by simp
  moreover have "wrap64 (int (card (held - {p}))) = int (card (held - {p}))"
    using small c by (intro wrap64_id) (simp add: in_i64_def)
  ultimately show ?thesis by (simp add: metrics_ok_def)
qed

definition ex_last :: WorkQueue where
  "ex_last = snd (the (Dequeue_pass
     (the (Enqueue (NewWorkQueueWithConfig 0 Second Minute 1) ex_n 0 1 1)) 2))"

text \<open>The item of \<^const>\<open>ex_last\<close> after its first failure, taken again for the last cycle.\<close>

definition ex_cycle :: WorkQueue where
  "ex_cycle = snd (the (Dequeue_pass (Requeue ex_last 0 3) (4 + Minute)))"

lemma give_up_breaks_gauge_witness:
  "processingItems (metrics (Requeue ex_cycle 0 9)) = int (card ({0} - {0 :: ptr})) - 1 \<and>
    \<not> metrics_ok (Requeue ex_cycle 0 9) ({0} - {0})"
proof (rule give_up_breaks_gauge)
  have "currentDepth (metrics ex_cycle) = int (length (items ex_cycle)) \<and>
      processingItems (metrics ex_cycle) = wrap64 1"
    by code_simp
  then show "metrics_ok ex_cycle {0}" by (simp add: metrics_ok_def)
  show "gives_up ex_cycle (store ex_cycle 0)" by code_simp
qed simp_all

end
