(* ===== verification/Queue_Drain.thy ===== *)
theory Queue_Drain
  imports Queue_Behaviour
begin

text \<open>
  Emptying the queue: workers that keep taking items when everything queued is due get every
  item, in order of priority and schedule.
\<close>

text \<open>\<open>n\<close> successive dequeues at a time, with the items they return; \<open>None\<close> when one returns none.\<close>

fun drain :: "nat \<Rightarrow> WorkQueue \<Rightarrow> time \<Rightarrow> (WorkItem list \<times> WorkQueue) option" where
  "drain 0 wq now = Some ([], wq)"
| "drain (Suc n) wq now =
     (case Dequeue_pass wq now of
        Some (Dequeued p, wq') \<Rightarrow>
          map_option (\<lambda>(ws, wq''). (forget (store wq' p) # ws, wq'')) (drain n wq' now)
      | _ \<Rightarrow> None)"

lemma Dequeue_pass_shutdown:
  "Dequeue_pass wq now = Some (r, wq') \<Longrightarrow> shutdown wq' = shutdown wq"
  by (auto simp: Dequeue_pass_def Let_def split: if_splits option.splits)

lemma Dequeue_due:
  assumes inv: "queue_inv wq held" and "\<not> shutdown wq" and ne: "items wq \<noteq> []"
    and due: "\<forall>w \<in># contents wq. ScheduledAt w \<le> now"
  shows "\<exists>p wq'. Dequeue_pass wq now = Some (Dequeued p, wq') \<and> queue_inv wq' (insert p held) \<and>
    contents wq = add_mset (forget (store wq' p)) (contents wq') \<and>
    (\<forall>v \<in># contents wq. served_first (forget (store wq' p)) v) \<and> \<not> shutdown wq' \<and>
    length (items wq) = Suc (length (items wq'))"
proof -
  let ?p = "items wq ! 0"
  have "?p \<in> set (items wq)" using ne by simp
  then have "forget (store wq ?p) \<in># contents wq" by (auto simp: contents_def)
  then have d: "ScheduledAt (store wq ?p) \<le> now" using due by (auto simp: forget_def)
  show ?thesis
  proof (rule Dequeue_item [OF inv assms(2) ne d])
    fix wq'
    assume a: "Dequeue_pass wq now = Some (Dequeued ?p, wq')" "queue_inv wq' (insert ?p held)"
      "mset (items wq) = mset (items wq') + {#?p#}" "contents wq = contents wq' + {#forget (store wq ?p)#}"
      "\<forall>q. same_item (store wq' q) (store wq q)"
    have "forget (store wq' ?p) = forget (store wq ?p)" using a(5) by (simp add: same_item_forget)
    then show ?thesis
      using a contents_head_first [OF inv] Dequeue_pass_shutdown [OF a(1)] assms(2) length_items_add [OF a(3)]
      by auto
  qed
qed

lemma drain_all:
  assumes "queue_inv wq held" and "\<not> shutdown wq" and "\<forall>w \<in># contents wq. ScheduledAt w \<le> now"
  shows "\<exists>ws wq'. drain (length (items wq)) wq now = Some (ws, wq') \<and> mset ws = contents wq \<and>
    sorted_wrt served_first ws \<and> items wq' = []"
  using assms
proof (induction "length (items wq)" arbitrary: wq held)
  case 0
  then show ?case by (simp add: contents_def)
next
  case (Suc n)
  then have "items wq \<noteq> []" by auto
  then obtain p wq1 where 1: "Dequeue_pass wq now = Some (Dequeued p, wq1)" "queue_inv wq1 (insert p held)"
      "contents wq = add_mset (forget (store wq1 p)) (contents wq1)"
      "\<forall>v \<in># contents wq. served_first (forget (store wq1 p)) v" "\<not> shutdown wq1"
      "length (items wq) = Suc (length (items wq1))"
    using Dequeue_due [OF Suc.prems(1,2) _ Suc.prems(3)] by blast
  have "n = length (items wq1)" using Suc.hyps(2) 1(6) by simp
  moreover have "\<forall>w \<in># contents wq1. ScheduledAt w \<le> now" using Suc.prems(3) 1(3) by simp
  ultimately obtain ws wq2 where 2: "drain (length (items wq1)) wq1 now = Some (ws, wq2)"
      "mset ws = contents wq1" "sorted_wrt served_first ws" "items wq2 = []"
    using Suc.hyps(1) 1(2,5) by blast
  have "\<forall>v \<in> set ws. served_first (forget (store wq1 p)) v"
    using 1(3,4) 2(2) by (metis insert_iff set_mset_add_mset_insert set_mset_mset)
  then show ?case using 1 2 by auto
qed

text \<open>
  C11: Nothing stays behind and the order is right: when every queued item is due and the queue is not
  shut down, as many dequeues as there are items return all of them, each exactly once and
  unchanged, in order of priority and then of schedule, and leave the queue empty.
\<close>

theorem queue_drains_in_order:
  assumes "queue_reach (NewWorkQueueWithConfig r d M c) (wq, held)" and "\<not> shutdown wq"
    and "\<forall>w \<in># contents wq. ScheduledAt w \<le> now"
  shows "\<exists>ws wq'. drain (length (items wq)) wq now = Some (ws, wq') \<and> mset ws = contents wq \<and>
    sorted_wrt served_first ws \<and> items wq' = []"
  using queue_reach_inv [OF assms(1)] queue_inv_New drain_all [OF _ assms(2,3)] by simp

theorem queue_drains_in_order_witness:
  "\<exists>ws wq'. drain (length (items ex_twice)) ex_twice (2 * Minute) = Some (ws, wq') \<and>
    mset ws = contents ex_twice \<and> sorted_wrt served_first ws \<and> items wq' = []"
proof -
  have "list_all (\<lambda>p. ScheduledAt (store ex_twice p) \<le> 2 * Minute) (items ex_twice) \<and> \<not> shutdown ex_twice"
    by code_simp
  then have "\<forall>w \<in># contents ex_twice. ScheduledAt w \<le> 2 * Minute" "\<not> shutdown ex_twice"
    by (auto simp: contents_def list_all_iff forget_def)
  then show ?thesis
    using queue_drains_in_order [OF ex_reach(4) [unfolded NewWorkQueue_def]] by blast
qed

end
