(* ===== verification/Api_Types.thy ===== *)
theory Api_Types
  imports KT_Prelude "HOL-Library.Mapping"
begin

text \<open>
  The custom resources of \<^verbatim>\<open>api/kubetemplater.io/v1alpha1\<close>, the part of the object metadata the
  operator reads, and Go errors as values.
\<close>

section \<open>Errors\<close>

text \<open>
  An error keeps the reason that \<^verbatim>\<open>errors.IsNotFound\<close>, \<^verbatim>\<open>errors.IsConflict\<close> and
  \<^verbatim>\<open>errors.IsInvalid\<close> test (they look through wrapping) and its message.
\<close>

datatype status_reason = ReasonNotFound | ReasonConflict | ReasonInvalid | ReasonOther

datatype go_error = Err (err_reason: status_reason) (err_msg: string)

definition IsNotFound :: "go_error \<Rightarrow> bool" where
  "IsNotFound e \<longleftrightarrow> err_reason e = ReasonNotFound"

definition IsConflict :: "go_error \<Rightarrow> bool" where
  "IsConflict e \<longleftrightarrow> err_reason e = ReasonConflict"

definition IsInvalid :: "go_error \<Rightarrow> bool" where
  "IsInvalid e \<longleftrightarrow> err_reason e = ReasonInvalid"

text \<open>\<^verbatim>\<open>fmt.Errorf(msg)\<close>, and \<^verbatim>\<open>fmt.Errorf(prefix + "%w", err)\<close> which keeps the wrapped reason.\<close>

definition Errorf :: "string \<Rightarrow> go_error" where
  "Errorf msg = Err ReasonOther msg"

definition wrapf :: "string \<Rightarrow> go_error \<Rightarrow> go_error" where
  "wrapf prefix e = Err (err_reason e) (prefix @ err_msg e)"

lemma wrapf_reason [simp]:
  "IsNotFound (wrapf p e) = IsNotFound e" "IsConflict (wrapf p e) = IsConflict e"
  "IsInvalid (wrapf p e) = IsInvalid e"
  by (simp_all add: wrapf_def IsNotFound_def IsConflict_def IsInvalid_def)

section \<open>Printing integers\<close>

text \<open>The verb \<^verbatim>\<open>%d\<close> of \<^verbatim>\<open>fmt\<close>.\<close>

fun nat_digits :: "nat \<Rightarrow> string" where
  "nat_digits n =
     (if n < 10 then [char_of (48 + n)] else nat_digits (n div 10) @ [char_of (48 + n mod 10)])"

declare nat_digits.simps [simp del]

definition itoa :: "int \<Rightarrow> string" where
  "itoa i = (if i < 0 then CHR ''-'' # nat_digits (nat (- i)) else nat_digits (nat i))"

section \<open>Reading integers\<close>

text \<open>
  \<^verbatim>\<open>strconv.Atoi\<close> at 64 bits: an optional sign and decimal digits, \<open>None\<close> for a syntax or range error.
\<close>

fun read_digits :: "int \<Rightarrow> string \<Rightarrow> int option" where
  "read_digits acc [] = Some acc"
| "read_digits acc (c # cs) =
     (let d = (of_char c :: nat)
      in if 48 \<le> d \<and> d \<le> 57 then read_digits (acc * 10 + int (d - 48)) cs else None)"

definition Atoi :: "string \<Rightarrow> int option" where
  "Atoi s =
     (let (neg, ds) =
        (case s of
           [] \<Rightarrow> (False, [])
         | c # cs \<Rightarrow> if c = CHR ''-'' then (True, cs) else if c = CHR ''+'' then (False, cs) else (False, s))
      in if ds = [] then None
         else (case read_digits 0 ds of
            None \<Rightarrow> None
          | Some n \<Rightarrow> (let v = if neg then - n else n in if in_i64 v then Some v else None)))"

lemma read_digits_append: "read_digits a (xs @ ys) = Option.bind (read_digits a xs) (\<lambda>b. read_digits b ys)"
  by (induction xs arbitrary: a) (auto simp: Let_def)

lemma digit_of_char: "n < 10 \<Longrightarrow> of_char (char_of (48 + n :: nat) :: char) = 48 + n"
  by simp

lemma read_digit: "n < 10 \<Longrightarrow> read_digits a [char_of (48 + n)] = Some (a * 10 + int n)"
  using digit_of_char [of n] by (simp add: Let_def del: of_char_of)

lemma read_nat_digits: "\<exists>k. \<forall>a. read_digits a (nat_digits n) = Some (a * 10 ^ k + int n)"
proof (induction n rule: nat_digits.induct)
  case (1 n)
  show ?case
  proof (cases "n < 10")
    case True
    then show ?thesis
      by (intro exI [of _ 1]) (simp add: nat_digits.simps [of n] read_digit del: read_digits.simps)
  next
    case False
    then obtain k where "\<forall>a. read_digits a (nat_digits (n div 10)) = Some (a * 10 ^ k + int (n div 10))"
      using 1 by blast
    moreover have "int (n div 10) * 10 + int (n mod 10) = int n"
      by (simp add: zdiv_int zmod_int)
    ultimately show ?thesis
      using False by (intro exI [of _ "Suc k"])
        (simp add: nat_digits.simps [of n] read_digits_append read_digit distrib_right del: read_digits.simps)
  qed
qed

lemma nat_digits_Cons: "\<exists>c cs. nat_digits n = c # cs \<and> c \<noteq> CHR ''-'' \<and> c \<noteq> CHR ''+''"
proof (induction n rule: nat_digits.induct)
  case (1 n)
  have "char_of (48 + n) \<noteq> CHR ''-'' \<and> char_of (48 + n) \<noteq> CHR ''+''" if "n < 10"
    using digit_of_char [OF that] by (auto simp del: of_char_of)
  then show ?case using 1 by (auto simp: nat_digits.simps [of n])
qed

lemma itoa_nonempty [simp]: "itoa n \<noteq> []"
  using nat_digits_Cons [of "nat n"] by (auto simp: itoa_def)

lemma Atoi_itoa: "Atoi (itoa n) = (if in_i64 n then Some n else None)"
proof -
  obtain c cs where d: "nat_digits (nat \<bar>n\<bar>) = c # cs" "c \<noteq> CHR ''-''" "c \<noteq> CHR ''+''"
    using nat_digits_Cons by blast
  have r: "read_digits 0 (c # cs) = Some (int (nat \<bar>n\<bar>))"
    using read_nat_digits [of "nat \<bar>n\<bar>"] d(1) by fastforce
  show ?thesis using d r by (auto simp: Atoi_def itoa_def simp del: read_digits.simps)
qed

section \<open>Object metadata\<close>

type_synonym go_map = "(string, string) mapping"

record ObjectMeta =
  md_Name :: string
  md_Namespace :: string
  md_UID :: string
  md_ResourceVersion :: string
  md_Annotations :: go_map
  md_Labels :: go_map

definition meta_name :: "ObjectMeta \<Rightarrow> NamespacedName" where
  "meta_name md = \<lparr>Namespace = md_Namespace md, Name = md_Name md\<rparr>"

record GroupVersionKind =
  gvk_Group :: string
  gvk_Version :: string
  gvk_Kind :: string

section \<open>KubeTemplate\<close>

text \<open>\<open>tpl_Object\<close> is the raw bytes of the \<^verbatim>\<open>runtime.RawExtension\<close>.\<close>

record Template =
  tpl_Object :: string
  tpl_Replace :: bool
  tpl_Referenced :: bool

record KubeTemplateSpec =
  spec_Templates :: "Template list"

record KubeTemplateStatus =
  st_Status :: string
  st_ProcessingPhase :: string
  st_QueuedAt :: "time option"
  st_ProcessedAt :: "time option"
  st_RetryCount :: go_int
  st_RetryCycle :: go_int
  st_LastReconcileTime :: "time option"
  st_ResourcesTotal :: go_int
  st_ResourcesSynced :: go_int
  st_LastDriftDetected :: "time option"
  st_DriftDetectionCount :: go_int
  st_DryRunChecks :: go_int
  st_AppliedSpecHash :: string
  st_PausedReason :: string
  st_PausedAt :: "time option"

record KubeTemplate =
  kt_Meta :: ObjectMeta
  kt_Spec :: KubeTemplateSpec
  kt_Status :: KubeTemplateStatus

section \<open>KubeTemplatePolicy\<close>

datatype FieldValidationType =
    FieldValidationTypeCEL
  | FieldValidationTypeRegex
  | FieldValidationTypeRange
  | FieldValidationTypeRequired
  | FieldValidationTypeForbidden
  | FieldValidationTypeOther string

record FieldValidation =
  fv_Name :: string
  fv_FieldPath :: string
  fv_Type :: FieldValidationType
  fv_CEL :: string
  fv_Regex :: string
  fv_Min :: "int option"
  fv_Max :: "int option"
  fv_Required :: bool
  fv_Message :: string

record ValidationRule =
  rule_Kind :: string
  rule_Group :: string
  rule_Version :: string
  rule_Rule :: string
  rule_FieldValidations :: "FieldValidation list"
  rule_TargetNamespaces :: "string list"

record KubeTemplatePolicySpec =
  pol_SourceNamespace :: string
  pol_ValidationRules :: "ValidationRule list"

record KubeTemplatePolicyStatus =
  ps_Active :: bool
  ps_TemplatesUsing :: go_int
  ps_LastValidationTime :: "time option"
  ps_ValidationSuccesses :: go_int
  ps_ValidationFailures :: go_int

record KubeTemplatePolicy =
  pol_Meta :: ObjectMeta
  pol_Spec :: KubeTemplatePolicySpec
  pol_Status :: KubeTemplatePolicyStatus

section \<open>Zero values\<close>

definition zero_meta :: ObjectMeta where
  "zero_meta = \<lparr>md_Name = '''', md_Namespace = '''', md_UID = '''', md_ResourceVersion = '''',
     md_Annotations = Mapping.empty, md_Labels = Mapping.empty\<rparr>"

definition zero_status :: KubeTemplateStatus where
  "zero_status = \<lparr>st_Status = '''', st_ProcessingPhase = '''', st_QueuedAt = None,
     st_ProcessedAt = None, st_RetryCount = 0, st_RetryCycle = 0, st_LastReconcileTime = None,
     st_ResourcesTotal = 0, st_ResourcesSynced = 0, st_LastDriftDetected = None,
     st_DriftDetectionCount = 0, st_DryRunChecks = 0, st_AppliedSpecHash = '''',
     st_PausedReason = '''', st_PausedAt = None\<rparr>"

definition zero_template :: KubeTemplate where
  "zero_template = \<lparr>kt_Meta = zero_meta, kt_Spec = \<lparr>spec_Templates = []\<rparr>, kt_Status = zero_status\<rparr>"

definition zero_policy :: KubeTemplatePolicy where
  "zero_policy = \<lparr>pol_Meta = zero_meta,
     pol_Spec = \<lparr>pol_SourceNamespace = '''', pol_ValidationRules = []\<rparr>,
     pol_Status = \<lparr>ps_Active = False, ps_TemplatesUsing = 0, ps_LastValidationTime = None,
       ps_ValidationSuccesses = 0, ps_ValidationFailures = 0\<rparr>\<rparr>"

text \<open>Equality of metadata keys decides equality of names.\<close>

abbreviation kt_name :: "KubeTemplate \<Rightarrow> NamespacedName" where
  "kt_name kt \<equiv> meta_name (kt_Meta kt)"

lemma meta_name_sel [simp]:
  "Namespace (meta_name md) = md_Namespace md" "Name (meta_name md) = md_Name md"
  by (simp_all add: meta_name_def)

end
