(* ===== verification/Kube_Env.thy ===== *)
theory Kube_Env
  imports Api_Types "HOL-Library.State_Monad"
begin

text \<open>
  What the operator calls outside its own code: the API server through the controller-runtime
  client, the clock, \<^verbatim>\<open>unstructured.Unstructured\<close>, the YAML decoder, CEL and \<^verbatim>\<open>regexp\<close>. Each
  is a record of functions the components take as a parameter. Stateful code is a
  \<^typ>\<open>('s, 'a) state\<close> computation over a record that holds the outside world and the sequence
  of calls made to it.
\<close>

section \<open>Parameters\<close>

text \<open>A value of Go's \<^verbatim>\<open>interface{}\<close>, as far as the code compares it.\<close>

datatype 'v iface = INil | IString string | IValue 'v

text \<open>\<^verbatim>\<open>out.Value()\<close> of a CEL evaluation, as far as the code compares it.\<close>

datatype cel_out = OutBool bool | OutOther

datatype cel_type = TMapStringDyn | TDyn

datatype program_option = CostTracking | CostLimit int

datatype patch_option = FieldOwner string | ForceOwnership | DryRunAll

record OwnerReference =
  or_APIVersion :: string
  or_Kind :: string
  or_Name :: string
  or_UID :: string

record ('u, 'v) unstructured_api =
  u_Unmarshal :: "string \<Rightarrow> go_error + 'u"
  u_GetName :: "'u \<Rightarrow> string"
  u_GetNamespace :: "'u \<Rightarrow> string"
  u_SetNamespace :: "string \<Rightarrow> 'u \<Rightarrow> 'u"
  u_GroupVersionKind :: "'u \<Rightarrow> GroupVersionKind"
  u_GetLabels :: "'u \<Rightarrow> go_map option"
  u_SetLabels :: "go_map \<Rightarrow> 'u \<Rightarrow> 'u"
  u_GetOwnerReferences :: "'u \<Rightarrow> OwnerReference list"
  u_SetOwnerReferences :: "OwnerReference list \<Rightarrow> 'u \<Rightarrow> 'u"
  u_Object :: "'u \<Rightarrow> 'v iface"
  u_NestedFieldCopy :: "'u \<Rightarrow> string list \<Rightarrow> go_error + 'v iface option"
  u_NestedString :: "'u \<Rightarrow> string list \<Rightarrow> go_error + string option"
  u_NestedInt64 :: "'u \<Rightarrow> string list \<Rightarrow> go_error + int option"
  gvk_String :: "GroupVersionKind \<Rightarrow> string"

text \<open>\<open>'h\<close> stands for the opaque environments, syntax trees and programs of cel-go.\<close>

record ('h, 'v) cel_api =
  cel_NewEnv :: "string \<Rightarrow> cel_type \<Rightarrow> go_error + 'h"
  cel_Parse :: "'h \<Rightarrow> string \<Rightarrow> go_error + 'h"
  cel_Check :: "'h \<Rightarrow> 'h \<Rightarrow> go_error + 'h"
  cel_Program :: "'h \<Rightarrow> 'h \<Rightarrow> program_option list \<Rightarrow> go_error + 'h"
  cel_Eval :: "'h \<Rightarrow> string \<Rightarrow> 'v iface \<Rightarrow> go_error + cel_out"

record 're regexp_api =
  re_Compile :: "string \<Rightarrow> go_error + 're"
  re_MatchString :: "'re \<Rightarrow> string \<Rightarrow> bool"

text \<open>
  The calls that reach the world. A call that decodes into an object takes the object as it is
  and returns it as the call leaves it, also when it fails.
\<close>

record ('w, 'u, 'v, 'h) world_api =
  w_Now :: "'w \<Rightarrow> time \<times> 'w"
  w_GetTemplate :: "NamespacedName \<Rightarrow> KubeTemplate \<Rightarrow> 'w \<Rightarrow> (go_error option \<times> KubeTemplate) \<times> 'w"
  w_StatusUpdate :: "KubeTemplate \<Rightarrow> 'w \<Rightarrow> (go_error option \<times> KubeTemplate) \<times> 'w"
  w_GetPolicy :: "NamespacedName \<Rightarrow> KubeTemplatePolicy \<Rightarrow> 'w \<Rightarrow> (go_error option \<times> KubeTemplatePolicy) \<times> 'w"
  w_ListPolicies :: "string \<Rightarrow> string \<Rightarrow> 'w \<Rightarrow> (go_error + KubeTemplatePolicy list) \<times> 'w"
  w_GetObject :: "GroupVersionKind \<Rightarrow> NamespacedName \<Rightarrow> 'w \<Rightarrow> (go_error + 'u) \<times> 'w"
  w_Patch :: "patch_option list \<Rightarrow> 'u \<Rightarrow> 'w \<Rightarrow> (go_error option \<times> 'u) \<times> 'w"
  w_Delete :: "'u \<Rightarrow> 'w \<Rightarrow> go_error option \<times> 'w"
  w_ContextEval :: "duration \<Rightarrow> 'h \<Rightarrow> string \<Rightarrow> 'v iface \<Rightarrow> 'w \<Rightarrow> (go_error + cel_out) \<times> 'w"

section \<open>World state and calls\<close>

text \<open>Every call is recorded with its arguments and its outcome; reading the clock is not.\<close>

datatype 'u call =
    CGetTemplate NamespacedName "go_error option"
  | CStatusUpdate KubeTemplate "go_error option"
  | CGetPolicy NamespacedName "go_error option"
  | CListPolicies string string
  | CGetObject GroupVersionKind NamespacedName
  | CPatch "patch_option list" 'u "go_error option"
  | CDelete 'u "go_error option"
  | CEvent NamespacedName string string

record ('w, 'c) kube =
  world :: 'w
  trace :: "'c list"

definition do_call ::
  "('r \<Rightarrow> 'c option) \<Rightarrow> ('w \<Rightarrow> 'r \<times> 'w) \<Rightarrow> (('w, 'c, 'x) kube_scheme, 'r) state" where
  "do_call tag f = State (\<lambda>s. case f (world s) of (r, w) \<Rightarrow>
     (r, s\<lparr>world := w, trace := trace s @ (case tag r of None \<Rightarrow> [] | Some c \<Rightarrow> [c])\<rparr>))"

definition time_Now where
  "time_Now W = do_call (\<lambda>_. None) (w_Now W)"

definition client_GetTemplate where
  "client_GetTemplate W nn kt = do_call (\<lambda>r. Some (CGetTemplate nn (fst r))) (w_GetTemplate W nn kt)"

definition client_StatusUpdate where
  "client_StatusUpdate W kt = do_call (\<lambda>r. Some (CStatusUpdate kt (fst r))) (w_StatusUpdate W kt)"

definition client_GetPolicy where
  "client_GetPolicy W nn pol = do_call (\<lambda>r. Some (CGetPolicy nn (fst r))) (w_GetPolicy W nn pol)"

definition client_ListPolicies where
  "client_ListPolicies W opNs srcNs =
     do_call (\<lambda>_. Some (CListPolicies opNs srcNs)) (w_ListPolicies W opNs srcNs)"

definition client_GetObject where
  "client_GetObject W gvk nn = do_call (\<lambda>_. Some (CGetObject gvk nn)) (w_GetObject W gvk nn)"

definition client_Patch where
  "client_Patch W opts u = do_call (\<lambda>r. Some (CPatch opts u (fst r))) (w_Patch W opts u)"

definition client_Delete where
  "client_Delete W u = do_call (\<lambda>r. Some (CDelete u r)) (w_Delete W u)"

definition cel_ContextEval where
  "cel_ContextEval W tmo prg var val = do_call (\<lambda>_. None) (w_ContextEval W tmo prg var val)"

definition recorder_Event where
  "recorder_Event nn reason msg = do_call (\<lambda>_. Some (CEvent nn reason msg)) (\<lambda>w. ((), w))"

lemmas client_defs = time_Now_def client_GetTemplate_def client_StatusUpdate_def
  client_GetPolicy_def client_ListPolicies_def client_GetObject_def client_Patch_def
  client_Delete_def cel_ContextEval_def recorder_Event_def

lemma run_do_call:
  "run_state (do_call tag f) s =
     (fst (f (world s)),
      s\<lparr>world := snd (f (world s)),
        trace := trace s @ (case tag (fst (f (world s))) of None \<Rightarrow> [] | Some c \<Rightarrow> [c])\<rparr>)"
  by (simp add: do_call_def split: prod.split)

section \<open>Reasoning about calls and results\<close>

text \<open>
  \<open>emits I \<Phi> R m\<close>: from a state satisfying \<open>I\<close>, \<open>m\<close> only appends calls satisfying \<open>\<Phi>\<close> to the trace,
  returns a value satisfying \<open>R\<close> and ends in a state satisfying \<open>I\<close>. \<open>keeps I R m\<close> is the same
  without the calls.
\<close>

named_theorems emits_rules \<open>compositional rules for the calls of a computation\<close>
named_theorems keeps_rules \<open>compositional rules for state invariants\<close>

definition keeps :: "('s \<Rightarrow> bool) \<Rightarrow> ('a \<Rightarrow> bool) \<Rightarrow> ('s, 'a) state \<Rightarrow> bool" where
  "keeps I R m \<longleftrightarrow> (\<forall>s. I s \<longrightarrow> I (snd (run_state m s)) \<and> R (fst (run_state m s)))"

definition emits ::
  "(('w, 'c, 'x) kube_scheme \<Rightarrow> bool) \<Rightarrow> ('c \<Rightarrow> bool) \<Rightarrow> ('a \<Rightarrow> bool) \<Rightarrow>
   (('w, 'c, 'x) kube_scheme, 'a) state \<Rightarrow> bool" where
  "emits I \<Phi> R m \<longleftrightarrow> keeps I R m \<and>
     (\<forall>s. I s \<longrightarrow> (\<exists>cs. trace (snd (run_state m s)) = trace s @ cs \<and> (\<forall>c \<in> set cs. \<Phi> c)))"

text \<open>An invariant that does not look at the world and at the trace.\<close>

definition world_free :: "(('w, 'c, 'x) kube_scheme \<Rightarrow> bool) \<Rightarrow> bool" where
  "world_free I \<longleftrightarrow> (\<forall>s w t. I s \<longrightarrow> I (s\<lparr>world := w, trace := t\<rparr>))"

lemma keeps_return [keeps_rules]: "R a \<Longrightarrow> keeps I R (State_Monad.return a)"
  by (simp add: keeps_def)

lemma keeps_bind:
  "keeps I R m \<Longrightarrow> (\<And>a. R a \<Longrightarrow> keeps I R' (f a)) \<Longrightarrow> keeps I R' (m \<bind> f)"
  by (fastforce simp: keeps_def split: prod.split)

lemma keeps_bind_any [keeps_rules]:
  "keeps I (\<lambda>_. True) m \<Longrightarrow> (\<And>a. keeps I R' (f a)) \<Longrightarrow> keeps I R' (m \<bind> f)"
  by (rule keeps_bind)

lemma keeps_run:
  assumes "keeps I R m" and "I s"
  shows "I (snd (run_state m s))" and "R (fst (run_state m s))"
  using assms by (auto simp: keeps_def)

lemma keeps_split [keeps_rules]:
  "(b \<Longrightarrow> keeps I R m) \<Longrightarrow> (\<not> b \<Longrightarrow> keeps I R n) \<Longrightarrow> keeps I R (if b then m else n)"
  "(o1 = None \<Longrightarrow> keeps I R m) \<Longrightarrow> (\<And>x. o1 = Some x \<Longrightarrow> keeps I R (f x)) \<Longrightarrow>
     keeps I R (case o1 of None \<Rightarrow> m | Some x \<Rightarrow> f x)"
  "(\<And>e. e1 = Inl e \<Longrightarrow> keeps I R (g e)) \<Longrightarrow> (\<And>x. e1 = Inr x \<Longrightarrow> keeps I R (h x)) \<Longrightarrow>
     keeps I R (case e1 of Inl e \<Rightarrow> g e | Inr x \<Rightarrow> h x)"
  "(\<And>x y. p1 = (x, y) \<Longrightarrow> keeps I R (k x y)) \<Longrightarrow> keeps I R (case p1 of (x, y) \<Rightarrow> k x y)"
  by (simp_all split: option.split sum.split prod.split)

lemma keeps_call:
  assumes "\<And>s w t. I s \<Longrightarrow> I (s\<lparr>world := w, trace := t\<rparr>)" and "\<And>w. R (fst (f w))"
  shows "keeps I R (do_call tag f)"
  using assms by (auto simp: keeps_def run_do_call)

lemma keeps_weaken: "keeps I R m \<Longrightarrow> (\<And>a. R a \<Longrightarrow> R' a) \<Longrightarrow> keeps I R' m"
  by (auto simp: keeps_def)

lemma keeps_get [keeps_rules]: "keeps I (\<lambda>_. True) State_Monad.get"
  by (simp add: keeps_def)

lemma emits_return [emits_rules]: "R a \<Longrightarrow> emits I \<Phi> R (State_Monad.return a)"
  by (simp add: emits_def keeps_def)

lemma emits_bind:
  assumes m: "emits I \<Phi> R m" and f: "\<And>a. R a \<Longrightarrow> emits I \<Phi> R' (f a)"
  shows "emits I \<Phi> R' (m \<bind> f)"
  unfolding emits_def
proof (intro conjI allI impI)
  show "keeps I R' (m \<bind> f)" using m f by (auto simp: emits_def intro: keeps_bind)
  fix s assume s: "I s"
  obtain a s1 where 1: "run_state m s = (a, s1)" by force
  have "I s1" "R a" using m s 1 by (auto simp: emits_def keeps_def dest: spec [of _ s])
  obtain cs where cs: "trace s1 = trace s @ cs" "\<forall>c \<in> set cs. \<Phi> c"
    using m s 1 by (auto simp: emits_def dest: spec [of _ s])
  obtain ds where "trace (snd (run_state (f a) s1)) = trace s1 @ ds" "\<forall>c \<in> set ds. \<Phi> c"
    using f [OF \<open>R a\<close>] \<open>I s1\<close> by (auto simp: emits_def)
  then show "\<exists>cs. trace (snd (run_state (m \<bind> f) s)) = trace s @ cs \<and> (\<forall>c \<in> set cs. \<Phi> c)"
    using 1 cs by (intro exI [of _ "cs @ ds"]) auto
qed

lemma emits_bind_any [emits_rules]:
  "emits I \<Phi> (\<lambda>_. True) m \<Longrightarrow> (\<And>a. emits I \<Phi> R' (f a)) \<Longrightarrow> emits I \<Phi> R' (m \<bind> f)"
  by (rule emits_bind)

lemma emits_call:
  assumes "world_free I" and "\<And>w. R (fst (f w))" and "\<And>w c. tag (fst (f w)) = Some c \<Longrightarrow> \<Phi> c"
  shows "emits I \<Phi> R (do_call tag f)"
  using assms by (auto simp: emits_def keeps_def world_free_def run_do_call split: option.split)

lemma emits_weaken:
  assumes "emits I \<Phi> R m" and "\<And>c. \<Phi> c \<Longrightarrow> \<Phi>' c" and "\<And>a. R a \<Longrightarrow> R' a"
  shows "emits I \<Phi>' R' m"
  using assms unfolding emits_def keeps_def by meson

lemma emits_split [emits_rules]:
  "(b \<Longrightarrow> emits I \<Phi> R m) \<Longrightarrow> (\<not> b \<Longrightarrow> emits I \<Phi> R n) \<Longrightarrow> emits I \<Phi> R (if b then m else n)"
  "(o1 = None \<Longrightarrow> emits I \<Phi> R m) \<Longrightarrow> (\<And>x. o1 = Some x \<Longrightarrow> emits I \<Phi> R (f x)) \<Longrightarrow>
     emits I \<Phi> R (case o1 of None \<Rightarrow> m | Some x \<Rightarrow> f x)"
  "(\<And>e. e1 = Inl e \<Longrightarrow> emits I \<Phi> R (g e)) \<Longrightarrow> (\<And>x. e1 = Inr x \<Longrightarrow> emits I \<Phi> R (h x)) \<Longrightarrow>
     emits I \<Phi> R (case e1 of Inl e \<Rightarrow> g e | Inr x \<Rightarrow> h x)"
  "(\<And>x y. p1 = (x, y) \<Longrightarrow> emits I \<Phi> R (k x y)) \<Longrightarrow> emits I \<Phi> R (case p1 of (x, y) \<Rightarrow> k x y)"
  by (simp_all split: option.split sum.split prod.split)

lemma emits_get [emits_rules]: "emits I \<Phi> (\<lambda>_. True) State_Monad.get"
  by (simp add: emits_def keeps_def)

lemma emits_now [emits_rules]: "world_free I \<Longrightarrow> emits I \<Phi> (\<lambda>_. True) (time_Now W)"
  by (auto simp: time_Now_def intro: emits_call)

text \<open>The calls of a run that starts with an empty trace.\<close>

lemma emits_run:
  assumes "emits I \<Phi> R m" and "I s" and "trace s = []"
  shows "\<forall>c \<in> set (trace (snd (run_state m s))). \<Phi> c" and "R (fst (run_state m s))"
proof -
  obtain cs where "trace (snd (run_state m s)) = trace s @ cs" "\<forall>c \<in> set cs. \<Phi> c"
    using assms(1,2) unfolding emits_def by blast
  then show "\<forall>c \<in> set (trace (snd (run_state m s))). \<Phi> c" using assms(3) by auto
  show "R (fst (run_state m s))" using assms(1,2) by (auto simp: emits_def keeps_def)
qed

section \<open>Exact calls\<close>

text \<open>
  \<open>yields Q m\<close>: whatever the outside answers, \<open>m\<close> returns a value \<open>a\<close> and appends calls \<open>cs\<close> to the
  trace such that \<open>Q a cs\<close>. The rules run a computation backwards from its postcondition.
\<close>

named_theorems yields_rules \<open>backward rules for the result and the calls of a computation\<close>

definition yields :: "('a \<Rightarrow> 'c list \<Rightarrow> bool) \<Rightarrow> (('w, 'c, 'x) kube_scheme, 'a) state \<Rightarrow> bool" where
  "yields Q m \<longleftrightarrow> (\<forall>s. \<exists>cs. trace (snd (run_state m s)) = trace s @ cs \<and> Q (fst (run_state m s)) cs)"

lemma yieldsD:
  assumes "yields Q m" and "run_state m s = (a, s')"
  shows "\<exists>cs. trace s' = trace s @ cs \<and> Q a cs"
  using assms unfolding yields_def by (metis fst_conv snd_conv)

lemma yields_return [yields_rules]: "Q a [] \<Longrightarrow> yields Q (State_Monad.return a)"
  by (simp add: yields_def)

lemma yields_bind [yields_rules]:
  assumes "yields (\<lambda>a cs. yields (\<lambda>b ds. Q b (cs @ ds)) (f a)) m"
  shows "yields Q (m \<bind> f)"
  unfolding yields_def
proof
  fix s
  obtain a s1 where m: "run_state m s = (a, s1)" by (rule prod.exhaust)
  obtain cs where cs: "trace s1 = trace s @ cs" "yields (\<lambda>b ds. Q b (cs @ ds)) (f a)"
    using yieldsD [OF assms m] by blast
  obtain b s2 where f: "run_state (f a) s1 = (b, s2)" by (rule prod.exhaust)
  show "\<exists>cs. trace (snd (run_state (m \<bind> f) s)) = trace s @ cs \<and> Q (fst (run_state (m \<bind> f) s)) cs"
    using yieldsD [OF cs(2) f] m f cs(1) by auto
qed

lemma yields_call:
  assumes "\<And>w. Q (fst (f w)) (case tag (fst (f w)) of None \<Rightarrow> [] | Some c \<Rightarrow> [c])"
  shows "yields Q (do_call tag f)"
  using assms by (auto simp: yields_def run_do_call)

lemma yields_weaken: "yields P m \<Longrightarrow> (\<And>a cs. P a cs \<Longrightarrow> Q a cs) \<Longrightarrow> yields Q m"
  unfolding yields_def by blast

lemma yields_split [yields_rules]:
  "(b \<Longrightarrow> yields Q m) \<Longrightarrow> (\<not> b \<Longrightarrow> yields Q n) \<Longrightarrow> yields Q (if b then m else n)"
  "(o1 = None \<Longrightarrow> yields Q m) \<Longrightarrow> (\<And>x. o1 = Some x \<Longrightarrow> yields Q (f x)) \<Longrightarrow>
     yields Q (case o1 of None \<Rightarrow> m | Some x \<Rightarrow> f x)"
  "(\<And>e. e1 = Inl e \<Longrightarrow> yields Q (g e)) \<Longrightarrow> (\<And>x. e1 = Inr x \<Longrightarrow> yields Q (h x)) \<Longrightarrow>
     yields Q (case e1 of Inl e \<Rightarrow> g e | Inr x \<Rightarrow> h x)"
  "(\<And>x y. p1 = (x, y) \<Longrightarrow> yields Q (k x y)) \<Longrightarrow> yields Q (case p1 of (x, y) \<Rightarrow> k x y)"
  by (simp_all split: option.split sum.split prod.split)

end
