(* ===== verification/Example_World.thy ===== *)
theory Example_World
  imports Kube_Env "HOL-Library.AList_Mapping"
begin

text \<open>
  A small API server, object type and expression language that satisfy what the components
  assume of the outside. The witnesses run the model against it.
\<close>

record ex_obj =
  eo_gvk :: GroupVersionKind
  eo_namespace :: string
  eo_name :: string
  eo_labels :: "go_map option"
  eo_owners :: "OwnerReference list"
  eo_spec :: "string option"
  eo_data :: "string option"

record ex_world =
  ew_clock :: time
  ew_templates :: "KubeTemplate list"
  ew_policies :: "KubeTemplatePolicy list"
  ew_objects :: "ex_obj list"

section \<open>Objects\<close>

definition gvk_configmap :: GroupVersionKind where
  "gvk_configmap = \<lparr>gvk_Group = '''', gvk_Version = ''v1'', gvk_Kind = ''ConfigMap''\<rparr>"

definition gvk_secret :: GroupVersionKind where
  "gvk_secret = \<lparr>gvk_Group = '''', gvk_Version = ''v1'', gvk_Kind = ''Secret''\<rparr>"

definition ex_configmap :: ex_obj where
  "ex_configmap = \<lparr>eo_gvk = gvk_configmap, eo_namespace = '''', eo_name = ''settings'',
     eo_labels = None, eo_owners = [], eo_spec = None, eo_data = Some ''a=1''\<rparr>"

definition ex_secret :: ex_obj where
  "ex_secret = \<lparr>eo_gvk = gvk_secret, eo_namespace = ''kube-system'', eo_name = ''token'',
     eo_labels = None, eo_owners = [], eo_spec = None, eo_data = Some ''x''\<rparr>"

definition ex_field :: "ex_obj \<Rightarrow> string list \<Rightarrow> string option" where
  "ex_field u path =
     (if path = [''spec''] then eo_spec u else if path = [''data''] then eo_data u
      else if path = [''metadata'', ''name''] then Some (eo_name u) else None)"

definition ex_U :: "(ex_obj, string) unstructured_api" where
  "ex_U = \<lparr>
     u_Unmarshal = (\<lambda>raw. if raw = ''configmap'' then Inr ex_configmap
        else if raw = ''secret'' then Inr ex_secret else Inl (Errorf ''yaml'')),
     u_GetName = eo_name,
     u_GetNamespace = eo_namespace,
     u_SetNamespace = (\<lambda>ns u. u\<lparr>eo_namespace := ns\<rparr>),
     u_GroupVersionKind = eo_gvk,
     u_GetLabels = eo_labels,
     u_SetLabels = (\<lambda>l u. u\<lparr>eo_labels := Some l\<rparr>),
     u_GetOwnerReferences = eo_owners,
     u_SetOwnerReferences = (\<lambda>os u. u\<lparr>eo_owners := os\<rparr>),
     u_Object = (\<lambda>u. IValue (eo_name u)),
     u_NestedFieldCopy = (\<lambda>u path. Inr (map_option IString (ex_field u path))),
     u_NestedString = (\<lambda>u path. Inr (ex_field u path)),
     u_NestedInt64 = (\<lambda>u path. Inr (map_option (\<lambda>s. int (length s)) (ex_field u path))),
     gvk_String = (\<lambda>g. gvk_Group g @ ''/'' @ gvk_Version g @ '', Kind='' @ gvk_Kind g)\<rparr>"

text \<open>Expressions are \<^verbatim>\<open>true\<close> and \<^verbatim>\<open>false\<close>; anything else does not parse.\<close>

definition ex_cel :: "(string, string) cel_api" where
  "ex_cel = \<lparr>
     cel_NewEnv = (\<lambda>var ty. Inr var),
     cel_Parse = (\<lambda>env rule. if rule = ''true'' \<or> rule = ''false'' then Inr rule
        else Inl (Errorf ''syntax'')),
     cel_Check = (\<lambda>env ast. Inr ast),
     cel_Program = (\<lambda>env ast opts. Inr ast),
     cel_Eval = (\<lambda>prg var val. Inr (OutBool (prg = ''true'')))\<rparr>"

section \<open>The API server\<close>

definition same_object :: "ex_obj \<Rightarrow> ex_obj \<Rightarrow> bool" where
  "same_object u v \<longleftrightarrow> eo_gvk u = eo_gvk v \<and> eo_namespace u = eo_namespace v \<and> eo_name u = eo_name v"

definition not_found :: go_error where
  "not_found = Err ReasonNotFound ''not found''"

definition ex_W :: "(ex_world, ex_obj, string, string) world_api" where
  "ex_W = \<lparr>
     w_Now = (\<lambda>w. (ew_clock w, w\<lparr>ew_clock := ew_clock w + 1\<rparr>)),
     w_GetTemplate = (\<lambda>nn kt w.
        case List.find (\<lambda>t. kt_name t = nn) (ew_templates w) of
          None \<Rightarrow> ((Some not_found, kt), w) | Some t \<Rightarrow> ((None, t), w)),
     w_StatusUpdate = (\<lambda>kt w.
        ((None, kt), w\<lparr>ew_templates := map (\<lambda>t. if kt_name t = kt_name kt
           then t\<lparr>kt_Status := kt_Status kt\<rparr> else t) (ew_templates w)\<rparr>)),
     w_GetPolicy = (\<lambda>nn pol w.
        case List.find (\<lambda>p. meta_name (pol_Meta p) = nn) (ew_policies w) of
          None \<Rightarrow> ((Some not_found, pol), w) | Some p \<Rightarrow> ((None, p), w)),
     w_ListPolicies = (\<lambda>opNs ns w.
        (Inr (filter (\<lambda>p. md_Namespace (pol_Meta p) = opNs \<and> pol_SourceNamespace (pol_Spec p) = ns)
           (ew_policies w)), w)),
     w_GetObject = (\<lambda>gvk nn w.
        case List.find (\<lambda>u. eo_gvk u = gvk \<and> eo_namespace u = Namespace nn \<and> eo_name u = Name nn)
            (ew_objects w) of
          None \<Rightarrow> (Inl not_found, w) | Some u \<Rightarrow> (Inr u, w)),
     w_Patch = (\<lambda>opts u w. ((None, u),
        if DryRunAll \<in> set opts then w
        else w\<lparr>ew_objects := u # filter (\<lambda>v. \<not> same_object u v) (ew_objects w)\<rparr>)),
     w_Delete = (\<lambda>u w. (None, w\<lparr>ew_objects := filter (\<lambda>v. \<not> same_object u v) (ew_objects w)\<rparr>)),
     w_ContextEval = (\<lambda>tmo prg var val w. (cel_Eval ex_cel prg var val, w))\<rparr>"

section \<open>A cluster\<close>

definition ex_meta :: "string \<Rightarrow> string \<Rightarrow> ObjectMeta" where
  "ex_meta ns n = zero_meta\<lparr>md_Name := n, md_Namespace := ns, md_UID := n @ ''-uid''\<rparr>"

definition ex_rule :: ValidationRule where
  "ex_rule = \<lparr>rule_Kind = ''ConfigMap'', rule_Group = '''', rule_Version = ''v1'',
     rule_Rule = ''true'', rule_FieldValidations = [], rule_TargetNamespaces = [''team-a'']\<rparr>"

definition ex_policy :: "string \<Rightarrow> string \<Rightarrow> ValidationRule list \<Rightarrow> KubeTemplatePolicy" where
  "ex_policy ns src rules = zero_policy\<lparr>pol_Meta := ex_meta ns ''policy'',
     pol_Spec := \<lparr>pol_SourceNamespace = src, pol_ValidationRules = rules\<rparr>\<rparr>"

definition ex_tpl :: "string \<Rightarrow> Template" where
  "ex_tpl raw = \<lparr>tpl_Object = raw, tpl_Replace = False, tpl_Referenced = True\<rparr>"

definition ex_kt :: "string list \<Rightarrow> KubeTemplate" where
  "ex_kt raws = zero_template\<lparr>kt_Meta := ex_meta ''team-a'' ''web'',
     kt_Spec := \<lparr>spec_Templates = map ex_tpl raws\<rparr>\<rparr>"

definition ex_cluster :: "string list \<Rightarrow> ex_world" where
  "ex_cluster raws = \<lparr>ew_clock = 100, ew_templates = [ex_kt raws],
     ew_policies = [ex_policy ''ops'' ''team-a'' [ex_rule]], ew_objects = []\<rparr>"

end
