(* ===== verification/Policy_Cache.thy ===== *)
theory Policy_Cache
  imports Example_World
begin

text \<open>
  The policy cache of \<^verbatim>\<open>internal/cache/policy_cache.go\<close> and the two controllers that feed it
  (\<^verbatim>\<open>policy_cache_controller.go\<close>, \<^verbatim>\<open>kubetemplatepolicy_controller.go\<close>).
\<close>

section \<open>State\<close>

definition DefaultTTL :: duration where
  "DefaultTTL = 5 * Minute"

text \<open>A nil policy pointer (\<open>None\<close>) is a cached ``not found''.\<close>

record cacheEntry =
  ce_policy :: "KubeTemplatePolicy option"
  ce_expiresAt :: time

record PolicyCache =
  pc_entries :: "(string, cacheEntry) mapping"
  pc_ttl :: duration

record ('w, 'u) cached = "('w, 'u call) kube" +
  pcache :: PolicyCache

definition NewPolicyCache :: "duration \<Rightarrow> PolicyCache" where
  "NewPolicyCache ttl =
     \<lparr>pc_entries = Mapping.empty, pc_ttl = (if ttl = 0 then DefaultTTL else ttl)\<rparr>"

definition ex_start :: "(ex_world, ex_obj) cached" where
  "ex_start = \<lparr>world = ex_cluster [''configmap''], trace = [], pcache = NewPolicyCache Minute\<rparr>"

text \<open>The same cluster with the policy cached and then deleted.\<close>

definition ex_gone :: NamespacedName where
  "ex_gone = \<lparr>Namespace = ''ops'', Name = ''policy''\<rparr>"

section \<open>Operations\<close>

definition pc_modify :: "(PolicyCache \<Rightarrow> PolicyCache) \<Rightarrow> (('w, 'u, 'x) cached_scheme, unit) state" where
  "pc_modify f = do {
     s \<leftarrow> State_Monad.get;
     State_Monad.set (s\<lparr>pcache := f (pcache s)\<rparr>)
   }"

text \<open>The assignment \<^verbatim>\<open>c.entries[ns] = &cacheEntry{policy, time.Now().Add(c.ttl)}\<close>.\<close>

definition pc_put where
  "pc_put ns pol now c =
     c\<lparr>pc_entries := Mapping.update ns
        \<lparr>ce_policy = pol, ce_expiresAt = now + pc_ttl c\<rparr> (pc_entries c)\<rparr>"

definition pc_store where
  "pc_store W ns pol = do {
     now \<leftarrow> time_Now W;
     pc_modify (pc_put ns pol now)
   }"

definition no_policy_error :: "string \<Rightarrow> go_error" where
  "no_policy_error ns = Errorf (''no KubeTemplatePolicy found for source namespace '' @ ns)"

definition PolicyCache_refresh where
  "PolicyCache_refresh W sourceNamespace operatorNamespace = do {
     r \<leftarrow> client_ListPolicies W operatorNamespace sourceNamespace;
     case r of
       Inl err \<Rightarrow> State_Monad.return (Inl (wrapf ''failed to list KubeTemplatePolicies: '' err))
     | Inr items \<Rightarrow>
         if length items > 1
         then State_Monad.return
           (Inl (Errorf (''multiple KubeTemplatePolicies found for source namespace '' @ sourceNamespace)))
         else if length items = 0
         then do {
           pc_store W sourceNamespace None;
           State_Monad.return (Inl (no_policy_error sourceNamespace))
         }
         else do {
           pc_store W sourceNamespace (Some (items ! 0));
           State_Monad.return (Inr (items ! 0))
         }
   }"

definition PolicyCache_Get where
  "PolicyCache_Get W sourceNamespace operatorNamespace = do {
     s \<leftarrow> State_Monad.get;
     hit \<leftarrow> (case Mapping.lookup (pc_entries (pcache s)) sourceNamespace of
         None \<Rightarrow> State_Monad.return None
       | Some entry \<Rightarrow> do {
           now \<leftarrow> time_Now W;
           State_Monad.return (if now < ce_expiresAt entry then Some entry else None)
         });
     case hit of
       Some entry \<Rightarrow>
         (case ce_policy entry of
            None \<Rightarrow> State_Monad.return (Inl (no_policy_error sourceNamespace))
          | Some policy \<Rightarrow> State_Monad.return (Inr policy))
     | None \<Rightarrow> PolicyCache_refresh W sourceNamespace operatorNamespace
   }"

definition PolicyCache_Set where
  "PolicyCache_Set W sourceNamespace policy = pc_store W sourceNamespace policy"

definition PolicyCache_Delete where
  "PolicyCache_Delete sourceNamespace =
     pc_modify (\<lambda>c. c\<lparr>pc_entries := Mapping.delete sourceNamespace (pc_entries c)\<rparr>)"

definition PolicyCache_Clear where
  "PolicyCache_Clear = pc_modify (\<lambda>c. c\<lparr>pc_entries := Mapping.empty\<rparr>)"

definition PolicyCache_Size :: "PolicyCache \<Rightarrow> nat" where
  "PolicyCache_Size c = Mapping.size (pc_entries c)"

definition PolicyCache_Invalidate where
  "PolicyCache_Invalidate sourceNamespace =
     pc_modify (\<lambda>c. c\<lparr>pc_entries := Mapping.delete sourceNamespace (pc_entries c)\<rparr>)"

definition PolicyCache_Update where
  "PolicyCache_Update W policy = pc_store W (pol_SourceNamespace (pol_Spec policy)) (Some policy)"

section \<open>The controllers that feed the cache\<close>

record reconcile_result =
  res_RequeueAfter :: duration

definition result_zero :: reconcile_result where
  "result_zero = \<lparr>res_RequeueAfter = 0\<rparr>"

definition PolicyCacheReconciler_Reconcile where
  "PolicyCacheReconciler_Reconcile W req = do {
     r \<leftarrow> client_GetPolicy W req zero_policy;
     (case r of
       (Some err, policy) \<Rightarrow>
         if IsNotFound err
         then do {
           PolicyCache_Delete (pol_SourceNamespace (pol_Spec policy));
           State_Monad.return (result_zero, None)
         }
         else State_Monad.return (result_zero, Some err)
     | (None, policy) \<Rightarrow> do {
         PolicyCache_Set W (pol_SourceNamespace (pol_Spec policy)) (Some policy);
         State_Monad.return (result_zero, None)
       })
   }"

text \<open>\<open>hasCache\<close>: the field \<^verbatim>\<open>PolicyCache\<close> of the reconciler is not nil.\<close>

definition KubeTemplatePolicyReconciler_Reconcile where
  "KubeTemplatePolicyReconciler_Reconcile W hasCache req = do {
     r \<leftarrow> client_GetPolicy W req zero_policy;
     (case r of
       (Some err, policy) \<Rightarrow>
         if IsNotFound err
         then do {
           (if hasCache then PolicyCache_Clear else State_Monad.return ());
           State_Monad.return (result_zero, None)
         }
         else State_Monad.return (result_zero, Some err)
     | (None, policy) \<Rightarrow> do {
         (if hasCache then PolicyCache_Update W policy else State_Monad.return ());
         State_Monad.return (result_zero, None)
       })
   }"

definition ex_stale :: "(ex_world, ex_obj) cached" where
  "ex_stale = ex_start\<lparr>world := (ex_cluster [''configmap''])\<lparr>ew_policies := []\<rparr>,
     pcache := pc_put ''team-a'' (Some (ex_policy ''ops'' ''team-a'' [ex_rule])) 90 (NewPolicyCache Minute)\<rparr>"

section \<open>Runs\<close>

lemma run_pc_modify [simp]: "run_state (pc_modify f) s = ((), s\<lparr>pcache := f (pcache s)\<rparr>)"
  by (simp add: pc_modify_def)

lemma run_time_Now [simp]:
  "run_state (time_Now W) s = (fst (w_Now W (world s)), s\<lparr>world := snd (w_Now W (world s))\<rparr>)"
  by (simp add: time_Now_def run_do_call)

lemma run_pc_store:
  "run_state (pc_store W ns pol) s =
     ((), s\<lparr>world := snd (w_Now W (world s)),
            pcache := pc_put ns pol (fst (w_Now W (world s))) (pcache s)\<rparr>)"
  by (simp add: pc_store_def)

lemma lookup_put [simp]:
  "Mapping.lookup (pc_entries (pc_put ns pol now c)) m =
     (if m = ns then Some \<lparr>ce_policy = pol, ce_expiresAt = now + pc_ttl c\<rparr>
      else Mapping.lookup (pc_entries c) m)"
  by (simp add: pc_put_def Mapping.lookup_update')

lemma ttl_put [simp]: "pc_ttl (pc_put ns pol now c) = pc_ttl c"
  by (simp add: pc_put_def)

text \<open>An entry that \<^verbatim>\<open>Get\<close> serves when the clock reads \<open>now\<close>.\<close>

definition fresh_entry :: "PolicyCache \<Rightarrow> string \<Rightarrow> time \<Rightarrow> cacheEntry option" where
  "fresh_entry c ns now = (case Mapping.lookup (pc_entries c) ns of
     None \<Rightarrow> None | Some e \<Rightarrow> if now < ce_expiresAt e then Some e else None)"

lemma Get_hit:
  assumes "fresh_entry (pcache s) ns (fst (w_Now W (world s))) = Some e"
  shows "run_state (PolicyCache_Get W ns opNs) s =
    (case ce_policy e of None \<Rightarrow> Inl (no_policy_error ns) | Some p \<Rightarrow> Inr p,
     s\<lparr>world := snd (w_Now W (world s))\<rparr>)"
  using assms by (auto simp: PolicyCache_Get_def fresh_entry_def split: option.splits if_splits)

lemma Get_miss:
  assumes "fresh_entry (pcache s) ns (fst (w_Now W (world s))) = None"
  shows "run_state (PolicyCache_Get W ns opNs) s =
    run_state (PolicyCache_refresh W ns opNs)
      (if Mapping.lookup (pc_entries (pcache s)) ns = None then s
       else s\<lparr>world := snd (w_Now W (world s))\<rparr>)"
  using assms by (auto simp: PolicyCache_Get_def fresh_entry_def split: option.splits if_splits)

section \<open>Policies belong to the namespace they are served for\<close>

text \<open>
  What the field index of \<^verbatim>\<open>cmd/main.go\<close> and the list options promise: a list returns policies of
  the asked namespace whose source namespace is the asked one.
\<close>

definition list_ok :: "('w, 'u, 'v, 'h, 'z) world_api_scheme \<Rightarrow> bool" where
  "list_ok W \<longleftrightarrow> (\<forall>opNs ns w items. fst (w_ListPolicies W opNs ns w) = Inr items \<longrightarrow>
     (\<forall>p \<in> set items. pol_SourceNamespace (pol_Spec p) = ns \<and> md_Namespace (pol_Meta p) = opNs))"

definition cache_ok :: "PolicyCache \<Rightarrow> bool" where
  "cache_ok c \<longleftrightarrow> (\<forall>ns e p. Mapping.lookup (pc_entries c) ns = Some e \<longrightarrow> ce_policy e = Some p \<longrightarrow>
     pol_SourceNamespace (pol_Spec p) = ns)"

definition from_source :: "string \<Rightarrow> go_error + KubeTemplatePolicy \<Rightarrow> bool" where
  "from_source ns r \<longleftrightarrow> (\<forall>p. r = Inr p \<longrightarrow> pol_SourceNamespace (pol_Spec p) = ns)"

abbreviation source_inv ::
  "('w, 'u, 'v, 'h, 'z) world_api_scheme \<Rightarrow> ('w, 'u, 'x) cached_scheme \<Rightarrow> bool" where
  "source_inv W s \<equiv> list_ok W \<and> cache_ok (pcache s)"

lemma cache_ok_put:
  "cache_ok c \<Longrightarrow> (\<And>p. pol = Some p \<Longrightarrow> pol_SourceNamespace (pol_Spec p) = ns) \<Longrightarrow>
     cache_ok (pc_put ns pol now c)"
  by (auto simp: cache_ok_def)

lemma lookup_delete_if:
  "Mapping.lookup (Mapping.delete k m) x = (if x = k then None else Mapping.lookup m x)"
  by (cases "x = k") (simp_all add: Mapping.lookup_delete Mapping.lookup_delete_neq)

lemma cache_ok_remove:
  "cache_ok c \<Longrightarrow> cache_ok (c\<lparr>pc_entries := Mapping.delete ns (pc_entries c)\<rparr>)"
  "cache_ok (c\<lparr>pc_entries := Mapping.empty\<rparr>)" "cache_ok (NewPolicyCache ttl)"
  by (auto simp: cache_ok_def NewPolicyCache_def lookup_delete_if Mapping.lookup_empty split: if_splits)

lemma refresh_source:
  "keeps (source_inv W) (from_source ns) (PolicyCache_refresh W ns opNs)"
  unfolding keeps_def
proof (intro allI impI)
  fix s assume inv: "source_inv W s"
  obtain r w where r: "w_ListPolicies W opNs ns (world s) = (r, w)" by force
  show "source_inv W (snd (run_state (PolicyCache_refresh W ns opNs) s)) \<and>
      from_source ns (fst (run_state (PolicyCache_refresh W ns opNs) s))"
  proof (cases r)
    case (Inl e)
    then show ?thesis
      using inv r
      by (simp add: PolicyCache_refresh_def client_ListPolicies_def run_do_call from_source_def)
  next
    case (Inr items)
    have "pol_SourceNamespace (pol_Spec (items ! 0)) = ns" if "items \<noteq> []"
      using inv r Inr that unfolding list_ok_def by (metis fst_conv nth_mem length_greater_0_conv)
    then show ?thesis
      using inv r Inr
      by (auto simp: PolicyCache_refresh_def client_ListPolicies_def run_do_call from_source_def
          run_pc_store intro!: cache_ok_put)
  qed
qed

lemma Get_source: "keeps (source_inv W) (from_source ns) (PolicyCache_Get W ns opNs)"
  unfolding keeps_def
proof (intro allI impI)
  fix s assume inv: "source_inv W s"
  let ?now = "fst (w_Now W (world s))" and ?s = "s\<lparr>world := snd (w_Now W (world s))\<rparr>"
  note refresh = keeps_run [OF refresh_source]
  show "source_inv W (snd (run_state (PolicyCache_Get W ns opNs) s)) \<and>
      from_source ns (fst (run_state (PolicyCache_Get W ns opNs) s))"
  proof (cases "fresh_entry (pcache s) ns ?now")
    case (Some e)
    then show ?thesis
      using inv Get_hit [OF Some, of opNs]
      by (auto simp: from_source_def cache_ok_def fresh_entry_def split: option.splits if_splits)
  next
    case None
    then show ?thesis
      using refresh [OF inv, of ns opNs] refresh [of W ?s ns opNs] inv by (simp add: Get_miss)
  qed
qed

text \<open>
  The contract the webhook and the workers rely on: a source of policies that keeps its invariant
  and answers a namespace only with a policy for that namespace.
\<close>

locale policy_source =
  fixes lookup :: "string \<Rightarrow> ('s, go_error + KubeTemplatePolicy) state"
    and inv :: "'s \<Rightarrow> bool"
  assumes lookup_source: "keeps inv (from_source ns) (lookup ns)"
begin

lemma judged_by_own_policy:
  assumes "\<And>e. keeps inv R (onErr e)"
    and "\<And>p. pol_SourceNamespace (pol_Spec p) = ns \<Longrightarrow> keeps inv R (onPolicy p)"
  shows "keeps inv R (lookup ns \<bind> (\<lambda>r. case r of Inl e \<Rightarrow> onErr e | Inr p \<Rightarrow> onPolicy p))"
  using assms
  by (intro keeps_bind [OF lookup_source]) (auto simp: from_source_def split: sum.split)

end

interpretation cached_policies: policy_source "\<lambda>ns. PolicyCache_Get W ns opNs" "source_inv W" for W opNs
  by unfold_locales (rule Get_source)

lemma source_inv_world [simp]:
  "source_inv W (s\<lparr>world := w, trace := t\<rparr>) = source_inv W s" by simp

lemma pc_modify_keeps:
  "(\<And>c. cache_ok c \<Longrightarrow> cache_ok (f c)) \<Longrightarrow> keeps (source_inv W) (\<lambda>_. True) (pc_modify f)"
  by (simp add: keeps_def)

lemma pc_store_keeps:
  "(\<And>p. pol = Some p \<Longrightarrow> pol_SourceNamespace (pol_Spec p) = ns) \<Longrightarrow>
     keeps (source_inv W) (\<lambda>_. True) (pc_store W' ns pol)"
  by (auto simp: keeps_def run_pc_store intro: cache_ok_put)

lemma client_GetPolicy_keeps: "keeps (source_inv W) (\<lambda>_. True) (client_GetPolicy W' nn p)"
  by (auto simp: client_GetPolicy_def intro: keeps_call)

lemmas cache_keeps = keeps_rules client_GetPolicy_keeps pc_modify_keeps pc_store_keeps cache_ok_remove

lemma PolicyCacheReconciler_keeps:
  "keeps (source_inv W) (\<lambda>_. True) (PolicyCacheReconciler_Reconcile W req)"
  unfolding PolicyCacheReconciler_Reconcile_def PolicyCache_Delete_def PolicyCache_Set_def
  by (intro cache_keeps) (auto split: option.split intro!: cache_keeps)

lemma KubeTemplatePolicyReconciler_keeps:
  "keeps (source_inv W) (\<lambda>_. True) (KubeTemplatePolicyReconciler_Reconcile W hasCache req)"
  unfolding KubeTemplatePolicyReconciler_Reconcile_def PolicyCache_Clear_def PolicyCache_Update_def
  by (intro cache_keeps) (auto split: option.split intro!: cache_keeps)

text \<open>
  C19: A policy is only ever served for its own source namespace. Every operation of the cache and
  both policy controllers keep every cached policy under its source namespace, and \<^verbatim>\<open>Get\<close> returns
  only policies of the asked namespace, provided the API server's list honours the field selector.
\<close>

theorem policies_serve_own_namespace:
  fixes W :: "('w, 'u, 'v, 'h, 'z) world_api_scheme" and s :: "('w, 'u, 'x) cached_scheme"
  assumes "list_ok W" and "cache_ok (pcache s)"
  shows "(\<forall>p. fst (run_state (PolicyCache_Get W ns opNs) s) = Inr p \<longrightarrow>
      pol_SourceNamespace (pol_Spec p) = ns) \<and>
    cache_ok (pcache (snd (run_state (PolicyCache_Get W ns opNs) s))) \<and>
    cache_ok (pcache (snd (run_state (PolicyCache_Update W pol) s))) \<and>
    cache_ok (pcache (snd (run_state (PolicyCache_Delete ns) s))) \<and>
    cache_ok (pcache (snd (run_state (PolicyCache_Invalidate ns) s))) \<and>
    cache_ok (pcache (snd (run_state PolicyCache_Clear s))) \<and>
    cache_ok (pcache (snd (run_state (PolicyCacheReconciler_Reconcile W req) s))) \<and>
    cache_ok (pcache (snd (run_state (KubeTemplatePolicyReconciler_Reconcile W hasCache req) s)))"
  using assms keeps_run [OF Get_source, of W s ns opNs]
    keeps_run(1) [OF PolicyCacheReconciler_keeps, of W s req]
    keeps_run(1) [OF KubeTemplatePolicyReconciler_keeps, of W s hasCache req]
  by (auto simp: from_source_def PolicyCache_Update_def PolicyCache_Delete_def
      PolicyCache_Invalidate_def PolicyCache_Clear_def run_pc_store
      intro!: cache_ok_put cache_ok_remove)

theorem policies_serve_own_namespace_witness:
  "fst (run_state (PolicyCache_Get ex_W ''team-a'' ''ops'') ex_start) =
      Inr (ex_policy ''ops'' ''team-a'' [ex_rule]) \<and>
    pol_SourceNamespace (pol_Spec (ex_policy ''ops'' ''team-a'' [ex_rule])) = ''team-a''"
proof -
  have r: "fst (run_state (PolicyCache_Get ex_W ''team-a'' ''ops'') ex_start) =
      Inr (ex_policy ''ops'' ''team-a'' [ex_rule])"
    by code_simp
  have "list_ok ex_W" by (auto simp: list_ok_def ex_W_def)
  moreover have "cache_ok (pcache ex_start)" by (simp add: ex_start_def cache_ok_remove)
  ultimately show ?thesis
    using policies_serve_own_namespace [of ex_W ex_start "''team-a''" "''ops''"] r by blast
qed

section \<open>What an answer leaves behind\<close>

definition answer_left :: "string \<Rightarrow> go_error + KubeTemplatePolicy \<Rightarrow> PolicyCache \<Rightarrow> PolicyCache \<Rightarrow> bool" where
  "answer_left ns r c c' =
     (case r of
        Inr p \<Rightarrow> map_option ce_policy (Mapping.lookup (pc_entries c') ns) = Some (Some p)
      | Inl e \<Rightarrow>
          if e = no_policy_error ns
          then map_option ce_policy (Mapping.lookup (pc_entries c') ns) = Some None
          else c' = c)"

lemma refresh_answer:
  "answer_left ns (fst (run_state (PolicyCache_refresh W ns opNs) s)) (pcache s)
     (pcache (snd (run_state (PolicyCache_refresh W ns opNs) s))) \<and>
   trace (snd (run_state (PolicyCache_refresh W ns opNs) s)) = trace s @ [CListPolicies opNs ns]"
  by (simp add: PolicyCache_refresh_def client_ListPolicies_def run_do_call run_pc_store
      answer_left_def no_policy_error_def wrapf_def Errorf_def split: sum.split)

text \<open>
  After \<^verbatim>\<open>Get\<close> answered with a policy, that policy is the cached entry of the namespace. After it
  answered that there is none, the absence is cached. On every other error (the list failed, or
  found several policies) the cache is as it was. At most one list call is made, and no other.
\<close>

lemma Get_caches_answer:
  "answer_left ns (fst (run_state (PolicyCache_Get W ns opNs) s)) (pcache s)
     (pcache (snd (run_state (PolicyCache_Get W ns opNs) s))) \<and>
   trace (snd (run_state (PolicyCache_Get W ns opNs) s)) \<in>
     {trace s, trace s @ [CListPolicies opNs ns]}"
proof (cases "fresh_entry (pcache s) ns (fst (w_Now W (world s)))")
  case (Some e)
  then show ?thesis
    by (auto simp: Get_hit [OF Some] fresh_entry_def answer_left_def split: option.splits if_splits)
next
  case None
  then show ?thesis
    using refresh_answer [of ns W opNs s]
      refresh_answer [of ns W opNs "s\<lparr>world := snd (w_Now W (world s))\<rparr>"]
    by (simp add: Get_miss)
qed

lemma Get_trace:
  "trace (snd (run_state (PolicyCache_Get W ns opNs) s)) \<in>
     {trace s, trace s @ [CListPolicies opNs ns]}"
  using refresh_answer [of ns W opNs s]
    refresh_answer [of ns W opNs "s\<lparr>world := snd (w_Now W (world s))\<rparr>"]
  by (cases "fresh_entry (pcache s) ns (fst (w_Now W (world s)))") (auto simp: Get_hit Get_miss)

section \<open>History\<close>

text \<open>
  The writes to the cache as a sequence of events, and what a namespace was last written with.
\<close>

datatype cache_event = Stored string "KubeTemplatePolicy option" time | Dropped string | Cleared

primrec apply_event :: "cache_event \<Rightarrow> PolicyCache \<Rightarrow> PolicyCache" where
  "apply_event (Stored ns pol t) c = pc_put ns pol t c"
| "apply_event (Dropped ns) c = c\<lparr>pc_entries := Mapping.delete ns (pc_entries c)\<rparr>"
| "apply_event Cleared c = c\<lparr>pc_entries := Mapping.empty\<rparr>"

fun last_write :: "cache_event list \<Rightarrow> string \<Rightarrow> (KubeTemplatePolicy option \<times> time) option" where
  "last_write [] ns = None"
| "last_write (Stored m pol t # es) ns = (if m = ns then Some (pol, t) else last_write es ns)"
| "last_write (Dropped m # es) ns = (if m = ns then None else last_write es ns)"
| "last_write (Cleared # es) ns = None"

lemma events_lookup:
  "Mapping.lookup (pc_entries (foldr apply_event es (NewPolicyCache ttl))) ns =
     map_option (\<lambda>(pol, t). \<lparr>ce_policy = pol, ce_expiresAt = t + pc_ttl (NewPolicyCache ttl)\<rparr>)
       (last_write es ns) \<and>
   pc_ttl (foldr apply_event es (NewPolicyCache ttl)) = pc_ttl (NewPolicyCache ttl)"
proof (induction es)
  case Nil
  then show ?case by (simp add: NewPolicyCache_def)
next
  case (Cons e es)
  then show ?case by (cases e) (auto simp: lookup_delete_if)
qed

text \<open>
  C22: \<^verbatim>\<open>Get\<close> never serves anything but the last write of the namespace, and only while that write is
  younger than the time to live: for a cache built by any sequence of writes, deletions and clears
  (the latest first), \<^verbatim>\<open>Get\<close> answers from the cache exactly when the namespace was last written less
  than the time to live ago, with what was written; otherwise it lists.
\<close>

theorem Get_serves_last_write:
  assumes "pcache s = foldr apply_event es (NewPolicyCache ttl)"
  shows "run_state (PolicyCache_Get W ns opNs) s =
    (case last_write es ns of
       None \<Rightarrow> run_state (PolicyCache_refresh W ns opNs) s
     | Some (pol, t) \<Rightarrow>
         let now = fst (w_Now W (world s)); s1 = s\<lparr>world := snd (w_Now W (world s))\<rparr>
         in if now < t + (if ttl = 0 then DefaultTTL else ttl)
            then (case pol of None \<Rightarrow> Inl (no_policy_error ns) | Some p \<Rightarrow> Inr p, s1)
            else run_state (PolicyCache_refresh W ns opNs) s1)"
proof -
  let ?now = "fst (w_Now W (world s))"
  have l: "Mapping.lookup (pc_entries (pcache s)) ns =
      map_option (\<lambda>(pol, t). \<lparr>ce_policy = pol, ce_expiresAt = t + (if ttl = 0 then DefaultTTL else ttl)\<rparr>)
        (last_write es ns)"
    using events_lookup [of es ttl ns] assms by (simp add: NewPolicyCache_def)
  then show ?thesis
    by (cases "last_write es ns") (auto simp: PolicyCache_Get_def split: option.split)
qed

theorem Get_serves_last_write_witness:
  "run_state (PolicyCache_Get ex_W ''team-a'' ''ops'')
     (ex_start\<lparr>pcache := pc_put ''team-a'' None 90 (NewPolicyCache Minute)\<rparr>) =
   (Inl (no_policy_error ''team-a''),
    ex_start\<lparr>world := (ex_cluster [''configmap''])\<lparr>ew_clock := 101\<rparr>,
      pcache := pc_put ''team-a'' None 90 (NewPolicyCache Minute)\<rparr>)"
proof -
  have c: "w_Now ex_W (ex_cluster [''configmap'']) =
      (100, (ex_cluster [''configmap''])\<lparr>ew_clock := 101\<rparr>)"
    by (simp add: ex_W_def ex_cluster_def)
  show ?thesis
    using Get_serves_last_write
      [of "ex_start\<lparr>pcache := pc_put ''team-a'' None 90 (NewPolicyCache Minute)\<rparr>"
        "[Stored ''team-a'' None 90]" Minute ex_W "''team-a''" "''ops''"]
    by (simp add: ex_start_def c duration_defs)
qed

text \<open>Every operation writes the cache by at most one event.\<close>

definition by_event :: "PolicyCache \<Rightarrow> PolicyCache \<Rightarrow> bool" where
  "by_event c c' \<longleftrightarrow> c' = c \<or> (\<exists>e. c' = apply_event e c)"

lemma by_eventI:
  "by_event c c" "by_event c (pc_put ns pol t c)"
  "by_event c (c\<lparr>pc_entries := Mapping.delete ns (pc_entries c)\<rparr>)"
  "by_event c (c\<lparr>pc_entries := Mapping.empty\<rparr>)"
  unfolding by_event_def
  by (auto intro: exI [of _ "Stored ns pol t"] exI [of _ "Dropped ns"] exI [of _ Cleared])

lemma operations_are_events:
  "by_event (pcache s) (pcache (snd (run_state (PolicyCache_Get W ns opNs) s)))"
  "by_event (pcache s) (pcache (snd (run_state (PolicyCache_Set W ns pol) s)))"
  "by_event (pcache s) (pcache (snd (run_state (PolicyCacheReconciler_Reconcile W req) s)))"
  "by_event (pcache s) (pcache (snd (run_state (KubeTemplatePolicyReconciler_Reconcile W h req) s)))"
  by (auto simp: PolicyCache_Get_def PolicyCache_refresh_def PolicyCache_Set_def
      PolicyCacheReconciler_Reconcile_def KubeTemplatePolicyReconciler_Reconcile_def
      PolicyCache_Delete_def PolicyCache_Clear_def PolicyCache_Update_def client_ListPolicies_def
      client_GetPolicy_def run_do_call run_pc_store by_eventI split: option.split sum.split prod.split)

section \<open>The controllers\<close>

lemma run_policy_update:
  assumes "w_GetPolicy W req zero_policy (world s) = ((None, pol), w1)"
  shows "run_state (KubeTemplatePolicyReconciler_Reconcile W True req) s =
    ((result_zero, None),
     s\<lparr>world := snd (w_Now W w1), trace := trace s @ [CGetPolicy req None],
       pcache := pc_put (pol_SourceNamespace (pol_Spec pol)) (Some pol) (fst (w_Now W w1)) (pcache s)\<rparr>)"
  using assms
  by (simp add: KubeTemplatePolicyReconciler_Reconcile_def PolicyCache_Update_def
      client_GetPolicy_def run_do_call run_pc_store)

text \<open>
  C36: A policy becomes effective as soon as its controller sees it, in whatever namespace it lives:
  until the time to live is over, \<^verbatim>\<open>Get\<close> answers its source namespace with it and lists nothing, so the
  operator namespace that \<^verbatim>\<open>Get\<close> is asked to search plays no role.
\<close>

theorem any_namespace_policy_served:
  assumes "w_GetPolicy W req zero_policy (world s) = ((None, pol), w1)"
    and "s1 = snd (run_state (KubeTemplatePolicyReconciler_Reconcile W True req) s)"
    and "fst (w_Now W (world s1)) < fst (w_Now W w1) + pc_ttl (pcache s)"
  shows "fst (run_state (PolicyCache_Get W (pol_SourceNamespace (pol_Spec pol)) opNs) s1) = Inr pol \<and>
    trace (snd (run_state (PolicyCache_Get W (pol_SourceNamespace (pol_Spec pol)) opNs) s1)) = trace s1"
proof -
  let ?ns = "pol_SourceNamespace (pol_Spec pol)"
  have "fresh_entry (pcache s1) ?ns (fst (w_Now W (world s1))) =
      Some \<lparr>ce_policy = Some pol, ce_expiresAt = fst (w_Now W w1) + pc_ttl (pcache s)\<rparr>"
    using assms(3) unfolding assms(2) run_policy_update [OF assms(1)] by (simp add: fresh_entry_def)
  from Get_hit [OF this] show ?thesis by simp
qed

text \<open>A policy outside the operator namespace, which a list in that namespace does not return.\<close>

definition ex_foreign :: "(ex_world, ex_obj) cached" where
  "ex_foreign = ex_start\<lparr>world := (ex_cluster [''configmap''])
     \<lparr>ew_policies := [ex_policy ''team-a'' ''team-a'' [ex_rule]]\<rparr>\<rparr>"

theorem any_namespace_policy_served_witness:
  "fst (run_state (PolicyCache_Get ex_W ''team-a'' ''ops'')
      (snd (run_state (KubeTemplatePolicyReconciler_Reconcile ex_W True
         \<lparr>Namespace = ''team-a'', Name = ''policy''\<rparr>) ex_foreign))) =
     Inr (ex_policy ''team-a'' ''team-a'' [ex_rule]) \<and>
   fst (run_state (PolicyCache_Get ex_W ''team-a'' ''ops'') ex_foreign) =
     Inl (no_policy_error ''team-a'')"
proof
  let ?pol = "ex_policy ''team-a'' ''team-a'' [ex_rule]"
  have "w_GetPolicy ex_W \<lparr>Namespace = ''team-a'', Name = ''policy''\<rparr> zero_policy (world ex_foreign) =
      ((None, ?pol), world ex_foreign)"
    by (simp add: ex_W_def ex_foreign_def ex_policy_def ex_meta_def meta_name_def)
  from any_namespace_policy_served [OF this refl, of "''ops''"]
  show "fst (run_state (PolicyCache_Get ex_W ''team-a'' ''ops'')
      (snd (run_state (KubeTemplatePolicyReconciler_Reconcile ex_W True
         \<lparr>Namespace = ''team-a'', Name = ''policy''\<rparr>) ex_foreign))) = Inr ?pol"
    unfolding run_policy_update [OF \<open>w_GetPolicy ex_W _ _ _ = _\<close>]
    by (simp add: ex_W_def ex_foreign_def ex_start_def NewPolicyCache_def ex_cluster_def
        duration_defs ex_policy_def)
  show "fst (run_state (PolicyCache_Get ex_W ''team-a'' ''ops'') ex_foreign) =
      Inl (no_policy_error ''team-a'')"
    by code_simp
qed

text \<open>
  When a policy is deleted, \<^verbatim>\<open>KubeTemplatePolicyReconciler\<close> empties the cache. The other
  controller on the same events, \<^verbatim>\<open>PolicyCacheReconciler\<close>, deletes the entry of the empty namespace
  name instead of the policy's, so every entry of a real namespace survives it.
\<close>

lemma policy_deletion:
  assumes "w_GetPolicy W req zero_policy (world s) = ((Some err, zero_policy), w1)" and "IsNotFound err"
  shows "Mapping.lookup (pc_entries (pcache
      (snd (run_state (KubeTemplatePolicyReconciler_Reconcile W True req) s)))) ns = None \<and>
    (ns \<noteq> [] \<longrightarrow> Mapping.lookup (pc_entries (pcache
      (snd (run_state (PolicyCacheReconciler_Reconcile W req) s)))) ns =
        Mapping.lookup (pc_entries (pcache s)) ns)"
  using assms
  by (simp add: KubeTemplatePolicyReconciler_Reconcile_def PolicyCacheReconciler_Reconcile_def
      PolicyCache_Clear_def PolicyCache_Delete_def client_GetPolicy_def run_do_call zero_policy_def
      lookup_delete_if)

lemma policy_deletion_witness:
  "Mapping.lookup (pc_entries (pcache (snd (run_state
     (KubeTemplatePolicyReconciler_Reconcile ex_W True ex_gone) ex_stale)))) ''team-a'' = None \<and>
   Mapping.lookup (pc_entries (pcache (snd (run_state
     (PolicyCacheReconciler_Reconcile ex_W ex_gone) ex_stale)))) ''team-a'' \<noteq> None"
proof -
  have "w_GetPolicy ex_W ex_gone zero_policy (world ex_stale) =
      ((Some not_found, zero_policy), world ex_stale)"
    by (simp add: ex_W_def ex_stale_def ex_start_def ex_cluster_def ex_gone_def)
  from policy_deletion [OF this, of "''team-a''"] show ?thesis
    by (simp add: not_found_def IsNotFound_def ex_stale_def)
qed

end
