(* ===== verification/Queue_Retry.thy ===== *)
theory Queue_Retry
  imports Queue_Behaviour
begin

text \<open>
  Retry policy of the queue: the exponential backoff with its cap and its overflow, how the
  retry counters advance over a series of failures, and the duplicate a requeue can leave.
\<close>

section \<open>Backoff\<close>

lemma backoff_delay_eq:
  assumes "0 < InitialRetryDelay wq" and "InitialRetryDelay wq * 2 ^ 30 < 2 ^ 63"
    and "1 \<le> rc" and "in_i64 rc"
  shows "backoff_delay wq rc =
    min (MaxRetryDelay wq) (InitialRetryDelay wq * 2 ^ nat (min (rc - 1) 30))"
proof -
  define k where "k = min (rc - 1) 30"
  have k: "0 \<le> k" "k \<le> 30" using assms(3) by (auto simp: k_def)
  have cap: "(if wrap64 (rc - 1) > 30 then 30 else wrap64 (rc - 1)) = k"
    using assms(3,4) by (simp add: k_def in_i64_def wrap64_id)
  have pow: "(2::int) ^ nat k \<le> 2 ^ 30" using k by (intro power_increasing) auto
  have "InitialRetryDelay wq * 2 ^ nat k \<le> InitialRetryDelay wq * 2 ^ 30"
    using assms(1) pow by (intro mult_left_mono) auto
  moreover have "0 < InitialRetryDelay wq * 2 ^ nat k" using assms(1) by simp
  ultimately have "in_i64 (InitialRetryDelay wq * 2 ^ nat k)"
    using assms(2) by (auto simp: in_i64_def)
  then have "wrap64 (InitialRetryDelay wq * shl1 k) = InitialRetryDelay wq * 2 ^ nat k"
    using k by (simp add: shl1_small wrap64_id)
  then show ?thesis
    unfolding backoff_delay_def Let_def cap k_def [symmetric] by (simp add: min_def)
qed

text \<open>
  C33: As long as the initial delay times \<open>2 ^ 30\<close> fits in 64 bits, the delay before retry \<open>rc\<close> is
  the initial delay doubled \<open>rc - 1\<close> times (at most 30 times), cut at the maximum; it is
  positive, never above the maximum, and never decreases with the retry number.
\<close>

theorem backoff_exponential:
  assumes "0 < InitialRetryDelay wq" and "InitialRetryDelay wq * 2 ^ 30 < 2 ^ 63"
    and "0 < MaxRetryDelay wq" and "1 \<le> rc" and "rc \<le> rc'" and "in_i64 rc'"
  shows "backoff_delay wq rc =
      min (MaxRetryDelay wq) (InitialRetryDelay wq * 2 ^ nat (min (rc - 1) 30)) \<and>
    0 < backoff_delay wq rc \<and> backoff_delay wq rc \<le> MaxRetryDelay wq \<and>
    backoff_delay wq rc \<le> backoff_delay wq rc'"
proof -
  have i: "in_i64 rc" using assms(4-6) by (simp add: in_i64_def)
  note eq = backoff_delay_eq [OF assms(1,2,4) i]
  note eq' = backoff_delay_eq [OF assms(1,2) _ assms(6)]
  have "(2::int) ^ nat (min (rc - 1) 30) \<le> 2 ^ nat (min (rc' - 1) 30)"
    using assms(5) by (intro power_increasing) auto
  then have "InitialRetryDelay wq * 2 ^ nat (min (rc - 1) 30) \<le>
      InitialRetryDelay wq * 2 ^ nat (min (rc' - 1) 30)"
    using assms(1) by (intro mult_left_mono) auto
  then show ?thesis
    using assms(1,3-5) eq eq' by (auto simp: min_le_iff_disj)
qed

theorem backoff_exponential_witness:
  "backoff_delay NewWorkQueue 3 =
      min (MaxRetryDelay NewWorkQueue) (InitialRetryDelay NewWorkQueue * 2 ^ nat (min (3 - 1) 30)) \<and>
    0 < backoff_delay NewWorkQueue 3 \<and> backoff_delay NewWorkQueue 3 \<le> MaxRetryDelay NewWorkQueue \<and>
    backoff_delay NewWorkQueue 3 \<le> backoff_delay NewWorkQueue 5"
  by (rule backoff_exponential) (simp_all, code_simp+)

text \<open>
  The cap of 30 doublings does not prevent overflow: with an initial delay between 9 and 17
  seconds, from the 31st retry on the product wraps around to a negative delay, so the item is
  scheduled in the past and retried at once.
\<close>

lemma backoff_overflows:
  assumes "9 * Second \<le> InitialRetryDelay wq" and "InitialRetryDelay wq \<le> 17 * Second"
    and "0 \<le> MaxRetryDelay wq" and "31 \<le> rc" and "in_i64 rc"
  shows "backoff_delay wq rc < 0"
proof -
  let ?x = "InitialRetryDelay wq * 2 ^ 30"
  have cap: "(if wrap64 (rc - 1) > 30 then 30 else wrap64 (rc - 1)) = 30"
    using assms(4,5) by (simp add: in_i64_def wrap64_id)
  have b: "2 ^ 63 \<le> ?x" "?x < 2 ^ 64" using assms(1,2) by (simp_all add: Second_def)
  have "(?x + 2 ^ 63) mod 2 ^ 64 = (?x - 2 ^ 63) mod 2 ^ 64"
    using mod_add_self2 [of "?x - 2 ^ 63" "2 ^ 64 :: int"] by (simp add: add.commute)
  also have "\<dots> = ?x - 2 ^ 63" using b by (intro mod_pos_pos_trivial) auto
  finally have "wrap64 ?x = ?x - 2 ^ 64" by (simp add: wrap64_def)
  then have "wrap64 (InitialRetryDelay wq * shl1 30) < 0" using b(2) by (simp add: shl1_small)
  then show ?thesis
    unfolding backoff_delay_def Let_def cap using assms(3) by simp
qed

lemma backoff_overflows_witness:
  "backoff_delay (NewWorkQueueWithConfig 40 (10 * Second) (5 * Minute) 3) 31 < 0"
  by (rule backoff_overflows) (simp_all add: duration_defs in_i64_def)

section \<open>Counting failures\<close>

text \<open>The item after a failure at each of the times of a list, none of them given up.\<close>

fun fail_series :: "WorkQueue \<Rightarrow> WorkItem \<Rightarrow> time list \<Rightarrow> WorkItem" where
  "fail_series wq w [] = w"
| "fail_series wq w (t # ts) = fail_series wq (retried wq w t) ts"

lemma fail_series_snoc: "fail_series wq w (ts @ [t]) = retried wq (fail_series wq w ts) t"
  by (induction ts arbitrary: w) simp_all

lemma mod_Suc_div:
  fixes k R :: int
  assumes "0 \<le> k" and "0 < R"
  shows "k mod R + 1 < R \<Longrightarrow> (k + 1) mod R = k mod R + 1 \<and> (k + 1) div R = k div R"
    and "k mod R + 1 = R \<Longrightarrow> (k + 1) mod R = 0 \<and> (k + 1) div R = k div R + 1"
proof -
  have e: "k + 1 = R * (k div R) + (k mod R + 1)" by simp
  show "k mod R + 1 < R \<Longrightarrow> (k + 1) mod R = k mod R + 1 \<and> (k + 1) div R = k div R"
    using assms pos_mod_sign [of R k] e
    by (intro conjI int_mod_pos_eq [of _ _ "k div R"] int_div_pos_eq [of _ _ _ "k mod R + 1"]) auto
  assume r: "k mod R + 1 = R"
  then have "k + 1 = R * (k div R + 1)" using e by (simp add: algebra_simps)
  then show "(k + 1) mod R = 0 \<and> (k + 1) div R = k div R + 1" using assms(2) by simp
qed

lemma fail_series_counters:
  assumes "0 \<le> MaxRetries wq" and "MaxRetries wq < 2 ^ 62"
    and "RetryCount w = 0" and "RetryCycle w = 0" and "int (length ts) < 2 ^ 63"
  shows "RetryCount (fail_series wq w ts) = int (length ts) mod (MaxRetries wq + 1) \<and>
    RetryCycle (fail_series wq w ts) = int (length ts) div (MaxRetries wq + 1) \<and>
    item_NamespacedName (fail_series wq w ts) = item_NamespacedName w"
  using assms(5)
proof (induction ts rule: rev_induct)
  case Nil
  then show ?case using assms(3,4) by simp
next
  case (snoc t ts)
  let ?R = "MaxRetries wq + 1" and ?k = "int (length ts)" and ?w = "fail_series wq w ts"
  have IH: "RetryCount ?w = ?k mod ?R" "RetryCycle ?w = ?k div ?R"
      "item_NamespacedName ?w = item_NamespacedName w" using snoc by simp_all
  have R: "0 < ?R" using assms(1) by simp
  have m: "0 \<le> ?k mod ?R" "?k mod ?R < ?R" using R pos_mod_bound [OF R] pos_mod_sign [OF R] by blast+
  have d: "?k div ?R \<le> ?k" "0 \<le> ?k div ?R" using R zdiv_mono2 [of ?k 1 ?R] by (auto simp: pos_imp_zdiv_nonneg_iff)
  have wr: "wrap64 (?k mod ?R + 1) = ?k mod ?R + 1" "wrap64 (?k div ?R + 1) = ?k div ?R + 1"
    using m d assms(2) snoc.prems by (auto intro!: wrap64_id simp: in_i64_def)
  show ?case
  proof (cases "?k mod ?R + 1 < ?R")
    case True
    then show ?thesis
      using IH wr mod_Suc_div(1) [OF _ R True] by (simp add: fail_series_snoc retried_def add.commute)
  next
    case False
    then have "?k mod ?R + 1 = ?R" using m by simp
    then show ?thesis
      using IH wr mod_Suc_div(2) [OF _ R, of ?k] by (simp add: fail_series_snoc retried_def add.commute)
  qed
qed

end
