(* ===== verification/Template_Processor.thy ===== *)
theory Template_Processor
  imports Policy_Cache Queue_Retry
begin

text \<open>
  The worker of \<^verbatim>\<open>internal/worker/template_processor.go\<close>: status updates with retry, the
  processing of one KubeTemplate, and one turn of the worker loop over the shared queue.
\<close>

section \<open>State and parameters\<close>

record ('w, 'u) sys = "('w, 'u) cached" +
  wqueue :: WorkQueue

text \<open>
  \<^verbatim>\<open>json.Marshal\<close> of a spec (which runs the marshaller of \<^verbatim>\<open>runtime.RawExtension\<close>) and the digest;
  the hexadecimal encoding is spelled out below.
\<close>

record hash_api =
  json_Marshal :: "KubeTemplateSpec \<Rightarrow> go_error + string"
  sha256_Sum256 :: "string \<Rightarrow> nat list"

record ('w, 'u, 'v, 'h) TemplateProcessor =
  Client :: "('w, 'u, 'v, 'h) world_api"
  Unst :: "('u, 'v) unstructured_api"
  Cel :: "('h, 'v) cel_api"
  Hash :: hash_api
  OperatorNamespace :: string
  WorkerID :: go_int

section \<open>Spec hash\<close>

definition hex_digit :: "nat \<Rightarrow> char" where
  "hex_digit n = ''0123456789abcdef'' ! (n mod 16)"

definition hex_EncodeToString :: "nat list \<Rightarrow> string" where
  "hex_EncodeToString bs = concat (map (\<lambda>b. [hex_digit (b div 16), hex_digit b]) bs)"

definition calculateSpecHash :: "hash_api \<Rightarrow> KubeTemplateSpec \<Rightarrow> string" where
  "calculateSpecHash H spec =
     (case json_Marshal H spec of
        Inl _ \<Rightarrow> ''''
      | Inr specJSON \<Rightarrow> hex_EncodeToString (sha256_Sum256 H specJSON))"

section \<open>Status updates\<close>

text \<open>The loop of \<^verbatim>\<open>updateStatusWithRetry\<close> from attempt \<open>retries\<close> on, and the object it leaves.\<close>

function updateStatus_from ::
  "('w, 'u, 'v, 'h) world_api \<Rightarrow> nat \<Rightarrow> KubeTemplate \<Rightarrow> (KubeTemplate \<Rightarrow> KubeTemplate) \<Rightarrow>
   (('w, 'u call, 'x) kube_scheme, go_error option \<times> KubeTemplate) state" where
  "updateStatus_from W retries kt updateFn =
     (if retries < 3 then do {
        got \<leftarrow> client_GetTemplate W (kt_name kt) kt;
        (case got of
           (Some err, kt) \<Rightarrow> State_Monad.return (Some err, kt)
         | (None, kt) \<Rightarrow> do {
             upd \<leftarrow> client_StatusUpdate W (updateFn kt);
             (case upd of
                (Some err, kt) \<Rightarrow>
                  if IsConflict err \<and> retries < 2
                  then updateStatus_from W (retries + 1) kt updateFn
                  else State_Monad.return (Some err, kt)
              | (None, kt) \<Rightarrow> State_Monad.return (None, kt))
           })
      }
      else State_Monad.return (Some (Errorf ''failed to update status after 3 retries''), kt))"
  by pat_completeness auto
termination
  by (relation "measure (\<lambda>(W, retries, kt, f). 3 - retries)") auto

declare updateStatus_from.simps [simp del]

definition updateStatusWithRetry where
  "updateStatusWithRetry W kt updateFn = updateStatus_from W 0 kt updateFn"

definition set_failed :: "string \<Rightarrow> time \<Rightarrow> KubeTemplate \<Rightarrow> KubeTemplate" where
  "set_failed msg now kt = kt\<lparr>kt_Status := (kt_Status kt)
     \<lparr>st_ProcessingPhase := ''Failed'', st_Status := msg, st_ProcessedAt := Some now\<rparr>\<rparr>"

text \<open>The update to phase \<^verbatim>\<open>Failed\<close> that every error path makes; its own failure is only logged.\<close>

definition report_failed where
  "report_failed W kt msg = do {
     now \<leftarrow> time_Now W;
     r \<leftarrow> updateStatusWithRetry W kt (set_failed msg now);
     State_Monad.return (snd r)
   }"

section \<open>Validation\<close>

definition validateWithCEL :: "('h, 'v) cel_api \<Rightarrow> string \<Rightarrow> 'v iface \<Rightarrow> go_error + bool" where
  "validateWithCEL C rule object =
     (case cel_NewEnv C ''object'' TMapStringDyn of
        Inl err \<Rightarrow> Inl (wrapf ''failed to create CEL environment: '' err)
      | Inr env \<Rightarrow>
     (case cel_Parse C env rule of
        Inl err \<Rightarrow> Inl (wrapf ''failed to parse CEL rule: '' err)
      | Inr parsed \<Rightarrow>
     (case cel_Check C env parsed of
        Inl err \<Rightarrow> Inl (wrapf ''failed to check CEL rule: '' err)
      | Inr checked \<Rightarrow>
     (case cel_Program C env checked [] of
        Inl err \<Rightarrow> Inl (wrapf ''failed to create CEL program: '' err)
      | Inr prg \<Rightarrow>
     (case cel_Eval C prg ''object'' object of
        Inl err \<Rightarrow> Inl (wrapf ''failed to evaluate CEL rule: '' err)
      | Inr out \<Rightarrow> Inr (out = OutBool True))))))"

fun contains :: "string list \<Rightarrow> string \<Rightarrow> bool" where
  "contains [] str = False"
| "contains (v # vs) str = (if v = str then True else contains vs str)"

fun find_rule :: "ValidationRule list \<Rightarrow> GroupVersionKind \<Rightarrow> ValidationRule option" where
  "find_rule [] gvk = None"
| "find_rule (rule # rules) gvk =
     (if rule_Kind rule = gvk_Kind gvk \<and> rule_Group rule = gvk_Group gvk \<and>
         rule_Version rule = gvk_Version gvk
      then Some rule else find_rule rules gvk)"

text \<open>
  The checks of one template: the object does not parse, it is rejected with a status message,
  or it is accepted with its namespace defaulted.
\<close>

datatype 'u verdict = Unparsable | Rejected string | Accepted 'u

definition default_namespace where
  "default_namespace U ns obj =
     (if u_GetNamespace U obj = '''' then u_SetNamespace U ns obj else obj)"

definition check_object ::
  "('w, 'u, 'v, 'h) TemplateProcessor \<Rightarrow> KubeTemplatePolicy \<Rightarrow> 'u \<Rightarrow> 'u verdict" where
  "check_object P policy obj =
     (let U = Unst P; gvk = u_GroupVersionKind U obj; gvkStr = gvk_String U gvk
      in case find_rule (pol_ValidationRules (pol_Spec policy)) gvk of
           None \<Rightarrow> Rejected (''Error: Resource '' @ gvkStr @ '' is not allowed by policy'')
         | Some rule \<Rightarrow>
             if rule_TargetNamespaces rule = []
             then Rejected (''Error: Resource '' @ gvkStr @ '' has no target namespaces'')
             else if \<not> contains (rule_TargetNamespaces rule) (u_GetNamespace U obj)
             then Rejected (''Error: namespace '' @ u_GetNamespace U obj @ '' not allowed for '' @ gvkStr)
             else if rule_Rule rule \<noteq> ''''
             then (case validateWithCEL (Cel P) (rule_Rule rule) (u_Object U obj) of
                     Inl err \<Rightarrow> Rejected (''Error: CEL validation failed for '' @ gvkStr @ '': '' @ err_msg err)
                   | Inr valid \<Rightarrow>
                       if valid then Accepted obj
                       else Rejected (''Error: Resource '' @ gvkStr @ '' failed CEL validation''))
             else Accepted obj)"

definition template_verdict where
  "template_verdict P policy ns template =
     (case u_Unmarshal (Unst P) (tpl_Object template) of
        Inl _ \<Rightarrow> Unparsable
      | Inr obj \<Rightarrow> check_object P policy (default_namespace (Unst P) ns obj))"

section \<open>Applying\<close>

text \<open>The tracking labels and the owner reference.\<close>

definition decorate where
  "decorate U kt template obj =
     (let labels = (case u_GetLabels U obj of None \<Rightarrow> Mapping.empty | Some l \<Rightarrow> l);
          labels = Mapping.update ''kubetemplater.io/template-name'' (md_Name (kt_Meta kt)) labels;
          labels = Mapping.update ''kubetemplater.io/template-namespace'' (md_Namespace (kt_Meta kt)) labels;
          obj = u_SetLabels U labels obj
      in if tpl_Referenced template
         then u_SetOwnerReferences U
           (u_GetOwnerReferences U obj @
             [\<lparr>or_APIVersion = ''kubetemplater.io/v1alpha1'', or_Kind = ''KubeTemplate'',
               or_Name = md_Name (kt_Meta kt), or_UID = md_UID (kt_Meta kt)\<rparr>]) obj
         else obj)"

definition apply_options :: "patch_option list" where
  "apply_options = [FieldOwner ''kubetemplater'']"

text \<open>The result is the template object as the status updates leave it and the error returned.\<close>

definition apply_object where
  "apply_object P kt template obj = do {
     let gvk = u_GroupVersionKind (Unst P) obj;
     r \<leftarrow> client_Patch (Client P) apply_options (decorate (Unst P) kt template obj);
     (case r of
        (None, _) \<Rightarrow> State_Monad.return (kt, None)
      | (Some err, obj) \<Rightarrow>
          if IsInvalid err \<and> tpl_Replace template
          then do {
            deleteErr \<leftarrow> client_Delete (Client P) obj;
            (case deleteErr of
               Some _ \<Rightarrow> State_Monad.return (kt, None)
             | None \<Rightarrow> do {
                 _ \<leftarrow> client_Patch (Client P) apply_options obj;
                 State_Monad.return (kt, None)
               })
          }
          else do {
            kt \<leftarrow> report_failed (Client P) kt
              (''Error: Failed to apply '' @ gvk_String (Unst P) gvk @ ''/'' @ u_GetName (Unst P) obj @
               '': '' @ err_msg err);
            State_Monad.return (kt, Some err)
          })
   }"

definition process_template where
  "process_template P policy kt template =
     (case template_verdict P policy (md_Namespace (kt_Meta kt)) template of
        Unparsable \<Rightarrow> State_Monad.return (kt, None)
      | Rejected msg \<Rightarrow> do {
          kt \<leftarrow> report_failed (Client P) kt msg;
          State_Monad.return (kt, None)
        }
      | Accepted obj \<Rightarrow> apply_object P kt template obj)"

fun process_templates where
  "process_templates P policy kt [] = State_Monad.return (kt, None)"
| "process_templates P policy kt (template # templates) = do {
     r \<leftarrow> process_template P policy kt template;
     (case r of
        (kt, Some err) \<Rightarrow> State_Monad.return (kt, Some err)
      | (kt, None) \<Rightarrow> process_templates P policy kt templates)
   }"

definition set_processing :: "KubeTemplate \<Rightarrow> KubeTemplate" where
  "set_processing kt = kt\<lparr>kt_Status := (kt_Status kt)
     \<lparr>st_ProcessingPhase := ''Processing'', st_ProcessedAt := None\<rparr>\<rparr>"

definition set_completed :: "string \<Rightarrow> time \<Rightarrow> KubeTemplate \<Rightarrow> KubeTemplate" where
  "set_completed specHash now kt = kt\<lparr>kt_Status := (kt_Status kt)
     \<lparr>st_ProcessingPhase := ''Completed'', st_Status := ''Completed'', st_ProcessedAt := Some now,
      st_AppliedSpecHash := specHash\<rparr>\<rparr>"

definition complete_item where
  "complete_item P kt = do {
     let specHash = calculateSpecHash (Hash P) (kt_Spec kt);
     now \<leftarrow> time_Now (Client P);
     fin \<leftarrow> updateStatusWithRetry (Client P) kt (set_completed specHash now);
     State_Monad.return (fst fin)
   }"

definition apply_policy where
  "apply_policy P policy kt = do {
     res \<leftarrow> process_templates P policy kt (spec_Templates (kt_Spec kt));
     (case res of
        (_, Some err) \<Rightarrow> State_Monad.return (Some err)
      | (kt, None) \<Rightarrow> complete_item P kt)
   }"

definition process_with_policy where
  "process_with_policy P kt = do {
     pol \<leftarrow> PolicyCache_Get (Client P) (md_Namespace (kt_Meta kt)) (OperatorNamespace P);
     (case pol of
        Inl err \<Rightarrow> do {
          _ \<leftarrow> report_failed (Client P) kt (''Error: '' @ err_msg err);
          State_Monad.return (Some err)
        }
      | Inr policy \<Rightarrow> apply_policy P policy kt)
   }"

definition processItem where
  "processItem P nn = do {
     got \<leftarrow> client_GetTemplate (Client P) nn zero_template;
     (case got of
        (Some err, _) \<Rightarrow>
          State_Monad.return
            (if IsNotFound err then None else Some (wrapf ''failed to get KubeTemplate: '' err))
      | (None, kt) \<Rightarrow> do {
          r \<leftarrow> updateStatusWithRetry (Client P) kt set_processing;
          process_with_policy P (snd r)
        })
   }"

section \<open>The worker loop\<close>

definition queue_modify :: "(WorkQueue \<Rightarrow> WorkQueue) \<Rightarrow> (('w, 'u, 'x) sys_scheme, unit) state" where
  "queue_modify f = do {
     s \<leftarrow> State_Monad.get;
     State_Monad.set (s\<lparr>wqueue := f (wqueue s)\<rparr>)
   }"

definition set_paused :: "string \<Rightarrow> time \<Rightarrow> KubeTemplate \<Rightarrow> KubeTemplate" where
  "set_paused reason now kt = kt\<lparr>kt_Status := (kt_Status kt)
     \<lparr>st_ProcessingPhase := ''Paused'', st_PausedReason := reason, st_PausedAt := Some now,
      st_Status := ''Paused due to repeated failures''\<rparr>\<rparr>"

definition pause_template where
  "pause_template P nn cycles err = do {
     got \<leftarrow> client_GetTemplate (Client P) nn zero_template;
     (case got of
        (Some _, _) \<Rightarrow> State_Monad.return ()
      | (None, kt) \<Rightarrow> do {
          now \<leftarrow> time_Now (Client P);
          let pausedReason = ''Max retry cycles ('' @ itoa cycles @ '') exceeded. Last error: '' @ err_msg err;
          r \<leftarrow> updateStatusWithRetry (Client P) kt (set_paused pausedReason now);
          (case r of
             (Some _, _) \<Rightarrow> State_Monad.return ()
           | (None, kt) \<Rightarrow> recorder_Event (kt_name kt) ''TemplatePaused''
               (''Template automatically paused after '' @ itoa cycles @
                '' failed retry cycles. Manual intervention required. '' @ pausedReason))
        })
   }"

text \<open>What the loop does with a dequeued item \<open>p\<close>.\<close>

definition handle_item where
  "handle_item P p = do {
     s \<leftarrow> State_Monad.get;
     let item = store (wqueue s) p;
     res \<leftarrow> processItem P (item_NamespacedName item);
     (case res of
        None \<Rightarrow> queue_modify (\<lambda>wq. Done wq p)
      | Some err \<Rightarrow> do {
          s \<leftarrow> State_Monad.get;
          let wq = wqueue s;
          if MaxRetryCycles wq > 0 \<and> RetryCycle (store wq p) \<ge> MaxRetryCycles wq
          then do {
            pause_template P (item_NamespacedName (store wq p)) (MaxRetryCycles wq) err;
            queue_modify (\<lambda>wq. Done wq p)
          }
          else do {
            now \<leftarrow> time_Now (Client P);
            queue_modify (\<lambda>wq. Requeue wq p now)
          }
        })
   }"

datatype worker_outcome = WorkerStopped | WorkerWaits dequeue_outcome | WorkerHandled ptr | WorkerPanics

text \<open>One turn of the loop of \<^verbatim>\<open>Start\<close>; \<open>cancelled\<close> is whether the context is cancelled.\<close>

definition Start_turn where
  "Start_turn P cancelled =
     (if cancelled then State_Monad.return WorkerStopped
      else do {
        now \<leftarrow> time_Now (Client P);
        s \<leftarrow> State_Monad.get;
        (case Dequeue_pass (wqueue s) now of
           None \<Rightarrow> State_Monad.return WorkerPanics
         | Some (Dequeued p, wq) \<Rightarrow> do {
             queue_modify (\<lambda>_. wq);
             handle_item P p;
             State_Monad.return (WorkerHandled p)
           }
         | Some (DequeueShutdown, _) \<Rightarrow> State_Monad.return WorkerStopped
         | Some (out, _) \<Rightarrow> State_Monad.return (WorkerWaits out))
      })"

definition EnqueueKubeTemplate :: "WorkQueue \<Rightarrow> NamespacedName \<Rightarrow> time \<Rightarrow> time \<Rightarrow> WorkQueue option" where
  "EnqueueKubeTemplate wq nn t1 t2 = Enqueue wq nn 0 t1 t2"

end
