(* ===== verification/Template_Reconciler.thy ===== *)
theory Template_Reconciler
  imports Template_Processor
begin

text \<open>
  The controller of \<^verbatim>\<open>internal/controller/kubetemplater.io/kubetemplate_controller.go\<close>: the phase
  machine of \<^verbatim>\<open>Reconcile\<close>, the drift detection of \<^verbatim>\<open>applyTemplateResources\<close> and the update predicate.
\<close>

section \<open>Parameters\<close>

text \<open>\<^verbatim>\<open>apiequality.Semantic.DeepEqual\<close> at the types it is used at.\<close>

record 'v equality_api =
  eq_Value :: "'v iface \<Rightarrow> 'v iface \<Rightarrow> bool"
  eq_Spec :: "KubeTemplateSpec \<Rightarrow> KubeTemplateSpec \<Rightarrow> bool"
  eq_Map :: "go_map \<Rightarrow> go_map \<Rightarrow> bool"

text \<open>
  \<open>r_Retry\<close> is \<^verbatim>\<open>retry.RetryOnConflict(retry.DefaultBackoff, _)\<close> of client-go.
\<close>

record ('w, 'u, 'v, 'h) KubeTemplateReconciler =
  r_Client :: "('w, 'u, 'v, 'h) world_api"
  r_Unst :: "('u, 'v) unstructured_api"
  r_Hash :: hash_api
  r_Equality :: "'v equality_api"
  r_Retry :: "(('w, 'u) sys, go_error option) state \<Rightarrow> (('w, 'u) sys, go_error option) state"
  PeriodicReconcileInterval :: duration

section \<open>Drift\<close>

definition reconciler_calculateSpecHash :: "hash_api \<Rightarrow> KubeTemplateSpec \<Rightarrow> string" where
  "reconciler_calculateSpecHash H spec =
     (case json_Marshal H spec of
        Inl _ \<Rightarrow> ''''
      | Inr specJSON \<Rightarrow> hex_EncodeToString (sha256_Sum256 H specJSON))"

text \<open>\<^verbatim>\<open>NestedFieldCopy\<close> with the error ignored.\<close>

definition nested_field :: "('u, 'v) unstructured_api \<Rightarrow> 'u \<Rightarrow> string \<Rightarrow> 'v iface option" where
  "nested_field U obj field =
     (case u_NestedFieldCopy U obj [field] of Inl _ \<Rightarrow> None | Inr v \<Rightarrow> v)"

definition hasDrift :: "('u, 'v) unstructured_api \<Rightarrow> 'v equality_api \<Rightarrow> 'u \<Rightarrow> 'u \<Rightarrow> bool" where
  "hasDrift U E current desired =
     (case (nested_field U current ''spec'', nested_field U desired ''spec'') of
        (Some c, Some d) \<Rightarrow> \<not> eq_Value E c d
      | (Some _, None) \<Rightarrow> True
      | (None, Some _) \<Rightarrow> True
      | (None, None) \<Rightarrow>
          (case (nested_field U current ''data'', nested_field U desired ''data'') of
             (Some c, Some d) \<Rightarrow> \<not> eq_Value E c d
           | (Some _, None) \<Rightarrow> True
           | (None, Some _) \<Rightarrow> True
           | (None, None) \<Rightarrow> False))"

definition dry_run_options :: "patch_option list" where
  "dry_run_options = [FieldOwner ''kubetemplater'', ForceOwnership, DryRunAll]"

definition correct_options :: "patch_option list" where
  "correct_options = [FieldOwner ''kubetemplater'', ForceOwnership]"

text \<open>One template: whether it counts as synced and whether it sets the drift flag.\<close>

definition correct_object where
  "correct_object R obj drift = do {
     r \<leftarrow> client_Patch (r_Client R) correct_options obj;
     State_Monad.return (fst r = None, drift)
   }"

definition apply_resource where
  "apply_resource R template =
     (case u_Unmarshal (r_Unst R) (tpl_Object template) of
        Inl _ \<Rightarrow> State_Monad.return (False, False)
      | Inr obj \<Rightarrow> do {
          let U = r_Unst R;
          current \<leftarrow> client_GetObject (r_Client R) (u_GroupVersionKind U obj)
            \<lparr>Namespace = u_GetNamespace U obj, Name = u_GetName U obj\<rparr>;
          dry \<leftarrow> client_Patch (r_Client R) dry_run_options obj;
          (case dry of
             (Some _, _) \<Rightarrow> State_Monad.return (False, False)
           | (None, dryRunObj) \<Rightarrow>
               (case current of
                  Inr currentObj \<Rightarrow>
                    if hasDrift U (r_Equality R) currentObj dryRunObj
                    then correct_object R obj True
                    else State_Monad.return (True, False)
                | Inl getErr \<Rightarrow>
                    if IsNotFound getErr then correct_object R obj False
                    else State_Monad.return (False, False)))
        })"

fun apply_resources where
  "apply_resources R synced drift [] = State_Monad.return (synced, drift)"
| "apply_resources R synced drift (template # templates) = do {
     r \<leftarrow> apply_resource R template;
     apply_resources R (if fst r then wrap64 (synced + 1) else synced) (drift \<or> snd r) templates
   }"

definition applyTemplateResources where
  "applyTemplateResources R kt = do {
     let totalResources = int (length (spec_Templates (kt_Spec kt)));
     res \<leftarrow> apply_resources R 0 False (spec_Templates (kt_Spec kt));
     now \<leftarrow> time_Now (r_Client R);
     let syncedResources = fst res;
     let driftDetected = snd res;
     let st = kt_Status kt;
     if driftDetected \<or> st_LastReconcileTime st = None
     then do {
       let st = st\<lparr>st_LastReconcileTime := Some now, st_ResourcesTotal := totalResources,
                  st_ResourcesSynced := syncedResources,
                  st_DryRunChecks := wrap64 (st_DryRunChecks st + totalResources)\<rparr>;
       let st = (if driftDetected
                 then st\<lparr>st_LastDriftDetected := Some now,
                         st_DriftDetectionCount := wrap64 (st_DriftDetectionCount st + 1)\<rparr>
                 else st);
       r \<leftarrow> client_StatusUpdate (r_Client R) (kt\<lparr>kt_Status := st\<rparr>);
       State_Monad.return (fst r)
     }
     else State_Monad.return None
   }"

section \<open>The phase machine\<close>

datatype reconcile_outcome =
    Reconciled reconcile_result "go_error option"
  | ReconcilePanics

definition requeue_after :: "duration \<Rightarrow> reconcile_result" where
  "requeue_after d = \<lparr>res_RequeueAfter = d\<rparr>"

text \<open>\<^verbatim>\<open>r.WorkQueue.Enqueue(name, 0)\<close> followed by a return with the zero result.\<close>

definition enqueue_and_return where
  "enqueue_and_return R nn = do {
     t1 \<leftarrow> time_Now (r_Client R);
     t2 \<leftarrow> time_Now (r_Client R);
     s \<leftarrow> State_Monad.get;
     (case Enqueue (wqueue s) nn 0 t1 t2 of
        None \<Rightarrow> State_Monad.return ReconcilePanics
      | Some wq \<Rightarrow> do {
          queue_modify (\<lambda>_. wq);
          State_Monad.return (Reconciled result_zero None)
        })
   }"

text \<open>
  The tail shared by the three ways back to \<^verbatim>\<open>Queued\<close>: write the status, give up on an error other
  than a conflict, enqueue.
\<close>

definition requeue_template where
  "requeue_template R kt = do {
     r \<leftarrow> client_StatusUpdate (r_Client R) kt;
     (case r of
        (Some err, kt) \<Rightarrow>
          if \<not> IsConflict err then State_Monad.return (Reconciled result_zero (Some err))
          else enqueue_and_return R (kt_name kt)
      | (None, kt) \<Rightarrow> enqueue_and_return R (kt_name kt))
   }"

definition wants_resume :: "KubeTemplate \<Rightarrow> bool" where
  "wants_resume kt \<longleftrightarrow> Mapping.lookup (md_Annotations (kt_Meta kt)) ''kubetemplater.io/resume'' = Some ''true''"

definition reconcile_paused where
  "reconcile_paused R kt =
     (if wants_resume kt
      then do {
        now \<leftarrow> time_Now (r_Client R);
        requeue_template R (kt\<lparr>kt_Status := (kt_Status kt)
          \<lparr>st_ProcessingPhase := ''Queued'', st_PausedReason := '''', st_PausedAt := None,
           st_RetryCount := 0, st_QueuedAt := Some now\<rparr>\<rparr>)
      }
      else State_Monad.return (Reconciled result_zero None))"

definition reconcile_failed where
  "reconcile_failed R kt =
     (let currentHash = reconciler_calculateSpecHash (r_Hash R) (kt_Spec kt)
      in if st_AppliedSpecHash (kt_Status kt) \<noteq> '''' \<and> currentHash \<noteq> st_AppliedSpecHash (kt_Status kt)
         then do {
           now \<leftarrow> time_Now (r_Client R);
           requeue_template R (kt\<lparr>kt_Status := (kt_Status kt)
             \<lparr>st_ProcessingPhase := ''Queued'', st_RetryCount := 0, st_RetryCycle := 0,
              st_QueuedAt := Some now, st_AppliedSpecHash := currentHash\<rparr>\<rparr>)
         }
         else State_Monad.return (Reconciled result_zero None))"

text \<open>The periodic check of a completed template with an unchanged spec.\<close>

definition reconcile_periodic where
  "reconcile_periodic R kt = do {
     let again = Reconciled (requeue_after (PeriodicReconcileInterval R)) None;
     s \<leftarrow> State_Monad.get;
     if Contains (wqueue s) (kt_name kt) then State_Monad.return again
     else do {
       recent \<leftarrow> (case st_LastReconcileTime (kt_Status kt) of
           None \<Rightarrow> State_Monad.return False
         | Some lastTime \<Rightarrow> do {
             now \<leftarrow> time_Now (r_Client R);
             State_Monad.return (time_Sub now lastTime < go_div (PeriodicReconcileInterval R) 2)
           });
       if recent then State_Monad.return again
       else do {
         _ \<leftarrow> applyTemplateResources R kt;
         State_Monad.return again
       }
     }
   }"

definition reconcile_completed where
  "reconcile_completed R kt =
     (let currentHash = reconciler_calculateSpecHash (r_Hash R) (kt_Spec kt)
      in if st_AppliedSpecHash (kt_Status kt) = ''''
         then do {
           _ \<leftarrow> client_StatusUpdate (r_Client R)
             (kt\<lparr>kt_Status := (kt_Status kt)\<lparr>st_AppliedSpecHash := currentHash\<rparr>\<rparr>);
           State_Monad.return (Reconciled (requeue_after (PeriodicReconcileInterval R)) None)
         }
         else if currentHash \<noteq> st_AppliedSpecHash (kt_Status kt)
         then do {
           now \<leftarrow> time_Now (r_Client R);
           requeue_template R (kt\<lparr>kt_Status := (kt_Status kt)
             \<lparr>st_ProcessingPhase := ''Queued'', st_RetryCount := 0, st_QueuedAt := Some now,
              st_AppliedSpecHash := currentHash\<rparr>\<rparr>)
         }
         else reconcile_periodic R kt)"

text \<open>The function handed to \<^verbatim>\<open>RetryOnConflict\<close> for a new template.\<close>

definition mark_queued where
  "mark_queued R req = do {
     got \<leftarrow> client_GetTemplate (r_Client R) req zero_template;
     (case got of
        (Some err, _) \<Rightarrow> State_Monad.return (Some err)
      | (None, latestTemplate) \<Rightarrow> do {
          now \<leftarrow> time_Now (r_Client R);
          r \<leftarrow> client_StatusUpdate (r_Client R) (latestTemplate\<lparr>kt_Status := (kt_Status latestTemplate)
            \<lparr>st_ProcessingPhase := ''Queued'', st_QueuedAt := Some now, st_ProcessedAt := None,
             st_RetryCount := 0\<rparr>\<rparr>);
          State_Monad.return (fst r)
        })
   }"

definition reconcile_pending where
  "reconcile_pending R req kt =
     (if st_ProcessingPhase (kt_Status kt) = ''''
      then do {
        err \<leftarrow> r_Retry R (mark_queued R req);
        (case err of
           Some _ \<Rightarrow> State_Monad.return (Reconciled (requeue_after (1 * Second)) None)
         | None \<Rightarrow> enqueue_and_return R (kt_name kt))
      }
      else enqueue_and_return R (kt_name kt))"

definition Reconcile where
  "Reconcile R req = do {
     got \<leftarrow> client_GetTemplate (r_Client R) req zero_template;
     (case got of
        (Some err, _) \<Rightarrow>
          State_Monad.return (Reconciled result_zero (if IsNotFound err then None else Some err))
      | (None, kt) \<Rightarrow>
          let phase = st_ProcessingPhase (kt_Status kt)
          in if phase = ''Paused'' then reconcile_paused R kt
             else if phase = ''Failed'' then reconcile_failed R kt
             else if phase = ''Completed'' then reconcile_completed R kt
             else reconcile_pending R req kt)
   }"

section \<open>The update predicate\<close>

datatype watched = WatchedNil | WatchedTemplate KubeTemplate | WatchedOther

definition UpdateFunc :: "'v equality_api \<Rightarrow> watched \<Rightarrow> watched \<Rightarrow> bool" where
  "UpdateFunc E objectOld objectNew =
     (case (objectOld, objectNew) of
        (WatchedTemplate old, WatchedTemplate new) \<Rightarrow>
          \<not> eq_Spec E (kt_Spec old) (kt_Spec new) \<or>
          \<not> eq_Map E (md_Annotations (kt_Meta old)) (md_Annotations (kt_Meta new)) \<or>
          \<not> eq_Map E (md_Labels (kt_Meta old)) (md_Labels (kt_Meta new))
      | _ \<Rightarrow> True)"

end
