(* ===== verification/Worker_Properties.thy ===== *)
theory Worker_Properties
  imports Template_Processor
begin

text \<open>
  What the worker may write to the cluster, how its status updates end, and how its retry
  decisions fit the queue.
\<close>

section \<open>Client behaviour\<close>

text \<open>
  What the controller-runtime client documents: a successful get returns the object asked for, a
  failed one leaves the object alone; a status update returns the object that was sent; a failed
  patch leaves the object alone.
\<close>

definition client_ok :: "('w, 'u, 'v, 'h) world_api \<Rightarrow> bool" where
  "client_ok W \<longleftrightarrow>
     (\<forall>nn kt w kt'. fst (w_GetTemplate W nn kt w) = (None, kt') \<longrightarrow> kt_name kt' = nn) \<and>
     (\<forall>nn kt w e kt'. fst (w_GetTemplate W nn kt w) = (Some e, kt') \<longrightarrow> kt' = kt) \<and>
     (\<forall>kt w e kt'. fst (w_StatusUpdate W kt w) = (e, kt') \<longrightarrow> kt_name kt' = kt_name kt) \<and>
     (\<forall>opts u w e u'. fst (w_Patch W opts u w) = (Some e, u') \<longrightarrow> u' = u)"

text \<open>The versions of a template the API server has answered with.\<close>

definition answers :: "('w, 'u, 'v, 'h) world_api \<Rightarrow> NamespacedName \<Rightarrow> KubeTemplate set" where
  "answers W nn = {kt. kt_name kt = nn \<and>
     ((\<exists>k w. fst (w_GetTemplate W nn k w) = (None, kt)) \<or>
      (\<exists>k w e. fst (w_StatusUpdate W k w) = (e, kt)))}"

fun is_write :: "'u call \<Rightarrow> bool" where
  "is_write (CPatch opts u e) = True"
| "is_write (CDelete u e) = True"
| "is_write c = False"

fun call_error :: "'u call \<Rightarrow> go_error option" where
  "call_error (CGetTemplate nn e) = e"
| "call_error (CStatusUpdate kt e) = e"
| "call_error (CGetPolicy nn e) = e"
| "call_error (CPatch opts u e) = e"
| "call_error (CDelete u e) = e"
| "call_error c = None"

definition quiet :: "('u call \<Rightarrow> bool) \<Rightarrow> bool" where
  "quiet \<Phi> \<longleftrightarrow> (\<forall>c. \<not> is_write c \<longrightarrow> \<Phi> c)"

lemma emits_client:
  assumes "world_free I" and "quiet \<Phi>"
  shows "emits I \<Phi> (\<lambda>_. True) (client_GetTemplate W nn kt)"
    "emits I \<Phi> (\<lambda>_. True) (client_StatusUpdate W kt)"
    "emits I \<Phi> (\<lambda>_. True) (client_ListPolicies W opNs ns)"
    "emits I \<Phi> (\<lambda>_. True) (recorder_Event nn reason msg)"
  using assms by (auto simp: client_defs quiet_def intro!: emits_call)

section \<open>A concrete worker\<close>

definition ex_hash :: hash_api where
  "ex_hash = \<lparr>json_Marshal = (\<lambda>spec. Inr (concat (map tpl_Object (spec_Templates spec)))),
     sha256_Sum256 = (\<lambda>bytes. map (\<lambda>c. of_char c) bytes)\<rparr>"

definition ex_P :: "(ex_world, ex_obj, string, string) TemplateProcessor" where
  "ex_P = \<lparr>Client = ex_W, Unst = ex_U, Cel = ex_cel, Hash = ex_hash,
     OperatorNamespace = ''ops'', WorkerID = 0\<rparr>"

definition ex_sys :: "string list \<Rightarrow> (ex_world, ex_obj) sys" where
  "ex_sys raws = \<lparr>world = ex_cluster raws, trace = [], pcache = NewPolicyCache Minute,
     wqueue = ex_taken\<rparr>"

definition ex_applied :: ex_obj where
  "ex_applied = decorate ex_U (ex_kt []) (ex_tpl ''configmap'')
     (ex_configmap\<lparr>eo_namespace := ''team-a''\<rparr>)"

section \<open>Status updates\<close>

lemma set_status_name [simp]:
  "kt_Meta (set_failed msg now kt) = kt_Meta kt" "kt_Meta (set_processing kt) = kt_Meta kt"
  "kt_Meta (set_completed h now kt) = kt_Meta kt" "kt_Meta (set_paused r now kt) = kt_Meta kt"
  by (simp_all add: set_failed_def set_processing_def set_completed_def set_paused_def)

lemma client_okD:
  assumes "client_ok W"
  shows "fst (w_GetTemplate W nn kt w) = (None, kt') \<Longrightarrow> kt_name kt' = nn"
    and "fst (w_GetTemplate W nn kt w) = (Some e, kt') \<Longrightarrow> kt' = kt"
    and "fst (w_StatusUpdate W kt w) = (e', kt') \<Longrightarrow> kt_name kt' = kt_name kt"
    and "fst (w_Patch W opts u w) = (Some e, u') \<Longrightarrow> u' = u"
  using assms unfolding client_ok_def by blast+

lemma answers_name: "kt \<in> answers W nn \<Longrightarrow> kt_name kt = nn"
  by (simp add: answers_def)

lemma emits_GetTemplate_answer:
  assumes "world_free I" and "quiet \<Phi>" and ok: "client_ok W" and kt: "kt \<in> answers W nn"
  shows "emits I \<Phi> (\<lambda>r. snd r \<in> answers W nn) (client_GetTemplate W nn kt)"
  unfolding client_GetTemplate_def
proof (rule emits_call)
  show "snd (fst (w_GetTemplate W nn kt w)) \<in> answers W nn" for w
  proof -
    obtain e k where ek: "fst (w_GetTemplate W nn kt w) = (e, k)" by force
    show ?thesis
    proof (cases e)
      case None
      then show ?thesis
        using ek client_okD(1) [OF ok, of nn kt w k] by (auto simp: answers_def)
    next
      case (Some err)
      then show ?thesis using ek kt client_okD(2) [OF ok, of nn kt w err k] by simp
    qed
  qed
qed (use assms(1,2) in \<open>auto simp: quiet_def\<close>)

lemma emits_StatusUpdate_answer:
  assumes "world_free I" and "quiet \<Phi>" and ok: "client_ok W" and kt: "kt_name kt = nn"
  shows "emits I \<Phi> (\<lambda>r. snd r \<in> answers W nn) (client_StatusUpdate W kt)"
  unfolding client_StatusUpdate_def
proof (rule emits_call)
  show "snd (fst (w_StatusUpdate W kt w)) \<in> answers W nn" for w
  proof -
    obtain e k where ek: "fst (w_StatusUpdate W kt w) = (e, k)" by force
    then show ?thesis using client_okD(3) [OF ok ek] kt by (auto simp: answers_def)
  qed
qed (use assms(1,2) in \<open>auto simp: quiet_def\<close>)

lemma emits_updateStatus_from:
  assumes I: "world_free I" "quiet \<Phi>" and ok: "client_ok W"
    and f: "\<And>kt. kt_Meta (f kt) = kt_Meta kt"
  shows "kt \<in> answers W nn \<Longrightarrow>
    emits I \<Phi> (\<lambda>r. snd r \<in> answers W nn) (updateStatus_from W retries kt f)"
proof (induction "3 - retries" arbitrary: retries kt rule: less_induct)
  case less
  let ?R = "\<lambda>r. snd r \<in> answers W nn"
  have upd: "emits I \<Phi> ?R (case upd of
         (Some err, kt) \<Rightarrow>
           if IsConflict err \<and> retries < 2 then updateStatus_from W (retries + 1) kt f
           else State_Monad.return (Some err, kt)
       | (None, kt) \<Rightarrow> State_Monad.return (None, kt))"
    if r: "retries < 3" "snd upd \<in> answers W nn" for upd
  proof (cases upd)
    case (Pair e k)
    have "emits I \<Phi> ?R (updateStatus_from W (retries + 1) k f)"
      using r Pair by (intro less.hyps) auto
    then show ?thesis using r Pair by (cases e) (simp_all add: emits_return)
  qed
  have got: "emits I \<Phi> ?R (case got of
       (Some err, kt) \<Rightarrow> State_Monad.return (Some err, kt)
     | (None, kt) \<Rightarrow> client_StatusUpdate W (f kt) \<bind> (\<lambda>upd. case upd of
         (Some err, kt) \<Rightarrow>
           if IsConflict err \<and> retries < 2 then updateStatus_from W (retries + 1) kt f
           else State_Monad.return (Some err, kt)
       | (None, kt) \<Rightarrow> State_Monad.return (None, kt)))"
    if r: "retries < 3" "snd got \<in> answers W nn" for got
  proof (cases got)
    case (Pair e k)
    then have n: "kt_name (f k) = nn" using r(2) answers_name f by simp
    have "emits I \<Phi> ?R (client_StatusUpdate W (f k) \<bind> (\<lambda>upd. case upd of
         (Some err, kt) \<Rightarrow>
           if IsConflict err \<and> retries < 2 then updateStatus_from W (retries + 1) kt f
           else State_Monad.return (Some err, kt)
       | (None, kt) \<Rightarrow> State_Monad.return (None, kt)))"
      by (rule emits_bind [OF emits_StatusUpdate_answer [OF I ok n]]) (rule upd [OF r(1)])
    then show ?thesis using r Pair by (cases e) (simp_all add: emits_return)
  qed
  show ?case
  proof (cases "retries < 3")
    case True
    then show ?thesis
      unfolding updateStatus_from.simps [of W retries kt f] answers_name [OF less.prems] if_P [OF True]
      by (intro emits_bind [OF emits_GetTemplate_answer [OF I ok less.prems]] got)
  next
    case False
    then show ?thesis using less.prems by (simp add: updateStatus_from.simps [of W retries kt f] emits_return)
  qed
qed

lemmas emits_updateStatus = emits_updateStatus_from [where retries = 0, folded updateStatusWithRetry_def]

lemma emits_report_failed:
  assumes I: "world_free I" "quiet \<Phi>" and ok: "client_ok W" and kt: "kt \<in> answers W nn"
  shows "emits I \<Phi> (\<lambda>kt. kt \<in> answers W nn) (report_failed W kt msg)"
  unfolding report_failed_def
  by (intro emits_bind_any [OF emits_now [OF I(1)]]
      emits_bind [OF emits_updateStatus [OF I ok _ kt]] emits_return) simp_all

section \<open>Only authorised writes\<close>

text \<open>A policy the cache has answered with, in some state in which every cached policy is under its namespace.\<close>

definition served :: "('w, 'u, 'v, 'h) TemplateProcessor \<Rightarrow> string \<Rightarrow> KubeTemplatePolicy \<Rightarrow> bool" where
  "served P ns pol \<longleftrightarrow> (\<exists>s :: ('w, 'u) sys. source_inv (Client P) s \<and>
     fst (run_state (PolicyCache_Get (Client P) ns (OperatorNamespace P)) s) = Inr pol)"

text \<open>
  \<open>u\<close> is a template's object, accepted by a served policy, with the tracking labels and the owner
  reference of the KubeTemplate.
\<close>

definition may_write ::
  "('w, 'u, 'v, 'h) TemplateProcessor \<Rightarrow> NamespacedName \<Rightarrow> (Template \<Rightarrow> bool) \<Rightarrow> 'u \<Rightarrow> bool" where
  "may_write P nn Q u \<longleftrightarrow> (\<exists>pol kt0 kt t obj. served P (Namespace nn) pol \<and>
     kt0 \<in> answers (Client P) nn \<and> t \<in> set (spec_Templates (kt_Spec kt0)) \<and> Q t \<and>
     template_verdict P pol (Namespace nn) t = Accepted obj \<and>
     kt \<in> answers (Client P) nn \<and> u = decorate (Unst P) kt t obj)"

fun authorised_call ::
  "('w, 'u, 'v, 'h) TemplateProcessor \<Rightarrow> NamespacedName \<Rightarrow> 'u call \<Rightarrow> bool" where
  "authorised_call P nn (CPatch opts u e) = (opts = apply_options \<and> may_write P nn (\<lambda>_. True) u)"
| "authorised_call P nn (CDelete u e) = may_write P nn tpl_Replace u"
| "authorised_call P nn c = True"

lemma quiet_authorised: "quiet (authorised_call P nn)"
  unfolding quiet_def
proof
  show "\<not> is_write c \<longrightarrow> authorised_call P nn c" for c by (cases c) (auto simp: apply_options_def)
qed

lemma emits_Patch:
  assumes "world_free I" and "client_ok W" and "\<And>e. \<Phi> (CPatch opts u e)"
  shows "emits I \<Phi> (\<lambda>r. fst r \<noteq> None \<longrightarrow> snd r = u) (client_Patch W opts u)"
  unfolding client_Patch_def
proof (rule emits_call)
  show "fst (fst (w_Patch W opts u w)) \<noteq> None \<longrightarrow> snd (fst (w_Patch W opts u w)) = u" for w
  proof -
    obtain e v where ev: "fst (w_Patch W opts u w) = (e, v)" by force
    then show ?thesis using client_okD(4) [OF assms(2)] by (cases e) auto
  qed
qed (use assms in auto)

lemma emits_apply_object:
  assumes I: "world_free I" and ok: "client_ok (Client P)" and pol: "served P (Namespace nn) pol"
    and kt0: "kt0 \<in> answers (Client P) nn" and t: "t \<in> set (spec_Templates (kt_Spec kt0))"
    and v: "template_verdict P pol (Namespace nn) t = Accepted obj"
    and kt: "kt \<in> answers (Client P) nn"
  shows "emits I (authorised_call P nn) (\<lambda>r. fst r \<in> answers (Client P) nn) (apply_object P kt t obj)"
proof -
  let ?u = "decorate (Unst P) kt t obj" and ?\<Phi> = "authorised_call P nn"
  let ?R = "\<lambda>r :: KubeTemplate \<times> go_error option. fst r \<in> answers (Client P) nn"
  have w: "may_write P nn Q ?u" if "Q t" for Q
    unfolding may_write_def using pol kt0 t v kt that by blast
  have patch: "emits I ?\<Phi> (\<lambda>r. fst r \<noteq> None \<longrightarrow> snd r = ?u) (client_Patch (Client P) apply_options ?u)"
    using w by (intro emits_Patch [OF I ok]) simp
  have again: "emits I ?\<Phi> ?R (client_Patch (Client P) apply_options ?u \<bind>
      (\<lambda>_. State_Monad.return (kt, None)))"
    using kt by (intro emits_bind [OF patch] emits_return) simp
  have del: "emits I ?\<Phi> (\<lambda>_. True) (client_Delete (Client P) ?u)" if "tpl_Replace t"
    unfolding client_Delete_def using w [of tpl_Replace] that I by (intro emits_call) auto
  have replace: "emits I ?\<Phi> ?R (client_Delete (Client P) ?u \<bind> (\<lambda>deleteErr. case deleteErr of
      Some _ \<Rightarrow> State_Monad.return (kt, None)
    | None \<Rightarrow> client_Patch (Client P) apply_options ?u \<bind> (\<lambda>_. State_Monad.return (kt, None))))"
    if "tpl_Replace t"
    using kt again by (intro emits_bind [OF del [OF that]] emits_split emits_return) auto
  have fail: "emits I ?\<Phi> ?R (report_failed (Client P) kt msg \<bind> (\<lambda>kt. State_Monad.return (kt, e)))"
    for msg e
    by (intro emits_bind [OF emits_report_failed [OF I quiet_authorised ok kt]] emits_return) simp
  show ?thesis
    unfolding apply_object_def Let_def
    using kt replace fail
    by (intro emits_bind [OF patch] emits_split emits_return) (auto split: option.split intro!: emits_split emits_return)
qed

lemma emits_process_template:
  assumes I: "world_free I" and ok: "client_ok (Client P)" and pol: "served P (Namespace nn) pol"
    and kt0: "kt0 \<in> answers (Client P) nn" and t: "t \<in> set (spec_Templates (kt_Spec kt0))"
    and kt: "kt \<in> answers (Client P) nn"
  shows "emits I (authorised_call P nn) (\<lambda>r. fst r \<in> answers (Client P) nn)
    (process_template P pol kt t)"
proof -
  have ns: "md_Namespace (kt_Meta kt) = Namespace nn" using answers_name [OF kt] by auto
  have fail: "emits I (authorised_call P nn) (\<lambda>r. fst r \<in> answers (Client P) nn)
      (report_failed (Client P) kt msg \<bind> (\<lambda>kt. State_Monad.return (kt, None)))" for msg
    by (intro emits_bind [OF emits_report_failed [OF I quiet_authorised ok kt]] emits_return) simp
  show ?thesis
    unfolding process_template_def ns
    using fail kt emits_apply_object [OF I ok pol kt0 t _ kt]
    by (cases "template_verdict P pol (Namespace nn) t") (auto intro: emits_return)
qed

lemma emits_process_templates:
  assumes I: "world_free I" and ok: "client_ok (Client P)" and pol: "served P (Namespace nn) pol"
    and kt0: "kt0 \<in> answers (Client P) nn"
  shows "set ts \<subseteq> set (spec_Templates (kt_Spec kt0)) \<Longrightarrow> kt \<in> answers (Client P) nn \<Longrightarrow>
    emits I (authorised_call P nn) (\<lambda>r. fst r \<in> answers (Client P) nn) (process_templates P pol kt ts)"
proof (induction ts arbitrary: kt)
  case Nil
  then show ?case by (simp add: emits_return)
next
  case (Cons t ts)
  have t: "t \<in> set (spec_Templates (kt_Spec kt0))" using Cons.prems(1) by simp
  have next_ok: "emits I (authorised_call P nn) (\<lambda>r. fst r \<in> answers (Client P) nn)
      (case r of (kt, Some err) \<Rightarrow> State_Monad.return (kt, Some err)
       | (kt, None) \<Rightarrow> process_templates P pol kt ts)" if r: "fst r \<in> answers (Client P) nn" for r
  proof (cases r)
    case (Pair k e)
    then show ?thesis using Cons r by (cases e) (simp_all add: emits_return)
  qed
  show ?case
    unfolding process_templates.simps
    by (rule emits_bind [OF emits_process_template [OF I ok pol kt0 t Cons.prems(2)]]) (rule next_ok)
qed

lemma world_free_source: "world_free (source_inv W)"
  by (simp add: world_free_def)

lemma emits_Get_policy:
  fixes P :: "('w, 'u, 'v, 'h) TemplateProcessor"
  shows "emits (source_inv (Client P) :: ('w, 'u) sys \<Rightarrow> bool) (authorised_call P nn)
    (\<lambda>r. \<forall>pol. r = Inr pol \<longrightarrow> served P ns pol)
    (PolicyCache_Get (Client P) ns (OperatorNamespace P))"
  unfolding emits_def
proof (intro conjI allI impI)
  let ?get = "PolicyCache_Get (Client P) ns (OperatorNamespace P)"
  show "keeps (source_inv (Client P)) (\<lambda>r. \<forall>pol. r = Inr pol \<longrightarrow> served P ns pol)
      (?get :: (('w, 'u) sys, _) state)"
    using Get_source [of "Client P" ns "OperatorNamespace P"] unfolding keeps_def served_def by blast
  fix s :: "('w, 'u) sys" assume "source_inv (Client P) s"
  have "trace (snd (run_state ?get s)) \<in> {trace s, trace s @ [CListPolicies (OperatorNamespace P) ns]}"
    using Get_trace by blast
  then show "\<exists>cs. trace (snd (run_state ?get s)) = trace s @ cs \<and> (\<forall>c \<in> set cs. authorised_call P nn c)"
    by auto
qed

lemma emits_complete_item:
  assumes I: "world_free I" "quiet \<Phi>" and ok: "client_ok (Client P)" and kt: "kt \<in> answers (Client P) nn"
  shows "emits I \<Phi> (\<lambda>_. True) (complete_item P kt)"
  unfolding complete_item_def Let_def
  by (intro emits_bind_any [OF emits_now [OF I(1)]] emits_bind [OF emits_updateStatus [OF I ok _ kt]]
      emits_return) simp_all

lemma emits_apply_policy:
  assumes I: "world_free I" and ok: "client_ok (Client P)" and kt: "kt \<in> answers (Client P) nn"
    and pol: "served P (Namespace nn) pol"
  shows "emits I (authorised_call P nn) (\<lambda>_. True) (apply_policy P pol kt)"
  unfolding apply_policy_def
  by (rule emits_bind [OF emits_process_templates [OF I ok pol kt subset_refl kt]])
    (auto split: prod.split option.split
      intro: emits_return emits_complete_item [OF I quiet_authorised ok])

lemma emits_process_with_policy:
  fixes P :: "('w, 'u, 'v, 'h) TemplateProcessor"
  assumes ok: "client_ok (Client P)" and kt: "kt \<in> answers (Client P) nn"
  shows "emits (source_inv (Client P) :: ('w, 'u) sys \<Rightarrow> bool) (authorised_call P nn) (\<lambda>_. True)
    (process_with_policy P kt)"
proof -
  have ns: "md_Namespace (kt_Meta kt) = Namespace nn" using answers_name [OF kt] by auto
  show ?thesis
    unfolding process_with_policy_def ns
    by (intro emits_bind [OF emits_Get_policy] emits_split emits_apply_policy [OF world_free_source ok kt]
        emits_bind [OF emits_report_failed [OF world_free_source quiet_authorised ok kt]] emits_return) auto
qed

lemma emits_processItem:
  fixes P :: "('w, 'u, 'v, 'h) TemplateProcessor"
  assumes ok: "client_ok (Client P)"
  shows "emits (source_inv (Client P) :: ('w, 'u) sys \<Rightarrow> bool) (authorised_call P nn) (\<lambda>_. True)
    (processItem P nn)"
proof -
  let ?I = "source_inv (Client P) :: ('w, 'u) sys \<Rightarrow> bool" and ?\<Phi> = "authorised_call P nn"
    and ?A = "answers (Client P) nn"
  have first: "emits ?I ?\<Phi> (\<lambda>r. fst r = None \<longrightarrow> snd r \<in> ?A) (client_GetTemplate (Client P) nn zero_template)"
    unfolding client_GetTemplate_def
  proof (rule emits_call)
    show "fst (fst (w_GetTemplate (Client P) nn zero_template w)) = None \<longrightarrow>
        snd (fst (w_GetTemplate (Client P) nn zero_template w)) \<in> ?A" for w
    proof -
      obtain e k where ek: "fst (w_GetTemplate (Client P) nn zero_template w) = (e, k)" by force
      then show ?thesis using client_okD(1) [OF ok] by (cases e) (auto simp: answers_def)
    qed
  qed (auto simp: world_free_def)
  show ?thesis
    unfolding processItem_def
    by (rule emits_bind [OF first])
      (auto split: prod.split option.split intro!: emits_return emits_process_with_policy [OF ok]
        emits_bind [OF emits_updateStatus [OF world_free_source quiet_authorised ok]])
qed

lemma ex_client_ok: "client_ok ex_W"
  by (auto simp: client_ok_def ex_W_def find_Some_iff split: option.splits)

lemma ex_list_ok: "list_ok ex_W"
  by (auto simp: list_ok_def ex_W_def)

lemma ex_sys_ok: "cache_ok (pcache (ex_sys raws))" "trace (ex_sys raws) = []"
  by (simp_all add: ex_sys_def cache_ok_remove)

lemma ex_run_patches:
  "CPatch apply_options ex_applied None \<in>
     set (trace (snd (run_state (processItem ex_P ex_n) (ex_sys [''configmap'']))))"
  by code_simp

lemma ex_P_sel [simp]: "Client ex_P = ex_W" "Unst ex_P = ex_U"
  by (simp_all add: ex_P_def)

text \<open>
  Whatever the API server answers, every object the worker patches is the object of a template
  of the KubeTemplate (as the server returned it), accepted by a policy the cache served for the
  KubeTemplate's namespace, with the tracking labels and the owner reference added; it is applied
  with the operator's field manager and without forcing ownership. An object is deleted only under
  the same conditions and only for a template that asks for replacement.
\<close>

lemma worker_writes_authorised:
  fixes s :: "('w, 'u) sys"
  assumes "client_ok (Client P)" and "list_ok (Client P)" and "cache_ok (pcache s)" and "trace s = []"
  shows "\<forall>c \<in> set (trace (snd (run_state (processItem P nn) s))). authorised_call P nn c"
  using emits_run(1) [OF emits_processItem [OF assms(1)]] assms(2-4) by blast

lemma worker_writes_authorised_witness: "authorised_call ex_P ex_n (CPatch apply_options ex_applied None)"
  using worker_writes_authorised [of ex_P "ex_sys [''configmap'']" ex_n] ex_run_patches
    ex_client_ok ex_list_ok ex_sys_ok by auto

text \<open>What \<^verbatim>\<open>unstructured.Unstructured\<close> documents of its setters.\<close>

definition unst_ok :: "('u, 'v) unstructured_api \<Rightarrow> bool" where
  "unst_ok U \<longleftrightarrow> (\<forall>u l os.
     u_GroupVersionKind U (u_SetLabels U l u) = u_GroupVersionKind U u \<and>
     u_GetNamespace U (u_SetLabels U l u) = u_GetNamespace U u \<and>
     u_GetLabels U (u_SetLabels U l u) = Some l \<and>
     u_GroupVersionKind U (u_SetOwnerReferences U os u) = u_GroupVersionKind U u \<and>
     u_GetNamespace U (u_SetOwnerReferences U os u) = u_GetNamespace U u \<and>
     u_GetLabels U (u_SetOwnerReferences U os u) = u_GetLabels U u)"

definition permits :: "KubeTemplatePolicy \<Rightarrow> GroupVersionKind \<Rightarrow> string \<Rightarrow> bool" where
  "permits pol gvk ns \<longleftrightarrow> (\<exists>rule \<in> set (pol_ValidationRules (pol_Spec pol)).
     rule_Kind rule = gvk_Kind gvk \<and> rule_Group rule = gvk_Group gvk \<and>
     rule_Version rule = gvk_Version gvk \<and> ns \<in> set (rule_TargetNamespaces rule))"

definition tracked_by :: "('u, 'v) unstructured_api \<Rightarrow> NamespacedName \<Rightarrow> 'u \<Rightarrow> bool" where
  "tracked_by U nn u \<longleftrightarrow> (\<exists>l. u_GetLabels U u = Some l \<and>
     Mapping.lookup l ''kubetemplater.io/template-name'' = Some (Name nn) \<and>
     Mapping.lookup l ''kubetemplater.io/template-namespace'' = Some (Namespace nn))"

definition within_policy :: "('u, 'v) unstructured_api \<Rightarrow> NamespacedName \<Rightarrow> 'u \<Rightarrow> bool" where
  "within_policy U nn u \<longleftrightarrow> tracked_by U nn u \<and>
     (\<exists>pol. pol_SourceNamespace (pol_Spec pol) = Namespace nn \<and>
        permits pol (u_GroupVersionKind U u) (u_GetNamespace U u))"

lemma contains_set: "contains vs str \<longleftrightarrow> str \<in> set vs"
  by (induction vs) auto

lemma find_rule_some:
  "find_rule rules gvk = Some rule \<Longrightarrow> rule \<in> set rules \<and> rule_Kind rule = gvk_Kind gvk \<and>
     rule_Group rule = gvk_Group gvk \<and> rule_Version rule = gvk_Version gvk"
  by (induction rules) (auto split: if_splits)

lemma check_object_accepts:
  assumes "check_object P pol u = Accepted obj"
  shows "obj = u \<and> permits pol (u_GroupVersionKind (Unst P) u) (u_GetNamespace (Unst P) u)"
  using assms
  by (auto simp: check_object_def Let_def contains_set permits_def dest!: find_rule_some
      split: option.splits if_splits sum.splits)

lemma verdict_permits:
  "template_verdict P pol ns t = Accepted obj \<Longrightarrow>
     permits pol (u_GroupVersionKind (Unst P) obj) (u_GetNamespace (Unst P) obj)"
  by (auto simp: template_verdict_def dest!: check_object_accepts split: sum.splits)

lemma decorate_laws:
  assumes "unst_ok U" and "kt_name kt = nn"
  shows "u_GroupVersionKind U (decorate U kt t u) = u_GroupVersionKind U u"
    "u_GetNamespace U (decorate U kt t u) = u_GetNamespace U u" "tracked_by U nn (decorate U kt t u)"
  using assms by (auto simp: decorate_def Let_def unst_ok_def tracked_by_def Mapping.lookup_update')

lemma may_write_within:
  fixes P :: "('w, 'u, 'v, 'h) TemplateProcessor"
  assumes "unst_ok (Unst P)" and "may_write P nn Q u"
  shows "within_policy (Unst P) nn u"
proof -
  obtain pol kt and t :: Template and obj where m: "served P (Namespace nn) pol"
      "template_verdict P pol (Namespace nn) t = Accepted obj"
      "kt \<in> answers (Client P) nn" "u = decorate (Unst P) kt t obj"
    using assms(2) unfolding may_write_def by blast
  obtain s :: "('w, 'u) sys" where s: "source_inv (Client P) s"
      "fst (run_state (PolicyCache_Get (Client P) (Namespace nn) (OperatorNamespace P)) s) = Inr pol"
    using m(1) unfolding served_def by blast
  have "pol_SourceNamespace (pol_Spec pol) = Namespace nn"
    using keeps_run(2) [OF cached_policies.lookup_source s(1), of "Namespace nn" "OperatorNamespace P"] s(2)
    by (simp add: from_source_def)
  then show ?thesis
    using m decorate_laws [OF assms(1) answers_name [OF m(3)], of t obj] verdict_permits [OF m(2)]
    unfolding within_policy_def by auto
qed

lemma authorised_within:
  assumes "unst_ok (Unst P)" and "authorised_call P nn c"
  shows "(\<forall>opts u e. c = CPatch opts u e \<longrightarrow> within_policy (Unst P) nn u) \<and>
    (\<forall>u e. c = CDelete u e \<longrightarrow> within_policy (Unst P) nn u)"
  using assms by (cases c) (auto intro: may_write_within)



section \<open>How a status update ends\<close>

text \<open>
  \<open>cs\<close> are the calls of a status update with \<open>n\<close> attempts left: gets alternate with updates, every
  update but the last failed with a conflict.
\<close>

fun attempts :: "(KubeTemplate \<Rightarrow> KubeTemplate) \<Rightarrow> nat \<Rightarrow> 'u call list \<Rightarrow> bool" where
  "attempts f n [CGetTemplate nn (Some e)] = (n > 0)"
| "attempts f n [CGetTemplate nn None, CStatusUpdate kt e] = (n > 0 \<and> (\<exists>kt0. kt = f kt0))"
| "attempts f n (CGetTemplate nn None # CStatusUpdate kt (Some e) # cs) =
     (n > 0 \<and> IsConflict e \<and> (\<exists>kt0. kt = f kt0) \<and> attempts f (n - 1) cs)"
| "attempts f n cs = False"

lemma attempts_more:
  assumes "attempts f n cs" and "IsConflict e"
  shows "attempts f (Suc n) (CGetTemplate nn None # CStatusUpdate (f kt) (Some e) # cs)"
  using assms by (cases cs) auto

lemma updateStatus_from_attempts:
  "retries < 3 \<Longrightarrow> \<exists>cs. trace (snd (run_state (updateStatus_from W retries kt f) s)) = trace s @ cs \<and>
     attempts f (3 - retries) cs \<and>
     fst (fst (run_state (updateStatus_from W retries kt f) s)) = call_error (last cs)"
proof (induction "3 - retries" arbitrary: retries kt s rule: less_induct)
  case less
  obtain e1 k1 w1 where g: "w_GetTemplate W (kt_name kt) kt (world s) = ((e1, k1), w1)"
    by (metis prod.exhaust)
  obtain e2 k2 w2 where u: "w_StatusUpdate W (f k1) w1 = ((e2, k2), w2)" by (metis prod.exhaust)
  let ?s2 = "s\<lparr>world := w2, trace := trace s @ [CGetTemplate (kt_name kt) None, CStatusUpdate (f k1) e2]\<rparr>"
  note run = updateStatus_from.simps [of W retries kt f] client_GetTemplate_def client_StatusUpdate_def
    run_do_call g u
  show ?case
  proof (cases e1)
    case (Some e)
    then show ?thesis
      using less.prems by (intro exI [of _ "[CGetTemplate (kt_name kt) (Some e)]"]) (simp add: run)
  next
    case None
    show ?thesis
    proof (cases "\<exists>e. e2 = Some e \<and> IsConflict e \<and> retries < 2")
      case True
      then obtain e where e: "e2 = Some e" "IsConflict e" "retries < 2" by blast
      have r: "run_state (updateStatus_from W retries kt f) s =
          run_state (updateStatus_from W (retries + 1) k2 f) ?s2"
        using None e less.prems by (simp add: run)
      have lt: "3 - (retries + 1) < 3 - retries" using e(3) by linarith
      obtain cs where cs: "trace (snd (run_state (updateStatus_from W (retries + 1) k2 f) ?s2)) =
          trace ?s2 @ cs" "attempts f (3 - (retries + 1)) cs"
          "fst (fst (run_state (updateStatus_from W (retries + 1) k2 f) ?s2)) = call_error (last cs)"
        using less.hyps [OF lt, of k2 ?s2] e(3) by auto
      have ne: "cs \<noteq> []" using cs(2) by auto
      have "attempts f (Suc (3 - (retries + 1)))
          (CGetTemplate (kt_name kt) None # CStatusUpdate (f k1) (Some e) # cs)"
        using attempts_more [OF cs(2) e(2)] .
      moreover have "Suc (3 - (retries + 1)) = 3 - retries" using e(3) by simp
      ultimately show ?thesis
        using cs ne e(1) unfolding r
        by (intro exI [of _ "[CGetTemplate (kt_name kt) None, CStatusUpdate (f k1) e2] @ cs"]) auto
    next
      case False
      then show ?thesis
        using None less.prems
        by (intro exI [of _ "[CGetTemplate (kt_name kt) None, CStatusUpdate (f k1) e2]"])
          (auto simp: run split: option.split)
    qed
  qed
qed

text \<open>
  C23: A status update tries at most three times, each time on a freshly fetched object with the
  update applied, and goes on only after a conflict. It reports the outcome of its last API call, so
  it succeeds exactly when the last update did, and the closing error of the source
  (\<^verbatim>\<open>failed to update status after 3 retries\<close>) is never its own.
\<close>

theorem status_update_outcome:
  "\<exists>cs. trace (snd (run_state (updateStatusWithRetry W kt f) s)) = trace s @ cs \<and> attempts f 3 cs \<and>
     fst (fst (run_state (updateStatusWithRetry W kt f) s)) = call_error (last cs)"
  unfolding updateStatusWithRetry_def using updateStatus_from_attempts [of 0 W kt f s] by simp

section \<open>Rejected templates\<close>

lemma attempts_last:
  "attempts f n cs \<Longrightarrow> cs \<noteq> [] \<and> (call_error (last cs) = None \<longrightarrow> (\<exists>kt. last cs = CStatusUpdate (f kt) None))"
  by (induction f n cs rule: attempts.induct) auto

lemma emits_nothing_accepted:
  assumes I: "world_free I" and ok: "client_ok (Client P)"
  shows "\<forall>t \<in> set ts. \<forall>obj. template_verdict P pol (Namespace nn) t \<noteq> Accepted obj \<Longrightarrow>
    kt \<in> answers (Client P) nn \<Longrightarrow>
    emits I (\<lambda>c. \<not> is_write c) (\<lambda>r. snd r = None \<and> fst r \<in> answers (Client P) nn)
      (process_templates P pol kt ts)"
proof (induction ts arbitrary: kt)
  case Nil
  then show ?case by (simp add: emits_return)
next
  case (Cons t ts)
  let ?R = "\<lambda>r. snd r = None \<and> fst r \<in> answers (Client P) nn"
  have q: "quiet (\<lambda>c. \<not> is_write c)" by (simp add: quiet_def)
  have ns: "md_Namespace (kt_Meta kt) = Namespace nn" using answers_name [OF Cons.prems(2)] by auto
  have "emits I (\<lambda>c. \<not> is_write c) ?R (report_failed (Client P) kt msg \<bind>
      (\<lambda>kt. State_Monad.return (kt, None)))" for msg
    by (intro emits_bind [OF emits_report_failed [OF I q ok Cons.prems(2)]] emits_return) simp
  then have "emits I (\<lambda>c. \<not> is_write c) ?R (process_template P pol kt t)"
    unfolding process_template_def ns using Cons.prems
    by (cases "template_verdict P pol (Namespace nn) t") (auto intro: emits_return)
  then show ?case
    unfolding process_templates.simps
    by (rule emits_bind) (use Cons in \<open>auto split: prod.split\<close>)
qed

text \<open>
  C25: When the policy accepts no template at all, nothing is written to the cluster, and the item is
  nevertheless reported as completed: the last call is the update to phase \<^verbatim>\<open>Completed\<close>, and unless
  that update itself fails no error is returned, so the item is not retried and the phase \<^verbatim>\<open>Failed\<close>
  written for each rejected template is overwritten.
\<close>

theorem rejected_ends_completed:
  fixes s :: "('w, 'u) sys"
  assumes ok: "client_ok (Client P)" and kt: "kt \<in> answers (Client P) nn" and s: "trace s = []"
    and rej: "\<forall>t \<in> set (spec_Templates (kt_Spec kt)). \<forall>obj. template_verdict P pol (Namespace nn) t \<noteq> Accepted obj"
    and run: "run_state (apply_policy P pol kt) s = (r, s')"
  shows "(\<forall>c \<in> set (trace s'). \<not> is_write c) \<and> r = call_error (last (trace s')) \<and>
    (r = None \<longrightarrow> (\<exists>h now k. last (trace s') = CStatusUpdate (set_completed h now k) None))"
proof -
  let ?I = "\<lambda>s :: ('w, 'u) sys. True"
  have I: "world_free ?I" by (simp add: world_free_def)
  let ?m = "process_templates P pol kt (spec_Templates (kt_Spec kt))"
  note e = emits_nothing_accepted [OF I ok rej kt]
  obtain k s1 where 1: "run_state ?m s = ((k, None), s1)" "\<forall>c \<in> set (trace s1). \<not> is_write c"
    using emits_run [OF e _ s] by (cases "run_state ?m s") auto
  define h where "h = calculateSpecHash (Hash P) (kt_Spec k)"
  obtain now s2 where n: "run_state (time_Now (Client P)) s1 = (now, s2)" "trace s2 = trace s1" by simp
  obtain cs where cs: "trace (snd (run_state (updateStatusWithRetry (Client P) k (set_completed h now)) s2)) =
      trace s2 @ cs" "attempts (set_completed h now) 3 cs"
      "fst (fst (run_state (updateStatusWithRetry (Client P) k (set_completed h now)) s2)) = call_error (last cs)"
    unfolding updateStatusWithRetry_def
    using updateStatus_from_attempts [of 0 "Client P" k "set_completed h now" s2] by auto
  have w: "attempts f n cs \<Longrightarrow> \<forall>c \<in> set cs. \<not> is_write c" for f n and cs :: "'u call list"
    by (induction f n cs rule: attempts.induct) auto
  have "r = call_error (last cs)" "trace s' = trace s1 @ cs"
    using run 1(1) n cs
    by (auto simp: apply_policy_def complete_item_def h_def split: prod.splits)
  then show ?thesis using attempts_last [OF cs(2)] w [OF cs(2)] 1(2) by auto
qed

theorem rejected_ends_completed_witness:
  "\<exists>h now k. last (trace (snd (run_state
     (apply_policy ex_P (ex_policy ''ops'' ''team-a'' [ex_rule]) (ex_kt [''secret''])) (ex_sys [''secret''])))) =
     CStatusUpdate (set_completed h now k) None"
proof -
  let ?pol = "ex_policy ''ops'' ''team-a'' [ex_rule]" and ?kt = "ex_kt [''secret'']" and ?s = "ex_sys [''secret'']"
  have kt: "?kt \<in> answers (Client ex_P) ex_n"
    unfolding answers_def
    by (auto simp: ex_W_def ex_cluster_def ex_kt_def ex_meta_def meta_name_def ex_n_def
        intro!: exI [of _ "ex_cluster [''secret'']"])
  have rej: "\<forall>t \<in> set (spec_Templates (kt_Spec ?kt)). \<forall>obj. template_verdict ex_P ?pol (Namespace ex_n) t \<noteq> Accepted obj"
    by (simp add: ex_kt_def template_verdict_def check_object_def ex_U_def ex_tpl_def ex_policy_def
        ex_secret_def ex_rule_def gvk_secret_def default_namespace_def)
  obtain r s' where run: "run_state (apply_policy ex_P ?pol ?kt) ?s = (r, s')" by force
  have "fst (run_state (apply_policy ex_P ?pol ?kt) ?s) = None" by code_simp
  then show ?thesis
    using rejected_ends_completed [OF _ kt ex_sys_ok(2) rej run] ex_client_ok run by simp
qed

section \<open>Retry decisions\<close>

lemma keeps_client:
  assumes "world_free I"
  shows "keeps I (\<lambda>_. True) (client_GetTemplate W nn kt)" "keeps I (\<lambda>_. True) (client_StatusUpdate W kt)"
    "keeps I (\<lambda>_. True) (client_ListPolicies W opNs ns)" "keeps I (\<lambda>_. True) (time_Now W)"
    "keeps I (\<lambda>_. True) (client_Patch W opts u)" "keeps I (\<lambda>_. True) (client_Delete W u)"
    "keeps I (\<lambda>_. True) (recorder_Event nn reason msg)"
  using assms by (auto simp: client_defs world_free_def intro!: keeps_call)

lemma keeps_updateStatus_from:
  assumes I: "world_free I"
  shows "keeps I (\<lambda>_. True) (updateStatus_from W retries kt f)"
proof (induction "3 - retries" arbitrary: retries kt rule: less_induct)
  case less
  then show ?case
    unfolding updateStatus_from.simps [of W retries kt f]
    by (intro keeps_rules keeps_client [OF I]) (auto intro!: keeps_rules keeps_client [OF I] less)
qed

lemma keeps_worker:
  assumes I: "world_free I"
  shows "keeps I (\<lambda>_. True) (updateStatusWithRetry W kt f)" "keeps I (\<lambda>_. True) (report_failed W kt msg)"
    "keeps I (\<lambda>_. True) (pause_template P nn n err)"
  unfolding updateStatusWithRetry_def report_failed_def pause_template_def Let_def
  by (auto intro!: keeps_rules keeps_client [OF I] keeps_updateStatus_from [OF I])

abbreviation queue_is :: "WorkQueue \<Rightarrow> ('w, 'u, 'x) sys_scheme \<Rightarrow> bool" where
  "queue_is q s \<equiv> wqueue s = q"

lemma world_free_queue: "world_free (queue_is q)"
  by (simp add: world_free_def)

lemmas keeps_queue = keeps_rules keeps_client [OF world_free_queue] keeps_worker [OF world_free_queue]

lemma keeps_queue_templates: "keeps (queue_is q) (\<lambda>_. True) (process_templates P pol kt ts)"
proof (induction ts arbitrary: kt)
  case Nil
  then show ?case by (simp add: keeps_return)
next
  case (Cons t ts)
  have "keeps (queue_is q) (\<lambda>_. True) (apply_object P kt t obj)" for obj
    unfolding apply_object_def Let_def by (intro keeps_queue) (auto intro!: keeps_queue)
  then have "keeps (queue_is q) (\<lambda>_. True) (process_template P pol kt t)"
    unfolding process_template_def
    by (cases "template_verdict P pol (md_Namespace (kt_Meta kt)) t") (auto intro!: keeps_queue)
  then show ?case
    unfolding process_templates.simps
    by (intro keeps_bind_any keeps_split) (auto intro!: keeps_queue Cons)
qed

lemma keeps_queue_Get:
  fixes W :: "('w, 'u, 'v, 'h, 'z) world_api_scheme"
  shows "keeps (queue_is q :: ('w, 'u, 'x) sys_scheme \<Rightarrow> bool) (\<lambda>_. True) (PolicyCache_Get W ns opNs)"
proof -
  have m: "keeps (queue_is q :: ('w, 'u, 'x) sys_scheme \<Rightarrow> bool) (\<lambda>_. True) (pc_modify f)" for f
    by (simp add: keeps_def)
  show ?thesis
    unfolding PolicyCache_Get_def PolicyCache_refresh_def pc_store_def
    by (auto intro!: keeps_queue m)
qed

lemma processItem_queue: "wqueue (snd (run_state (processItem P nn) s)) = wqueue s"
proof -
  have "keeps (queue_is q) (\<lambda>_. True) (processItem P nn)" for q
    unfolding processItem_def process_with_policy_def apply_policy_def complete_item_def Let_def
    by (auto intro!: keeps_queue keeps_queue_templates keeps_queue_Get)
  from keeps_run(1) [OF this, of s "wqueue s"] show ?thesis by simp
qed

lemma run_queue_modify [simp]: "run_state (queue_modify f) s = ((), s\<lparr>wqueue := f (wqueue s)\<rparr>)"
  by (simp add: queue_modify_def)

lemma le_div_iff_mult:
  fixes a b c :: int
  assumes "0 < c"
  shows "a \<le> b div c \<longleftrightarrow> a * c \<le> b"
proof
  assume "a \<le> b div c"
  then have "a * c \<le> b div c * c" using assms by (intro mult_right_mono) auto
  also have "\<dots> \<le> b" using pos_mod_sign [OF assms, of b] div_mult_mod_eq [of b c] by linarith
  finally show "a * c \<le> b" .
next
  assume "a * c \<le> b"
  then have "a * c div c \<le> b div c" using assms by (intro zdiv_mono1)
  then show "a \<le> b div c" using assms by simp
qed

text \<open>The condition under which \<^verbatim>\<open>Start\<close> pauses the template instead of requeueing the item.\<close>

definition pauses :: "WorkQueue \<Rightarrow> WorkItem \<Rightarrow> bool" where
  "pauses wq w \<longleftrightarrow> MaxRetryCycles wq > 0 \<and> RetryCycle w \<ge> MaxRetryCycles wq"

lemma handle_item_queue:
  "\<exists>now. wqueue (snd (run_state (handle_item P p) s)) =
     (case fst (run_state (processItem P (item_NamespacedName (store (wqueue s) p))) s) of
        None \<Rightarrow> Done (wqueue s) p
      | Some err \<Rightarrow> if pauses (wqueue s) (store (wqueue s) p) then Done (wqueue s) p
          else Requeue (wqueue s) p now)"
proof -
  let ?nn = "item_NamespacedName (store (wqueue s) p)"
  obtain r s1 where 1: "run_state (processItem P ?nn) s = (r, s1)" by force
  have q1: "wqueue s1 = wqueue s" using processItem_queue [of P ?nn s] 1 by simp
  have pz: "run_state (pause_template P nn n err) s1 = (u, s2) \<Longrightarrow> wqueue s2 = wqueue s" for nn n err u s2
    using keeps_run(1) [OF keeps_worker(3) [OF world_free_queue], of s1 "wqueue s" P nn n err] q1 by simp
  show ?thesis
    using 1 q1
    by (auto simp: handle_item_def pauses_def Let_def split: option.split prod.split dest: pz)
qed



end
