(* ===== verification/Reconciler_Properties.thy ===== *)
theory Reconciler_Properties
  imports Template_Reconciler Worker_Properties
begin

text \<open>
  Which templates the controller hands to the workers, what the periodic check applies, and how it
  meets the worker's decisions.
\<close>

section \<open>Enqueueing\<close>

text \<open>\<^verbatim>\<open>RetryOnConflict\<close>: up to \<open>n + 1\<close> calls, going on only after a conflict.\<close>

fun retry_loop :: "nat \<Rightarrow> ('s, go_error option) state \<Rightarrow> ('s, go_error option) state" where
  "retry_loop 0 f = f"
| "retry_loop (Suc n) f = do {
     r \<leftarrow> f;
     (case r of
        None \<Rightarrow> State_Monad.return None
      | Some err \<Rightarrow> if IsConflict err then retry_loop n f else State_Monad.return (Some err))
   }"

definition retry_ok :: "('w, 'u, 'v, 'h) KubeTemplateReconciler \<Rightarrow> bool" where
  "retry_ok R \<longleftrightarrow> (\<forall>f. \<exists>n. r_Retry R f = retry_loop n f)"

text \<open>The templates that \<^verbatim>\<open>Reconcile\<close> means to hand to the workers.\<close>

definition spec_changed where
  "spec_changed R kt \<longleftrightarrow> st_AppliedSpecHash (kt_Status kt) \<noteq> '''' \<and>
     calculateSpecHash (r_Hash R) (kt_Spec kt) \<noteq> st_AppliedSpecHash (kt_Status kt)"

definition should_enqueue where
  "should_enqueue R kt \<longleftrightarrow>
     (let phase = st_ProcessingPhase (kt_Status kt)
      in if phase = ''Paused'' then wants_resume kt
         else if phase = ''Failed'' \<or> phase = ''Completed'' then spec_changed R kt
         else True)"

lemma hash_agree: "reconciler_calculateSpecHash H spec = calculateSpecHash H spec"
  by (simp add: reconciler_calculateSpecHash_def calculateSpecHash_def)

text \<open>
  The outcomes of handing over: either the name is queued and the result is the zero result, or
  the queue is untouched.
\<close>

definition handed_over :: "NamespacedName \<Rightarrow> WorkQueue \<Rightarrow> reconcile_outcome \<Rightarrow> WorkQueue \<Rightarrow> bool" where
  "handed_over nn wq out wq' \<longleftrightarrow>
     (if out = Reconciled result_zero None
      then Contains wq' nn \<and> (\<forall>m. m \<noteq> nn \<longrightarrow> Contains wq' m = Contains wq m)
      else wq' = wq \<and> out \<noteq> ReconcilePanics)"

lemma enqueue_handed_over:
  assumes "queue_inv (wqueue s) held"
  shows "handed_over nn (wqueue s) (fst (run_state (enqueue_and_return R nn) s))
      (wqueue (snd (run_state (enqueue_and_return R nn) s))) \<and>
    queue_inv (wqueue (snd (run_state (enqueue_and_return R nn) s))) held"
proof -
  obtain t1 w1 where 1: "w_Now (r_Client R) (world s) = (t1, w1)" by force
  obtain t2 w2 where 2: "w_Now (r_Client R) w1 = (t2, w2)" by force
  obtain wq' where "Enqueue (wqueue s) nn 0 t1 t2 = Some wq'" "queue_inv wq' held"
      "\<forall>m. Contains wq' m = (m = nn \<or> Contains (wqueue s) m)"
    using wqp.enq_law [OF assms, of nn 0 t1 t2] by auto
  then show ?thesis by (simp add: enqueue_and_return_def handed_over_def 1 2)
qed

lemma requeue_handed_over:
  assumes ok: "client_ok (r_Client R)" and inv: "queue_inv (wqueue s) held" and kt: "kt_name kt = nn"
  shows "handed_over nn (wqueue s) (fst (run_state (requeue_template R kt) s))
      (wqueue (snd (run_state (requeue_template R kt) s))) \<and>
    queue_inv (wqueue (snd (run_state (requeue_template R kt) s))) held"
proof -
  obtain e k w where u: "w_StatusUpdate (r_Client R) kt (world s) = ((e, k), w)" by (metis prod.exhaust)
  have k: "kt_name k = nn" using client_okD(3) [OF ok, of kt "world s" e k] u kt by simp
  let ?s = "s\<lparr>world := w, trace := trace s @ [CStatusUpdate kt e]\<rparr>"
  have r: "run_state (requeue_template R kt) s =
      (case e of
         Some err \<Rightarrow> if \<not> IsConflict err then (Reconciled result_zero (Some err), ?s)
           else run_state (enqueue_and_return R nn) ?s
       | None \<Rightarrow> run_state (enqueue_and_return R nn) ?s)"
    by (simp add: requeue_template_def client_StatusUpdate_def run_do_call u k split: option.split)
  have "queue_inv (wqueue ?s) held" using inv by simp
  from enqueue_handed_over [OF this, of nn R] show ?thesis
    using inv unfolding r by (auto simp: handed_over_def split: option.split)
qed

lemma keeps_retry_loop: "keeps I (\<lambda>_. True) f \<Longrightarrow> keeps I (\<lambda>_. True) (retry_loop n f)"
  by (induction n) (auto intro!: keeps_rules)

lemma keeps_mark_queued:
  fixes R :: "('w, 'u, 'v, 'h) KubeTemplateReconciler"
  shows "keeps (queue_is q :: ('w, 'u, 'x) sys_scheme \<Rightarrow> bool) (\<lambda>_. True) (mark_queued R req)"
  unfolding mark_queued_def by (auto intro!: keeps_queue)

lemma keeps_apply_resources:
  fixes R :: "('w, 'u, 'v, 'h) KubeTemplateReconciler"
  shows "keeps (queue_is q :: ('w, 'u, 'x) sys_scheme \<Rightarrow> bool) (\<lambda>_. True) (apply_resources R n d ts)"
proof (induction ts arbitrary: n d)
  case Nil
  then show ?case by (simp add: keeps_return)
next
  case (Cons t ts)
  have g: "keeps (queue_is q :: ('w, 'u, 'x) sys_scheme \<Rightarrow> bool) (\<lambda>_. True)
      (client_GetObject (r_Client R) gvk nn)" for gvk nn
    by (auto simp: client_GetObject_def intro: keeps_call)
  have "keeps (queue_is q :: ('w, 'u, 'x) sys_scheme \<Rightarrow> bool) (\<lambda>_. True) (apply_resource R t)"
    unfolding apply_resource_def correct_object_def Let_def by (auto intro!: keeps_queue g)
  then show ?case using Cons by (auto intro: keeps_bind_any)
qed

lemma periodic_queue:
  fixes R :: "('w, 'u, 'v, 'h) KubeTemplateReconciler" and s :: "('w, 'u, 'x) sys_scheme"
  shows "wqueue (snd (run_state (reconcile_periodic R kt) s)) = wqueue s"
  "fst (run_state (reconcile_periodic R kt) s) =
     Reconciled (requeue_after (PeriodicReconcileInterval R)) None"
proof -
  have "keeps (queue_is q :: ('w, 'u, 'x) sys_scheme \<Rightarrow> bool) (\<lambda>out. out = Reconciled (requeue_after (PeriodicReconcileInterval R)) None)
      (reconcile_periodic R kt)" for q
    unfolding reconcile_periodic_def applyTemplateResources_def Let_def
    by (auto intro!: keeps_queue keeps_apply_resources)
  from keeps_run [OF this, of s "wqueue s"]
  show "wqueue (snd (run_state (reconcile_periodic R kt) s)) = wqueue s"
    "fst (run_state (reconcile_periodic R kt) s) =
       Reconciled (requeue_after (PeriodicReconcileInterval R)) None"
    by simp_all
qed

text \<open>A computation that may hand over the template, from any queue that satisfies the invariant.\<close>

definition hands_over where
  "hands_over nn held m \<longleftrightarrow> (\<forall>s. queue_inv (wqueue s) held \<longrightarrow>
     handed_over nn (wqueue s) (fst (run_state m s)) (wqueue (snd (run_state m s))) \<and>
     queue_inv (wqueue (snd (run_state m s))) held)"

lemma hands_overD:
  assumes "hands_over nn held m" and "queue_inv (wqueue s) held" and "run_state m s = (out, s')"
  shows "handed_over nn (wqueue s) out (wqueue s') \<and> queue_inv (wqueue s') held"
  using assms unfolding hands_over_def by (metis fst_conv snd_conv)

lemma hands_over_after_now:
  fixes f :: "time \<Rightarrow> (('w, 'u, 'x) sys_scheme, reconcile_outcome) state"
  assumes "\<And>now. hands_over nn held (f now)"
  shows "hands_over nn held (time_Now W \<bind> f)"
  unfolding hands_over_def
proof (intro allI impI)
  fix s :: "('w, 'u, 'x) sys_scheme" assume "queue_inv (wqueue s) held"
  then show "handed_over nn (wqueue s) (fst (run_state (time_Now W \<bind> f) s))
      (wqueue (snd (run_state (time_Now W \<bind> f) s))) \<and>
    queue_inv (wqueue (snd (run_state (time_Now W \<bind> f) s))) held"
    using assms [of "fst (w_Now W (world s))"]
    unfolding hands_over_def
    by (auto dest!: spec [of _ "s\<lparr>world := snd (w_Now W (world s))\<rparr>"])
qed

lemma hands_over_requeue:
  assumes "client_ok (r_Client R)" and "kt_name kt = nn"
  shows "hands_over nn held (requeue_template R kt)"
  unfolding hands_over_def by (intro allI impI requeue_handed_over [OF assms(1) _ assms(2)])

lemma hands_over_pending:
  fixes R :: "('w, 'u, 'v, 'h) KubeTemplateReconciler"
  assumes "retry_ok R"
  shows "hands_over (kt_name kt) held (reconcile_pending R req kt)"
proof (cases "st_ProcessingPhase (kt_Status kt) = ''''")
  case False
  then have "reconcile_pending R req kt = enqueue_and_return R (kt_name kt)"
    by (simp add: reconcile_pending_def)
  then show ?thesis unfolding hands_over_def by (simp add: enqueue_handed_over)
next
  case True
  show ?thesis
    unfolding hands_over_def
  proof (intro allI impI)
    fix s :: "('w, 'u) sys" assume inv: "queue_inv (wqueue s) held"
    obtain n where n: "r_Retry R (mark_queued R req) = retry_loop n (mark_queued R req)"
      using assms unfolding retry_ok_def by blast
    obtain e s1 where 1: "run_state (r_Retry R (mark_queued R req)) s = (e, s1)" by force
    have q: "wqueue s1 = wqueue s"
      using keeps_run(1) [OF keeps_retry_loop [OF keeps_mark_queued], of s "wqueue s" n R req] 1 n
      by simp
    show "handed_over (kt_name kt) (wqueue s) (fst (run_state (reconcile_pending R req kt) s))
        (wqueue (snd (run_state (reconcile_pending R req kt) s))) \<and>
      queue_inv (wqueue (snd (run_state (reconcile_pending R req kt) s))) held"
    proof (cases e)
      case None
      then show ?thesis
        using True 1 q inv enqueue_handed_over [of s1 held "kt_name kt" R]
        by (simp add: reconcile_pending_def)
    next
      case (Some err)
      then show ?thesis
        using True 1 q inv
        by (simp add: reconcile_pending_def handed_over_def requeue_after_def result_zero_def
            duration_defs)
    qed
  qed
qed

definition ex_equality :: "string equality_api" where
  "ex_equality = \<lparr>eq_Value = (\<lambda>a b. a = b), eq_Spec = (\<lambda>a b. a = b), eq_Map = (\<lambda>a b. a = b)\<rparr>"

definition ex_R :: "(ex_world, ex_obj, string, string) KubeTemplateReconciler" where
  "ex_R = \<lparr>r_Client = ex_W, r_Unst = ex_U, r_Hash = ex_hash, r_Equality = ex_equality,
     r_Retry = retry_loop 3, PeriodicReconcileInterval = Minute\<rparr>"

lemma ex_R_sel [simp]:
  "r_Client ex_R = ex_W" "r_Unst ex_R = ex_U" "r_Equality ex_R = ex_equality"
  by (simp_all add: ex_R_def)

lemma ex_retry_ok: "retry_ok ex_R"
  by (auto simp: retry_ok_def ex_R_def)

text \<open>
  C6: \<^verbatim>\<open>Reconcile\<close> hands a template to the workers exactly in the phases that call for it: a new,
  queued or processing template, a paused one that asks to be resumed, a failed or completed one
  whose spec hash changed. For these it either returns the zero result with the name queued (and no
  other name touched), or reports an error or a later try with the queue untouched. In every other
  case the queue is untouched. It never panics and keeps the queue invariant.
\<close>

theorem Reconcile_hands_over:
  fixes s :: "('w, 'u) sys"
  assumes ok: "client_ok (r_Client R)" and retry: "retry_ok R" and inv: "queue_inv (wqueue s) held"
    and got: "w_GetTemplate (r_Client R) req zero_template (world s) = ((None, kt), w)"
    and run: "run_state (Reconcile R req) s = (out, s')"
  shows "queue_inv (wqueue s') held \<and>
    (if should_enqueue R kt then handed_over req (wqueue s) out (wqueue s')
     else wqueue s' = wqueue s \<and> out \<noteq> ReconcilePanics)"
proof -
  let ?phase = "st_ProcessingPhase (kt_Status kt)"
  let ?m = "if ?phase = ''Paused'' then reconcile_paused R kt
      else if ?phase = ''Failed'' then reconcile_failed R kt
      else if ?phase = ''Completed'' then reconcile_completed R kt else reconcile_pending R req kt"
  let ?s = "s\<lparr>world := w, trace := trace s @ [CGetTemplate req None]\<rparr>"
  have n: "kt_name kt = req" using client_okD(1) [OF ok, of req zero_template "world s" kt] got by simp
  have r: "run_state ?m ?s = (out, s')"
    using run by (simp add: Reconcile_def client_GetTemplate_def run_do_call got Let_def)
  have inv': "queue_inv (wqueue ?s) held" using inv by simp
  note rules = hands_over_after_now hands_over_requeue [OF ok]
  show ?thesis
  proof (cases "should_enqueue R kt")
    case True
    then have "hands_over req held ?m"
      using n hands_over_pending [OF retry, of kt held req]
      by (auto simp: should_enqueue_def spec_changed_def reconcile_paused_def reconcile_failed_def
          reconcile_completed_def hash_agree Let_def intro!: rules split: if_splits)
    from hands_overD [OF this inv' r] show ?thesis using True by simp
  next
    case False
    then have "wqueue (snd (run_state ?m ?s)) = wqueue ?s \<and> fst (run_state ?m ?s) \<noteq> ReconcilePanics"
      by (auto simp: should_enqueue_def spec_changed_def reconcile_paused_def reconcile_failed_def
          reconcile_completed_def hash_agree periodic_queue client_StatusUpdate_def run_do_call
          Let_def split: if_splits)
    then show ?thesis using False r inv' by simp
  qed
qed

theorem Reconcile_hands_over_witness:
  "Contains (wqueue (snd (run_state (Reconcile ex_R ex_n) (ex_sys [''configmap''])))) ex_n \<and>
    queue_inv (wqueue (snd (run_state (Reconcile ex_R ex_n) (ex_sys [''configmap''])))) {0}"
proof -
  let ?s = "ex_sys [''configmap'']" and ?kt = "ex_kt [''configmap'']"
  obtain out s' where run: "run_state (Reconcile ex_R ex_n) ?s = (out, s')" by force
  have out: "fst (run_state (Reconcile ex_R ex_n) ?s) = Reconciled result_zero None" by code_simp
  have inv: "queue_inv (wqueue ?s) {0}" using ex_inv(3) by (simp add: ex_sys_def)
  have got: "w_GetTemplate (r_Client ex_R) ex_n zero_template (world ?s) = ((None, ?kt), world ?s)"
    by (simp add: ex_W_def ex_sys_def ex_cluster_def ex_kt_def ex_meta_def meta_name_def ex_n_def)
  have should: "should_enqueue ex_R ?kt"
    by (simp add: should_enqueue_def ex_kt_def zero_template_def zero_status_def)
  show ?thesis
    using Reconcile_hands_over [OF _ ex_retry_ok inv got run] ex_client_ok should out run
    by (simp add: handed_over_def)
qed

section \<open>Drift\<close>

text \<open>What \<^verbatim>\<open>Semantic.DeepEqual\<close> documents, as far as needed: it is an equivalence.\<close>

definition equality_ok :: "'v equality_api \<Rightarrow> bool" where
  "equality_ok E \<longleftrightarrow> (\<forall>v. eq_Value E v v) \<and> (\<forall>v v'. eq_Value E v v' \<longrightarrow> eq_Value E v' v) \<and>
     (\<forall>x. eq_Spec E x x) \<and> (\<forall>m. eq_Map E m m)"

text \<open>
  Drift is decided by the fields \<^verbatim>\<open>spec\<close> and \<^verbatim>\<open>data\<close> alone, and by \<^verbatim>\<open>data\<close> only when neither object has
  a \<^verbatim>\<open>spec\<close>. It is symmetric, an object does not drift from itself, and objects that agree on both
  fields never drift, whatever else differs (\<^verbatim>\<open>stringData\<close>, \<^verbatim>\<open>binaryData\<close>, \<^verbatim>\<open>rules\<close>, labels).
\<close>

lemma hasDrift_spec_and_data_only:
  assumes "equality_ok E"
  shows "\<not> hasDrift U E u u \<and> hasDrift U E u v = hasDrift U E v u \<and>
    (nested_field U u ''spec'' = nested_field U v ''spec'' \<longrightarrow>
     nested_field U u ''data'' = nested_field U v ''data'' \<longrightarrow> \<not> hasDrift U E u v) \<and>
    (nested_field U u ''spec'' \<noteq> None \<longrightarrow> nested_field U u ''spec'' = nested_field U v ''spec'' \<longrightarrow>
     \<not> hasDrift U E u v)"
  using assms unfolding hasDrift_def equality_ok_def by (auto split: option.split)

lemma hasDrift_spec_and_data_only_witness:
  "\<not> hasDrift ex_U ex_equality ex_configmap ex_configmap \<and>
    \<not> hasDrift ex_U ex_equality ex_configmap ex_applied"
proof -
  have "equality_ok ex_equality" by (simp add: equality_ok_def ex_equality_def)
  moreover have "nested_field ex_U ex_configmap ''spec'' = nested_field ex_U ex_applied ''spec'' \<and>
      nested_field ex_U ex_configmap ''data'' = nested_field ex_U ex_applied ''data''"
    by code_simp
  ultimately show ?thesis
    using hasDrift_spec_and_data_only [of ex_equality ex_U ex_configmap ex_applied] by blast
qed

text \<open>
  The calls the periodic check makes for one object, from the answers to its get and its dry run.
\<close>

definition expected_calls where
  "expected_calls R obj current dryErr dryObj e =
     (let U = r_Unst R
      in [CGetObject (u_GroupVersionKind U obj) \<lparr>Namespace = u_GetNamespace U obj, Name = u_GetName U obj\<rparr>,
          CPatch dry_run_options obj dryErr] @
         (if dryErr = None \<and>
             (case current of
                Inr cur \<Rightarrow> hasDrift U (r_Equality R) cur dryObj
              | Inl err \<Rightarrow> IsNotFound err)
          then [CPatch correct_options obj e] else []))"

text \<open>
  C31: The periodic check writes an object for real exactly when its dry run succeeded and the object is
  missing or drifts from what the dry run says it should be; the write is the template's object
  as it stands. An object counts as synced exactly when the dry run succeeded and either
  no write was needed (the object was read) or the write succeeded.
\<close>

theorem apply_resource_writes_on_drift:
  assumes obj: "u_Unmarshal (r_Unst R) (tpl_Object t) = Inr obj"
    and get: "w_GetObject (r_Client R) (u_GroupVersionKind (r_Unst R) obj)
      \<lparr>Namespace = u_GetNamespace (r_Unst R) obj, Name = u_GetName (r_Unst R) obj\<rparr> (world s) = (current, w1)"
    and dry: "w_Patch (r_Client R) dry_run_options obj w1 = ((dryErr, dryObj), w2)"
    and real: "w_Patch (r_Client R) correct_options obj w2 = ((e, obj'), w3)"
  shows "trace (snd (run_state (apply_resource R t) s)) =
      trace s @ expected_calls R obj current dryErr dryObj e \<and>
    fst (fst (run_state (apply_resource R t) s)) =
      (dryErr = None \<and>
       (case current of
          Inr cur \<Rightarrow> hasDrift (r_Unst R) (r_Equality R) cur dryObj \<longrightarrow> e = None
        | Inl err \<Rightarrow> IsNotFound err \<and> e = None))"
  using assms
  by (cases dryErr; cases current)
    (auto simp: apply_resource_def correct_object_def expected_calls_def client_GetObject_def
      client_Patch_def run_do_call Let_def)

theorem apply_resource_writes_on_drift_witness:
  "trace (snd (run_state (apply_resource ex_R (ex_tpl ''configmap'')) (ex_sys [''configmap'']))) =
     expected_calls ex_R ex_configmap (Inl not_found) None ex_configmap None"
proof -
  let ?w = "ex_cluster [''configmap'']"
  have "u_Unmarshal (r_Unst ex_R) (tpl_Object (ex_tpl ''configmap'')) = Inr ex_configmap"
    by (simp add: ex_U_def ex_tpl_def)
  moreover have "w_GetObject (r_Client ex_R) (u_GroupVersionKind (r_Unst ex_R) ex_configmap)
      \<lparr>Namespace = u_GetNamespace (r_Unst ex_R) ex_configmap, Name = u_GetName (r_Unst ex_R) ex_configmap\<rparr>
      (world (ex_sys [''configmap''])) = (Inl not_found, ?w)"
    by (simp add: ex_W_def ex_sys_def ex_cluster_def)
  moreover have "w_Patch (r_Client ex_R) dry_run_options ex_configmap ?w = ((None, ex_configmap), ?w)"
    by (simp add: ex_W_def dry_run_options_def)
  moreover have "w_Patch (r_Client ex_R) correct_options ex_configmap ?w =
      ((None, ex_configmap), ?w\<lparr>ew_objects := [ex_configmap]\<rparr>)"
    by (simp add: ex_W_def correct_options_def ex_cluster_def)
  ultimately show ?thesis
    using apply_resource_writes_on_drift [of ex_R "ex_tpl ''configmap''" ex_configmap "ex_sys [''configmap'']"]
    by (simp add: ex_sys_def)
qed

section \<open>The update predicate\<close>

text \<open>
  An update that changes neither spec, nor annotations, nor labels does not trigger the controller;
  so no status update of the worker or of the controller does.
\<close>

lemma status_updates_ignored:
  assumes "equality_ok E" and "kt_Spec new = kt_Spec old"
    and "md_Annotations (kt_Meta new) = md_Annotations (kt_Meta old)"
    and "md_Labels (kt_Meta new) = md_Labels (kt_Meta old)"
  shows "\<not> UpdateFunc E (WatchedTemplate old) (WatchedTemplate new)"
  using assms by (simp add: UpdateFunc_def equality_ok_def)

lemma status_updates_ignored_witness:
  "\<not> UpdateFunc ex_equality (WatchedTemplate (ex_kt [])) (WatchedTemplate (set_paused ''x'' 1 (ex_kt [])))"
  by (rule status_updates_ignored) (simp_all add: equality_ok_def ex_equality_def set_paused_def)

section \<open>Worker and periodic check together\<close>

text \<open>A template for a Secret in another namespace, after the worker has processed it.\<close>

definition ex_rejected :: "(ex_world, ex_obj) sys" where
  "ex_rejected = snd (run_state (processItem ex_P ex_n) (ex_sys [''secret'']))"


end
