(* ===== verification/Webhook_Validator.thy ===== *)
theory Webhook_Validator
  imports Policy_Cache
begin

text \<open>
  The admission webhook of \<^verbatim>\<open>internal/webhook/kubetemplate_webhook.go\<close>: the checks of a KubeTemplate
  against the policy of its namespace, the five kinds of field validation and the cache of
  compiled regular expressions.
\<close>

section \<open>State and parameters\<close>

definition maxTemplatesPerKubeTemplate :: int where "maxTemplatesPerKubeTemplate = 50"
definition maxTemplateSizeBytes :: int where "maxTemplateSizeBytes = 1 * 1024 * 1024"
definition celEvaluationTimeout :: duration where "celEvaluationTimeout = 100 * Millisecond"

text \<open>The cache of compiled patterns, a nil map (\<open>None\<close>) at first.\<close>

record ('w, 'u, 're) webhook_state = "('w, 'u) cached" +
  regexCache :: "(string, 're) mapping option"

record ('w, 'u, 'v, 'h, 're) KubeTemplateValidator =
  v_Client :: "('w, 'u, 'v, 'h) world_api"
  v_Unst :: "('u, 'v) unstructured_api"
  v_Cel :: "('h, 'v) cel_api"
  v_Regexp :: "'re regexp_api"
  v_OperatorNamespace :: string

section \<open>Strings\<close>

text \<open>\<^verbatim>\<open>strings.Split\<close> with a one-character separator, and the verb \<^verbatim>\<open>%v\<close> for a slice of strings.\<close>

fun strings_Split :: "string \<Rightarrow> char \<Rightarrow> string list" where
  "strings_Split [] sep = [[]]"
| "strings_Split (c # cs) sep =
     (if c = sep then [] # strings_Split cs sep
      else (case strings_Split cs sep of [] \<Rightarrow> [[c]] | k # ks \<Rightarrow> (c # k) # ks))"

fun strings_Join :: "string list \<Rightarrow> char \<Rightarrow> string" where
  "strings_Join [] sep = []"
| "strings_Join [k] sep = k"
| "strings_Join (k # ks) sep = k @ sep # strings_Join ks sep"

definition show_strings :: "string list \<Rightarrow> string" where
  "show_strings vs = ''['' @ strings_Join vs (CHR '' '') @ '']''"

definition quoted :: "string \<Rightarrow> string" where
  "quoted s = CHR 0x27 # s @ [CHR 0x27]"

definition fieldPathToKeys :: "string \<Rightarrow> string list" where
  "fieldPathToKeys fieldPath = strings_Split fieldPath (CHR ''.'')"

definition template_prefix :: "nat \<Rightarrow> string" where
  "template_prefix idx = ''template['' @ itoa (int idx) @ '']''"

definition field_prefix :: "nat \<Rightarrow> string \<Rightarrow> string" where
  "field_prefix idx name = template_prefix idx @ '': fieldValidation ('' @ name @ '')''"

section \<open>CEL\<close>

definition validateCELRule where
  "validateCELRule V rule obj templateIdx validationName varNameAndValue =
     (let U = v_Unst V; C = v_Cel V;
          gvkStr = gvk_String U (u_GroupVersionKind U obj);
          varName = (case varNameAndValue of
              Some (name, _) \<Rightarrow> if name \<noteq> '''' then name else ''object'' | None \<Rightarrow> ''object'');
          varValue = (case varNameAndValue of Some (_, val) \<Rightarrow> val | None \<Rightarrow> u_Object U obj);
          varType = (if varNameAndValue \<noteq> None \<and> varName = ''value'' then TDyn else TMapStringDyn);
          errPrefix = (if validationName \<noteq> '''' then field_prefix templateIdx validationName
                       else template_prefix templateIdx);
          failed = (\<lambda>what err. State_Monad.return (Some (wrapf (errPrefix @ '': failed to '' @ what @ '': '') err)))
      in case cel_NewEnv C varName varType of
           Inl err \<Rightarrow> failed ''create CEL environment'' err
         | Inr env \<Rightarrow>
        (case cel_Parse C env rule of
           Inl err \<Rightarrow> failed ''parse CEL rule'' err
         | Inr parsed \<Rightarrow>
        (case cel_Check C env parsed of
           Inl err \<Rightarrow> failed ''check CEL rule'' err
         | Inr checked \<Rightarrow>
        (case cel_Program C env checked [CostTracking, CostLimit 1000000] of
           Inl err \<Rightarrow> failed ''create CEL program'' err
         | Inr prg \<Rightarrow> do {
             r \<leftarrow> cel_ContextEval (v_Client V) celEvaluationTimeout prg varName varValue;
             (case r of
                Inl err \<Rightarrow> failed ''evaluate CEL rule'' err
              | Inr out \<Rightarrow>
                  if out \<noteq> OutBool True
                  then State_Monad.return (Some (Errorf (errPrefix @ '': resource '' @ gvkStr @ ''/'' @
                    u_GetName U obj @ '' failed CEL validation rule: '' @ rule)))
                  else State_Monad.return None)
           }))))"

section \<open>Field validations\<close>

text \<open>The error of a failed validation: the policy's message if it has one, else the default.\<close>

definition failure_message :: "FieldValidation \<Rightarrow> nat \<Rightarrow> string \<Rightarrow> go_error" where
  "failure_message v idx msg =
     Errorf (field_prefix idx (fv_Name v) @ '': '' @ (if fv_Message v \<noteq> '''' then fv_Message v else msg))"

definition field_error :: "FieldValidation \<Rightarrow> nat \<Rightarrow> string \<Rightarrow> go_error" where
  "field_error v idx msg = Errorf (field_prefix idx (fv_Name v) @ '': '' @ msg)"

definition get_error :: "FieldValidation \<Rightarrow> nat \<Rightarrow> string \<Rightarrow> go_error \<Rightarrow> go_error" where
  "get_error v idx asType err =
     wrapf (field_prefix idx (fv_Name v) @ '': failed to get field '' @ fv_FieldPath v @ asType @ '': '') err"

definition validateFieldCEL where
  "validateFieldCEL V validation obj templateIdx =
     (if fv_CEL validation = ''''
      then State_Monad.return (Some (field_error validation templateIdx
             (''CEL expression is required for type '' @ quoted ''cel'')))
      else
        let binding =
          (if fv_FieldPath validation = '''' \<or> fv_FieldPath validation = ''object''
           then Inr (''object'', u_Object (v_Unst V) obj)
           else (case u_NestedFieldCopy (v_Unst V) obj (fieldPathToKeys (fv_FieldPath validation)) of
                   Inl err \<Rightarrow> Inl err
                 | Inr None \<Rightarrow> Inr (''value'', INil)
                 | Inr (Some fieldValue) \<Rightarrow> Inr (''value'', fieldValue)))
        in case binding of
             Inl err \<Rightarrow> State_Monad.return (Some (get_error validation templateIdx '''' err))
           | Inr nv \<Rightarrow> do {
               r \<leftarrow> validateCELRule V (fv_CEL validation) obj templateIdx (fv_Name validation) (Some nv);
               State_Monad.return
                 (case r of
                    None \<Rightarrow> None
                  | Some err \<Rightarrow>
                      if fv_Message validation \<noteq> ''''
                      then Some (field_error validation templateIdx (fv_Message validation))
                      else Some err)
             })"

text \<open>Look up or compile a pattern; a pattern that compiles is remembered.\<close>

definition get_regex where
  "get_regex V pattern = do {
     s \<leftarrow> State_Monad.get;
     let cached = (case regexCache s of None \<Rightarrow> Mapping.empty | Some m \<Rightarrow> m);
     State_Monad.set (s\<lparr>regexCache := Some cached\<rparr>);
     (case Mapping.lookup cached pattern of
        Some re \<Rightarrow> State_Monad.return (Inr re)
      | None \<Rightarrow>
          (case re_Compile (v_Regexp V) pattern of
             Inl err \<Rightarrow> State_Monad.return (Inl err)
           | Inr re \<Rightarrow> do {
               s \<leftarrow> State_Monad.get;
               State_Monad.set (s\<lparr>regexCache := Some (Mapping.update pattern re cached)\<rparr>);
               State_Monad.return (Inr re)
             }))
   }"

definition validateFieldRegex where
  "validateFieldRegex V validation obj templateIdx =
     (if fv_Regex validation = ''''
      then State_Monad.return (Some (field_error validation templateIdx
             (''regex pattern is required for type '' @ quoted ''regex'')))
      else if fv_FieldPath validation = ''''
      then State_Monad.return (Some (field_error validation templateIdx
             (''fieldPath is required for type '' @ quoted ''regex'')))
      else case u_NestedString (v_Unst V) obj (fieldPathToKeys (fv_FieldPath validation)) of
          Inl err \<Rightarrow> State_Monad.return (Some (get_error validation templateIdx '''' err))
        | Inr None \<Rightarrow> State_Monad.return (Some (field_error validation templateIdx
            (''field '' @ fv_FieldPath validation @ '' not found'')))
        | Inr (Some fieldValue) \<Rightarrow> do {
            r \<leftarrow> get_regex V (fv_Regex validation);
            State_Monad.return
              (case r of
                 Inl err \<Rightarrow> Some (wrapf (field_prefix templateIdx (fv_Name validation) @
                   '': invalid regex pattern '' @ fv_Regex validation @ '': '') err)
               | Inr re \<Rightarrow>
                   if re_MatchString (v_Regexp V) re fieldValue then None
                   else Some (failure_message validation templateIdx
                     (''field '' @ fv_FieldPath validation @ '' value '' @ quoted fieldValue @
                      '' does not match regex pattern '' @ quoted (fv_Regex validation))))
          })"

definition check_max :: "FieldValidation \<Rightarrow> nat \<Rightarrow> int \<Rightarrow> go_error option" where
  "check_max validation templateIdx fieldValue =
     (case fv_Max validation of
        None \<Rightarrow> None
      | Some hi \<Rightarrow>
          if fieldValue > hi
          then Some (failure_message validation templateIdx
            (''field '' @ fv_FieldPath validation @ '' value '' @ itoa fieldValue @
             '' is greater than maximum '' @ itoa hi))
          else None)"

definition validateFieldRange where
  "validateFieldRange V validation obj templateIdx =
     (if fv_FieldPath validation = ''''
      then Some (field_error validation templateIdx (''fieldPath is required for type '' @ quoted ''range''))
      else if fv_Min validation = None \<and> fv_Max validation = None
      then Some (field_error validation templateIdx
             (''at least one of min or max must be specified for type '' @ quoted ''range''))
      else case u_NestedInt64 (v_Unst V) obj (fieldPathToKeys (fv_FieldPath validation)) of
          Inl err \<Rightarrow> Some (get_error validation templateIdx '' as int64'' err)
        | Inr None \<Rightarrow> Some (field_error validation templateIdx
            (''field '' @ fv_FieldPath validation @ '' not found''))
        | Inr (Some fieldValue) \<Rightarrow>
            (case fv_Min validation of
               Some lo \<Rightarrow>
                 if fieldValue < lo
                 then Some (failure_message validation templateIdx
                   (''field '' @ fv_FieldPath validation @ '' value '' @ itoa fieldValue @
                    '' is less than minimum '' @ itoa lo))
                 else check_max validation templateIdx fieldValue
             | None \<Rightarrow> check_max validation templateIdx fieldValue))"

definition validateFieldRequired where
  "validateFieldRequired V validation obj templateIdx =
     (if fv_FieldPath validation = ''''
      then Some (field_error validation templateIdx (''fieldPath is required for type '' @ quoted ''required''))
      else case u_NestedFieldCopy (v_Unst V) obj (fieldPathToKeys (fv_FieldPath validation)) of
          Inl err \<Rightarrow> Some (get_error validation templateIdx '''' err)
        | Inr found \<Rightarrow>
            if found = None \<or> found = Some INil \<or> found = Some (IString '''')
            then Some (failure_message validation templateIdx
              (''required field '' @ fv_FieldPath validation @ '' is missing or empty''))
            else None)"

definition validateFieldForbidden where
  "validateFieldForbidden V validation obj templateIdx =
     (if fv_FieldPath validation = ''''
      then Some (field_error validation templateIdx (''fieldPath is required for type '' @ quoted ''forbidden''))
      else case u_NestedFieldCopy (v_Unst V) obj (fieldPathToKeys (fv_FieldPath validation)) of
          Inl err \<Rightarrow> Some (get_error validation templateIdx '''' err)
        | Inr found \<Rightarrow>
            if found \<noteq> None
            then Some (failure_message validation templateIdx
              (''forbidden field '' @ fv_FieldPath validation @ '' is present''))
            else None)"

definition validate_one where
  "validate_one V validationIdx validation obj templateIdx =
     (case fv_Type validation of
        FieldValidationTypeCEL \<Rightarrow> validateFieldCEL V validation obj templateIdx
      | FieldValidationTypeRegex \<Rightarrow> validateFieldRegex V validation obj templateIdx
      | FieldValidationTypeRange \<Rightarrow> State_Monad.return (validateFieldRange V validation obj templateIdx)
      | FieldValidationTypeRequired \<Rightarrow> State_Monad.return (validateFieldRequired V validation obj templateIdx)
      | FieldValidationTypeForbidden \<Rightarrow> State_Monad.return (validateFieldForbidden V validation obj templateIdx)
      | FieldValidationTypeOther t \<Rightarrow> State_Monad.return (Some (Errorf
          (template_prefix templateIdx @ '': fieldValidation['' @ itoa (int validationIdx) @ ''] ('' @
           fv_Name validation @ ''): unknown validation type: '' @ t))))"

text \<open>The loop of \<^verbatim>\<open>validateFieldValidations\<close> from index \<open>validationIdx\<close> on.\<close>

fun validateFieldValidations_from where
  "validateFieldValidations_from V validationIdx [] obj templateIdx = State_Monad.return None"
| "validateFieldValidations_from V validationIdx (validation # validations) obj templateIdx = do {
     err \<leftarrow> validate_one V validationIdx validation obj templateIdx;
     (case err of
        Some e \<Rightarrow> State_Monad.return (Some e)
      | None \<Rightarrow> validateFieldValidations_from V (validationIdx + 1) validations obj templateIdx)
   }"

definition validateFieldValidations where
  "validateFieldValidations V validations obj templateIdx =
     validateFieldValidations_from V 0 validations obj templateIdx"

section \<open>A KubeTemplate\<close>

fun webhook_contains :: "string list \<Rightarrow> string \<Rightarrow> bool" where
  "webhook_contains [] str = False"
| "webhook_contains (v # vs) str = (if v = str then True else webhook_contains vs str)"

fun webhook_find_rule :: "ValidationRule list \<Rightarrow> GroupVersionKind \<Rightarrow> ValidationRule option" where
  "webhook_find_rule [] gvk = None"
| "webhook_find_rule (rule # rules) gvk =
     (if rule_Kind rule = gvk_Kind gvk \<and> rule_Group rule = gvk_Group gvk \<and>
         rule_Version rule = gvk_Version gvk
      then Some rule else webhook_find_rule rules gvk)"

text \<open>The expression checks of one object against its rule.\<close>

definition validate_rule where
  "validate_rule V rule obj idx = do {
     err \<leftarrow> (if rule_Rule rule \<noteq> '''' then validateCELRule V (rule_Rule rule) obj idx '''' None
            else State_Monad.return None);
     (case err of
        Some e \<Rightarrow> State_Monad.return (Some e)
      | None \<Rightarrow>
          if rule_FieldValidations rule \<noteq> []
          then validateFieldValidations V (rule_FieldValidations rule) obj idx
          else State_Monad.return None)
   }"

text \<open>One template: its error if it has one, and its warning if it has one.\<close>

definition validate_template where
  "validate_template V policy ns idx template =
     (let U = v_Unst V; pre = template_prefix idx; polName = md_Name (pol_Meta policy)
      in if int (length (tpl_Object template)) > maxTemplateSizeBytes
         then State_Monad.return (Some (Errorf (pre @ '': size '' @ itoa (int (length (tpl_Object template))) @
           '' bytes exceeds maximum allowed size of '' @ itoa maxTemplateSizeBytes @ '' bytes'')), None)
         else case u_Unmarshal U (tpl_Object template) of
             Inl err \<Rightarrow> State_Monad.return (Some (wrapf (pre @ '': failed to unmarshal object: '') err), None)
           | Inr raw \<Rightarrow>
          (let obj = (if u_GetNamespace U raw = '''' then u_SetNamespace U ns raw else raw);
               gvk = u_GroupVersionKind U obj; gvkStr = gvk_String U gvk; objNs = u_GetNamespace U obj
           in case webhook_find_rule (pol_ValidationRules (pol_Spec policy)) gvk of
                None \<Rightarrow> State_Monad.return (Some (Errorf (pre @ '': resource type '' @ gvkStr @
                  '' is not allowed by policy '' @ polName)), None)
              | Some rule \<Rightarrow>
                  if rule_TargetNamespaces rule = []
                  then State_Monad.return (Some (Errorf (pre @ '': resource type '' @ gvkStr @
                    '' has no target namespaces defined in policy '' @ polName @
                    ''. At least one target namespace must be specified'')), None)
                  else if \<not> webhook_contains (rule_TargetNamespaces rule) objNs
                  then State_Monad.return (Some (Errorf (pre @ '': resource namespace '' @ objNs @
                    '' is not in the allowed target namespaces '' @ show_strings (rule_TargetNamespaces rule) @
                    '' for resource type '' @ gvkStr)), None)
                  else do {
                    err \<leftarrow> validate_rule V rule obj idx;
                    State_Monad.return
                      (err,
                       if err = None \<and> tpl_Replace template
                       then Some (pre @ '': replace is enabled for '' @ gvkStr @ ''/'' @ u_GetName U obj @
                         ''. The resource will be deleted and recreated if immutable fields are changed'')
                       else None)
                  }))"

fun validate_templates where
  "validate_templates V policy ns idx [] warnings = State_Monad.return (warnings, None)"
| "validate_templates V policy ns idx (template # templates) warnings = do {
     r \<leftarrow> validate_template V policy ns idx template;
     (case r of
        (Some err, _) \<Rightarrow> State_Monad.return (warnings, Some err)
      | (None, None) \<Rightarrow> validate_templates V policy ns (idx + 1) templates warnings
      | (None, Some warning) \<Rightarrow> validate_templates V policy ns (idx + 1) templates (warnings @ [warning]))
   }"

definition validateKubeTemplate where
  "validateKubeTemplate V kt = do {
     pol \<leftarrow> PolicyCache_Get (v_Client V) (md_Namespace (kt_Meta kt)) (v_OperatorNamespace V);
     (case pol of
        Inl err \<Rightarrow> State_Monad.return ([], Some (wrapf ''failed to get policy: '' err))
      | Inr policy \<Rightarrow>
          let templates = spec_Templates (kt_Spec kt)
          in if int (length templates) > maxTemplatesPerKubeTemplate
             then State_Monad.return ([], Some (Errorf (''too many templates: '' @ itoa (int (length templates)) @
               '' (max allowed: '' @ itoa maxTemplatesPerKubeTemplate @ '')'')))
             else validate_templates V policy (md_Namespace (kt_Meta kt)) 0 templates [])
   }"

text \<open>The objects the webhook is called with: a KubeTemplate, or something of another Go type.\<close>

datatype runtime_object = ObjKubeTemplate KubeTemplate | ObjOther string

definition not_a_template :: "string \<Rightarrow> go_error" where
  "not_a_template t = Errorf (''expected a KubeTemplate but got a '' @ t)"

definition ValidateCreate where
  "ValidateCreate V obj =
     (case obj of
        ObjOther t \<Rightarrow> State_Monad.return ([], Some (not_a_template t))
      | ObjKubeTemplate kt \<Rightarrow> validateKubeTemplate V kt)"

definition ValidateUpdate where
  "ValidateUpdate V (oldObj :: runtime_object) newObj =
     (case newObj of
        ObjOther t \<Rightarrow> State_Monad.return ([], Some (not_a_template t))
      | ObjKubeTemplate kt \<Rightarrow> validateKubeTemplate V kt)"

definition ValidateDelete :: "runtime_object \<Rightarrow> string list \<times> go_error option" where
  "ValidateDelete obj = ([], None)"

end
