(* ===== verification/Webhook_Properties.thy ===== *)
theory Webhook_Properties
  imports Webhook_Validator Worker_Properties
begin

text \<open>
  What it means for the webhook to admit a KubeTemplate, that the cache of compiled patterns is
  invisible, and that the worker accepts what the webhook admits.
\<close>

section \<open>A concrete webhook\<close>

definition ex_V :: "(ex_world, ex_obj, string, string, string) KubeTemplateValidator" where
  "ex_V = \<lparr>v_Client = ex_W, v_Unst = ex_U, v_Cel = ex_cel,
     v_Regexp = \<lparr>re_Compile = (\<lambda>p. if p = ''('' then Inl (Errorf ''missing )'') else Inr p),
                 re_MatchString = (\<lambda>re s. take (length re) s = re)\<rparr>,
     v_OperatorNamespace = ''ops''\<rparr>"

definition ex_webhook :: "(ex_world, ex_obj, string) webhook_state" where
  "ex_webhook = \<lparr>world = ex_cluster [''configmap''], trace = [], pcache = NewPolicyCache Minute,
     regexCache = None\<rparr>"

definition ex_pattern :: FieldValidation where
  "ex_pattern = \<lparr>fv_Name = ''name'', fv_FieldPath = ''metadata.name'', fv_Type = FieldValidationTypeRegex,
     fv_CEL = [], fv_Regex = ''set'', fv_Min = None, fv_Max = None, fv_Required = False, fv_Message = []\<rparr>"

section \<open>Paths\<close>

lemma split_nonempty: "strings_Split cs sep \<noteq> []"
  by (induction cs) (auto split: list.split)

lemma join_split: "strings_Join (strings_Split cs sep) sep = cs"
proof (induction cs)
  case Nil
  then show ?case by simp
next
  case (Cons c cs)
  obtain k ks where k: "strings_Split cs sep = k # ks"
    using split_nonempty [of cs sep] by (cases "strings_Split cs sep") auto
  then show ?case using Cons by (cases ks) auto
qed

lemma split_separated: "k \<in> set (strings_Split cs sep) \<Longrightarrow> sep \<notin> set k"
proof (induction cs arbitrary: k)
  case Nil
  then show ?case by simp
next
  case (Cons c cs)
  obtain x xs where x: "strings_Split cs sep = x # xs"
    using split_nonempty [of cs sep] by (cases "strings_Split cs sep") auto
  then show ?case using Cons by (auto split: if_splits)
qed

text \<open>
  A field path is cut into keys without loss: joining the keys with dots gives the path back, no
  key contains a dot, and there is always at least one key.
\<close>

lemma fieldPathToKeys_roundtrip:
  "strings_Join (fieldPathToKeys path) (CHR ''.'') = path \<and> fieldPathToKeys path \<noteq> [] \<and>
   list_all (\<lambda>k. CHR ''.'' \<notin> set k) (fieldPathToKeys path)"
  unfolding fieldPathToKeys_def list_all_iff
  using join_split split_nonempty split_separated by blast

section \<open>Compiled patterns\<close>

definition regex_ok ::
  "('w, 'u, 'v, 'h, 're) KubeTemplateValidator \<Rightarrow> ('w, 'u, 're, 'x) webhook_state_scheme \<Rightarrow> bool" where
  "regex_ok V s \<longleftrightarrow> (\<forall>m pat re. regexCache s = Some m \<longrightarrow> Mapping.lookup m pat = Some re \<longrightarrow>
     re_Compile (v_Regexp V) pat = Inr re)"

lemma get_regex_transparent:
  assumes "regex_ok V s"
  shows "fst (run_state (get_regex V pat) s) = re_Compile (v_Regexp V) pat \<and>
    regex_ok V (snd (run_state (get_regex V pat) s)) \<and>
    (\<exists>m. snd (run_state (get_regex V pat) s) = s\<lparr>regexCache := m\<rparr>)"
  using assms
  by (auto simp: get_regex_def regex_ok_def Let_def Mapping.lookup_update' split: option.splits sum.splits)

text \<open>The check of a pattern without the cache.\<close>

definition regex_reference where
  "regex_reference V validation obj templateIdx =
     (if fv_Regex validation = ''''
      then Some (field_error validation templateIdx (''regex pattern is required for type '' @ quoted ''regex''))
      else if fv_FieldPath validation = ''''
      then Some (field_error validation templateIdx (''fieldPath is required for type '' @ quoted ''regex''))
      else case u_NestedString (v_Unst V) obj (fieldPathToKeys (fv_FieldPath validation)) of
          Inl err \<Rightarrow> Some (get_error validation templateIdx '''' err)
        | Inr None \<Rightarrow> Some (field_error validation templateIdx
            (''field '' @ fv_FieldPath validation @ '' not found''))
        | Inr (Some fieldValue) \<Rightarrow>
            (case re_Compile (v_Regexp V) (fv_Regex validation) of
               Inl err \<Rightarrow> Some (wrapf (field_prefix templateIdx (fv_Name validation) @
                 '': invalid regex pattern '' @ fv_Regex validation @ '': '') err)
             | Inr re \<Rightarrow>
                 if re_MatchString (v_Regexp V) re fieldValue then None
                 else Some (failure_message validation templateIdx
                   (''field '' @ fv_FieldPath validation @ '' value '' @ quoted fieldValue @
                    '' does not match regex pattern '' @ quoted (fv_Regex validation)))))"

text \<open>
  The cache of compiled patterns is invisible: from every state whose cached patterns are the
  compilation of their key (in particular the initial one), checking a pattern with the cache gives
  the answer of compiling it afresh, and touches nothing but the cache, which stays so.
\<close>

lemma regex_cache_transparent:
  assumes "regex_ok V s"
  shows "fst (run_state (validateFieldRegex V validation obj idx) s) = regex_reference V validation obj idx \<and>
    regex_ok V (snd (run_state (validateFieldRegex V validation obj idx) s)) \<and>
    (\<exists>m. snd (run_state (validateFieldRegex V validation obj idx) s) = s\<lparr>regexCache := m\<rparr>)"
proof -
  have same: "\<exists>m. s = s\<lparr>regexCache := m\<rparr>" by (rule exI [of _ "regexCache s"]) simp
  show ?thesis
    using assms same get_regex_transparent [OF assms, of "fv_Regex validation"]
    by (auto simp: validateFieldRegex_def regex_reference_def split: sum.split option.split prod.split)
qed

lemma regex_cache_transparent_witness:
  "fst (run_state (validateFieldRegex ex_V ex_pattern ex_configmap 0) ex_webhook) = None \<and>
    fst (run_state (validateFieldRegex ex_V ex_pattern ex_configmap 0) ex_webhook) =
      regex_reference ex_V ex_pattern ex_configmap 0"
proof
  show "fst (run_state (validateFieldRegex ex_V ex_pattern ex_configmap 0) ex_webhook) = None"
    by code_simp
  have "regex_ok ex_V ex_webhook" by (simp add: regex_ok_def ex_webhook_def)
  from regex_cache_transparent [OF this] show "fst (run_state (validateFieldRegex ex_V ex_pattern ex_configmap 0) ex_webhook) =
      regex_reference ex_V ex_pattern ex_configmap 0"
    by blast
qed

section \<open>Admission\<close>

text \<open>A rule that the evaluator accepts for the given variable, at some moment.\<close>

definition cel_program ::
  "('w, 'u, 'v, 'h, 're) KubeTemplateValidator \<Rightarrow> string \<Rightarrow> string \<Rightarrow> cel_type \<Rightarrow> 'h option" where
  "cel_program V rule var ty =
     (case cel_NewEnv (v_Cel V) var ty of Inl _ \<Rightarrow> None | Inr env \<Rightarrow>
     (case cel_Parse (v_Cel V) env rule of Inl _ \<Rightarrow> None | Inr parsed \<Rightarrow>
     (case cel_Check (v_Cel V) env parsed of Inl _ \<Rightarrow> None | Inr checked \<Rightarrow>
     (case cel_Program (v_Cel V) env checked [CostTracking, CostLimit 1000000] of Inl _ \<Rightarrow> None
      | Inr prg \<Rightarrow> Some prg))))"

definition cel_accepts where
  "cel_accepts V rule var ty val \<longleftrightarrow> (\<exists>prg w. cel_program V rule var ty = Some prg \<and>
     fst (w_ContextEval (v_Client V) celEvaluationTimeout prg var val w) = Inr (OutBool True))"

definition field_ok ::
  "('w, 'u, 'v, 'h, 're) KubeTemplateValidator \<Rightarrow> FieldValidation \<Rightarrow> 'u \<Rightarrow> bool" where
  "field_ok V v obj \<longleftrightarrow>
     (let U = v_Unst V; keys = fieldPathToKeys (fv_FieldPath v)
      in case fv_Type v of
           FieldValidationTypeCEL \<Rightarrow> fv_CEL v \<noteq> '''' \<and>
             (if fv_FieldPath v = '''' \<or> fv_FieldPath v = ''object''
              then cel_accepts V (fv_CEL v) ''object'' TMapStringDyn (u_Object U obj)
              else (\<exists>found. u_NestedFieldCopy U obj keys = Inr found \<and>
                cel_accepts V (fv_CEL v) ''value'' TDyn (case found of None \<Rightarrow> INil | Some val \<Rightarrow> val)))
         | FieldValidationTypeRegex \<Rightarrow> fv_Regex v \<noteq> '''' \<and> fv_FieldPath v \<noteq> '''' \<and>
             (\<exists>val re. u_NestedString U obj keys = Inr (Some val) \<and>
                re_Compile (v_Regexp V) (fv_Regex v) = Inr re \<and> re_MatchString (v_Regexp V) re val)
         | FieldValidationTypeRange \<Rightarrow> fv_FieldPath v \<noteq> '''' \<and>
             (fv_Min v \<noteq> None \<or> fv_Max v \<noteq> None) \<and>
             (\<exists>n. u_NestedInt64 U obj keys = Inr (Some n) \<and>
                (\<forall>lo. fv_Min v = Some lo \<longrightarrow> lo \<le> n) \<and> (\<forall>hi. fv_Max v = Some hi \<longrightarrow> n \<le> hi))
         | FieldValidationTypeRequired \<Rightarrow> fv_FieldPath v \<noteq> '''' \<and>
             (\<exists>val. u_NestedFieldCopy U obj keys = Inr (Some val) \<and> val \<noteq> INil \<and> val \<noteq> IString '''')
         | FieldValidationTypeForbidden \<Rightarrow> fv_FieldPath v \<noteq> '''' \<and>
             u_NestedFieldCopy U obj keys = Inr None
         | FieldValidationTypeOther t \<Rightarrow> False)"

definition object_ok ::
  "('w, 'u, 'v, 'h, 're) KubeTemplateValidator \<Rightarrow> KubeTemplatePolicy \<Rightarrow> 'u \<Rightarrow> bool" where
  "object_ok V pol obj \<longleftrightarrow>
     (\<exists>rule. webhook_find_rule (pol_ValidationRules (pol_Spec pol)) (u_GroupVersionKind (v_Unst V) obj) = Some rule \<and>
        u_GetNamespace (v_Unst V) obj \<in> set (rule_TargetNamespaces rule) \<and>
        (rule_Rule rule \<noteq> '''' \<longrightarrow>
           cel_accepts V (rule_Rule rule) ''object'' TMapStringDyn (u_Object (v_Unst V) obj)) \<and>
        (\<forall>v \<in> set (rule_FieldValidations rule). field_ok V v obj))"

definition template_ok ::
  "('w, 'u, 'v, 'h, 're) KubeTemplateValidator \<Rightarrow> KubeTemplatePolicy \<Rightarrow> string \<Rightarrow> Template \<Rightarrow> bool" where
  "template_ok V pol ns t \<longleftrightarrow> int (length (tpl_Object t)) \<le> 1048576 \<and>
     (\<exists>raw. u_Unmarshal (v_Unst V) (tpl_Object t) = Inr raw \<and>
        object_ok V pol (default_namespace (v_Unst V) ns raw))"

definition webhook_inv ::
  "('w, 'u, 'v, 'h, 're) KubeTemplateValidator \<Rightarrow> ('w, 'u, 're) webhook_state \<Rightarrow> bool" where
  "webhook_inv V s \<longleftrightarrow> source_inv (v_Client V) s \<and> regex_ok V s"

text \<open>
  \<open>decides V r X\<close>: the error \<open>r\<close> is absent only if \<open>X\<close> holds, and, if evaluating an expression does
  not depend on the moment, whenever \<open>X\<close> holds.
\<close>

definition cel_stable :: "('w, 'u, 'v, 'h, 're) KubeTemplateValidator \<Rightarrow> bool" where
  "cel_stable V \<longleftrightarrow> (\<forall>prg var val w w'.
     fst (w_ContextEval (v_Client V) celEvaluationTimeout prg var val w) =
     fst (w_ContextEval (v_Client V) celEvaluationTimeout prg var val w'))"

definition decides ::
  "('w, 'u, 'v, 'h, 're) KubeTemplateValidator \<Rightarrow> go_error option \<Rightarrow> bool \<Rightarrow> bool" where
  "decides V r X \<longleftrightarrow> (r = None \<longrightarrow> X) \<and> (cel_stable V \<longrightarrow> X \<longrightarrow> r = None)"

lemma decides_simps [simp]:
  "decides V None X \<longleftrightarrow> X" "decides V (Some e) X \<longleftrightarrow> (cel_stable V \<longrightarrow> \<not> X)"
  by (auto simp: decides_def)

lemma keeps_ContextEval:
  "keeps (webhook_inv V) (\<lambda>r. \<exists>w. r = fst (w_ContextEval (v_Client V) tmo prg var val w))
     (cel_ContextEval (v_Client V) tmo prg var val)"
  unfolding cel_ContextEval_def by (rule keeps_call) (auto simp: webhook_inv_def regex_ok_def)

lemma cel_accepts_stable:
  assumes "cel_program V rule var ty = Some prg"
    and "r = fst (w_ContextEval (v_Client V) celEvaluationTimeout prg var val w)"
  shows "r = Inr (OutBool True) \<Longrightarrow> cel_accepts V rule var ty val"
    and "cel_stable V \<Longrightarrow> cel_accepts V rule var ty val \<Longrightarrow> r = Inr (OutBool True)"
proof -
  show "r = Inr (OutBool True) \<Longrightarrow> cel_accepts V rule var ty val"
    using assms unfolding cel_accepts_def by auto
  assume st: "cel_stable V" and "cel_accepts V rule var ty val"
  then obtain w' where "fst (w_ContextEval (v_Client V) celEvaluationTimeout prg var val w') = Inr (OutBool True)"
    using assms(1) by (auto simp: cel_accepts_def)
  moreover have "fst (w_ContextEval (v_Client V) celEvaluationTimeout prg var val w) =
      fst (w_ContextEval (v_Client V) celEvaluationTimeout prg var val w')"
    using st unfolding cel_stable_def by blast
  ultimately show "r = Inr (OutBool True)" using assms(2) by simp
qed

lemma keeps_validateCELRule:
  assumes "case nv of None \<Rightarrow> var = ''object'' \<and> ty = TMapStringDyn \<and> val = u_Object (v_Unst V) obj
    | Some (name, x) \<Rightarrow> name \<noteq> '''' \<and> var = name \<and> val = x \<and>
        ty = (if name = ''value'' then TDyn else TMapStringDyn)"
  shows "keeps (webhook_inv V) (\<lambda>r. decides V r (cel_accepts V rule var ty val))
     (validateCELRule V rule obj idx vname nv)"
proof -
  have v: "(case nv of Some (name, _) \<Rightarrow> if name \<noteq> '''' then name else ''object'' | None \<Rightarrow> ''object'') = var"
      "(case nv of Some (_, val) \<Rightarrow> val | None \<Rightarrow> u_Object (v_Unst V) obj) = val"
      "(if nv \<noteq> None \<and> var = ''value'' then TDyn else TMapStringDyn) = ty"
    using assms by (auto split: option.splits)
  have none: "\<not> cel_accepts V rule var ty val" if "cel_program V rule var ty = None"
    using that by (simp add: cel_accepts_def)
  have eval: "keeps (webhook_inv V) (\<lambda>r. decides V r (cel_accepts V rule var ty val))
      (cel_ContextEval (v_Client V) celEvaluationTimeout prg var val \<bind> (\<lambda>r. case r of
         Inl err \<Rightarrow> State_Monad.return (Some (f err))
       | Inr out \<Rightarrow> if out \<noteq> OutBool True then State_Monad.return (Some e) else State_Monad.return None))"
    if p: "cel_program V rule var ty = Some prg" for prg f e
  proof (rule keeps_bind [OF keeps_ContextEval])
    fix r assume "\<exists>w. r = fst (w_ContextEval (v_Client V) celEvaluationTimeout prg var val w)"
    then obtain w where "r = fst (w_ContextEval (v_Client V) celEvaluationTimeout prg var val w)" by blast
    from cel_accepts_stable [OF p this]
    show "keeps (webhook_inv V) (\<lambda>r. decides V r (cel_accepts V rule var ty val)) (case r of
         Inl err \<Rightarrow> State_Monad.return (Some (f err))
       | Inr out \<Rightarrow> if out \<noteq> OutBool True then State_Monad.return (Some e) else State_Monad.return None)"
      by (cases r) (auto intro!: keeps_return)
  qed
  show ?thesis
    unfolding validateCELRule_def Let_def v
    by (intro keeps_split eval keeps_return) (simp_all add: none cel_program_def)
qed

lemma keeps_validateFieldCEL:
  assumes "fv_Type v = FieldValidationTypeCEL"
  shows "keeps (webhook_inv V) (\<lambda>r. decides V r (field_ok V v obj)) (validateFieldCEL V v obj idx)"
proof -
  have wrap: "decides V (case r of None \<Rightarrow> None | Some err \<Rightarrow> if b then Some e else Some err) X = decides V r X"
    for r b e X by (cases r) simp_all
  have rule: "keeps (webhook_inv V)
      (\<lambda>r. decides V r (cel_accepts V (fv_CEL v) name (if name = ''value'' then TDyn else TMapStringDyn) val))
      (validateCELRule V (fv_CEL v) obj idx (fv_Name v) (Some (name, val)))" if "name \<noteq> ''''" for name val
    by (rule keeps_validateCELRule) (use that in simp)
  note obj = rule [of "''object''" "u_Object (v_Unst V) obj"] and val = rule [of "''value''"]
  show ?thesis
    unfolding validateFieldCEL_def Let_def
    using assms
    by (auto simp: field_ok_def wrap split: sum.split option.split
        intro!: keeps_return keeps_bind [OF obj] keeps_bind [OF val])
qed

lemma keeps_validateFieldRegex:
  assumes "fv_Type v = FieldValidationTypeRegex"
  shows "keeps (webhook_inv V) (\<lambda>r. decides V r (field_ok V v obj)) (validateFieldRegex V v obj idx)"
  unfolding keeps_def
proof (intro allI impI)
  fix s assume s: "webhook_inv V s"
  note t = regex_cache_transparent [of V s v obj idx]
  obtain m where m: "snd (run_state (validateFieldRegex V v obj idx) s) = s\<lparr>regexCache := m\<rparr>"
    using t s by (auto simp: webhook_inv_def)
  have "pcache (snd (run_state (validateFieldRegex V v obj idx) s)) = pcache s" unfolding m by simp
  moreover have "decides V (regex_reference V v obj idx) (field_ok V v obj)"
    using assms by (auto simp: regex_reference_def field_ok_def split: sum.split option.split)
  ultimately show "webhook_inv V (snd (run_state (validateFieldRegex V v obj idx) s)) \<and>
      decides V (fst (run_state (validateFieldRegex V v obj idx) s)) (field_ok V v obj)"
    using t s by (simp add: webhook_inv_def)
qed

lemma pure_validations:
  "fv_Type v = FieldValidationTypeRange \<Longrightarrow> decides V (validateFieldRange V v obj idx) (field_ok V v obj)"
  "fv_Type v = FieldValidationTypeRequired \<Longrightarrow> decides V (validateFieldRequired V v obj idx) (field_ok V v obj)"
  "fv_Type v = FieldValidationTypeForbidden \<Longrightarrow> decides V (validateFieldForbidden V v obj idx) (field_ok V v obj)"
  by (auto simp: validateFieldRange_def check_max_def validateFieldRequired_def
      validateFieldForbidden_def field_ok_def split: sum.split option.split)

lemma keeps_validate_one:
  "keeps (webhook_inv V) (\<lambda>r. decides V r (field_ok V v obj)) (validate_one V n v obj idx)"
  using keeps_validateFieldCEL [of v V obj idx] keeps_validateFieldRegex [of v V obj idx]
    pure_validations [of v V obj idx]
  by (cases "fv_Type v") (simp_all add: validate_one_def keeps_return field_ok_def)

lemma keeps_validateFieldValidations:
  "keeps (webhook_inv V) (\<lambda>r. decides V r (\<forall>v \<in> set vs. field_ok V v obj))
     (validateFieldValidations_from V n vs obj idx)"
proof (induction vs arbitrary: n)
  case Nil
  then show ?case by (simp add: keeps_return)
next
  case (Cons v vs)
  show ?case
    unfolding validateFieldValidations_from.simps
  proof (rule keeps_bind [OF keeps_validate_one])
    fix err assume d: "decides V err (field_ok V v obj)"
    show "keeps (webhook_inv V) (\<lambda>r. decides V r (\<forall>v \<in> set (v # vs). field_ok V v obj))
        (case err of Some e \<Rightarrow> State_Monad.return (Some e)
         | None \<Rightarrow> validateFieldValidations_from V (n + 1) vs obj idx)"
      using d Cons [of "n + 1"] by (cases err) (simp_all add: keeps_return)
  qed
qed

lemma keeps_validate_rule:
  "keeps (webhook_inv V) (\<lambda>r. decides V r (
     (rule_Rule rule \<noteq> '''' \<longrightarrow>
        cel_accepts V (rule_Rule rule) ''object'' TMapStringDyn (u_Object (v_Unst V) obj)) \<and>
     (\<forall>v \<in> set (rule_FieldValidations rule). field_ok V v obj)))
     (validate_rule V rule obj idx)"
proof -
  let ?Q = "rule_Rule rule \<noteq> '''' \<longrightarrow>
      cel_accepts V (rule_Rule rule) ''object'' TMapStringDyn (u_Object (v_Unst V) obj)"
  have "keeps (webhook_inv V)
      (\<lambda>r. decides V r (cel_accepts V (rule_Rule rule) ''object'' TMapStringDyn (u_Object (v_Unst V) obj)))
      (validateCELRule V (rule_Rule rule) obj idx '''' None)"
    by (rule keeps_validateCELRule) simp
  then have c: "keeps (webhook_inv V) (\<lambda>r. decides V r ?Q)
      (if rule_Rule rule \<noteq> '''' then validateCELRule V (rule_Rule rule) obj idx '''' None
       else State_Monad.return None)"
    by (auto intro: keeps_return)
  show ?thesis
    unfolding validate_rule_def validateFieldValidations_def
  proof (rule keeps_bind [OF c])
    fix err assume d: "decides V err ?Q"
    have "keeps (webhook_inv V) (\<lambda>r. decides V r (\<forall>v \<in> set (rule_FieldValidations rule). field_ok V v obj))
        (if rule_FieldValidations rule \<noteq> []
         then validateFieldValidations_from V 0 (rule_FieldValidations rule) obj idx
         else State_Monad.return None)"
      using keeps_validateFieldValidations [of V "rule_FieldValidations rule" obj 0 idx]
      by (simp add: keeps_return)
    then show "keeps (webhook_inv V)
        (\<lambda>r. decides V r (?Q \<and> (\<forall>v \<in> set (rule_FieldValidations rule). field_ok V v obj)))
        (case err of Some e \<Rightarrow> State_Monad.return (Some e)
         | None \<Rightarrow> if rule_FieldValidations rule \<noteq> []
             then validateFieldValidations_from V 0 (rule_FieldValidations rule) obj idx
             else State_Monad.return None)"
      using d by (cases err) (auto simp add: keeps_return)
  qed
qed

lemma webhook_contains_set: "webhook_contains vs str \<longleftrightarrow> str \<in> set vs"
  by (induction vs) auto

lemma template_ok_iff:
  "int (length (tpl_Object t)) > maxTemplateSizeBytes \<Longrightarrow> \<not> template_ok V pol ns t"
  "u_Unmarshal (v_Unst V) (tpl_Object t) = Inl e \<Longrightarrow> \<not> template_ok V pol ns t"
  "u_Unmarshal (v_Unst V) (tpl_Object t) = Inr raw \<Longrightarrow> \<not> int (length (tpl_Object t)) > maxTemplateSizeBytes \<Longrightarrow>
     template_ok V pol ns t = object_ok V pol (default_namespace (v_Unst V) ns raw)"
  by (simp_all add: template_ok_def maxTemplateSizeBytes_def)

lemma object_ok_iff:
  assumes "webhook_find_rule (pol_ValidationRules (pol_Spec pol)) (u_GroupVersionKind (v_Unst V) obj) = found"
  shows "found = None \<Longrightarrow> \<not> object_ok V pol obj"
    and "found = Some rule \<Longrightarrow> object_ok V pol obj \<longleftrightarrow>
      webhook_contains (rule_TargetNamespaces rule) (u_GetNamespace (v_Unst V) obj) \<and>
      (rule_Rule rule \<noteq> '''' \<longrightarrow>
         cel_accepts V (rule_Rule rule) ''object'' TMapStringDyn (u_Object (v_Unst V) obj)) \<and>
      (\<forall>v \<in> set (rule_FieldValidations rule). field_ok V v obj)"
  using assms by (simp_all add: object_ok_def webhook_contains_set)

lemma keeps_validate_template:
  "keeps (webhook_inv V) (\<lambda>r. decides V (fst r) (template_ok V pol ns t)) (validate_template V pol ns idx t)"
proof -
  have "keeps (webhook_inv V) (\<lambda>r. decides V (fst r) (object_ok V pol obj))
      (validate_rule V rule obj idx \<bind> (\<lambda>err. State_Monad.return (err, f err)))"
    if "webhook_find_rule (pol_ValidationRules (pol_Spec pol)) (u_GroupVersionKind (v_Unst V) obj) = Some rule"
      "webhook_contains (rule_TargetNamespaces rule) (u_GetNamespace (v_Unst V) obj)" for rule obj f
    by (rule keeps_bind [OF keeps_validate_rule], rule keeps_return)
      (simp add: object_ok_iff(2) [OF that(1) refl] that(2))
  then show ?thesis
    unfolding validate_template_def Let_def default_namespace_def [symmetric]
    by (intro keeps_split keeps_return) (simp_all add: template_ok_iff object_ok_iff)
qed

lemma keeps_validate_templates:
  "keeps (webhook_inv V) (\<lambda>r. decides V (snd r) (\<forall>t \<in> set ts. template_ok V pol ns t))
     (validate_templates V pol ns idx ts ws)"
proof (induction ts arbitrary: idx ws)
  case Nil
  then show ?case by (simp add: keeps_return)
next
  case (Cons t ts)
  show ?case
    unfolding validate_templates.simps
  proof (rule keeps_bind [OF keeps_validate_template])
    fix r :: "go_error option \<times> string option" assume d: "decides V (fst r) (template_ok V pol ns t)"
    show "keeps (webhook_inv V) (\<lambda>r. decides V (snd r) (\<forall>t \<in> set (t # ts). template_ok V pol ns t))
        (case r of (Some err, _) \<Rightarrow> State_Monad.return (ws, Some err)
         | (None, None) \<Rightarrow> validate_templates V pol ns (idx + 1) ts ws
         | (None, Some w) \<Rightarrow> validate_templates V pol ns (idx + 1) ts (ws @ [w]))"
      using d Cons by (cases r; cases "fst r"; cases "snd r") (simp_all add: keeps_return)
  qed
qed

lemma keeps_webhook_Get:
  "keeps (webhook_inv V) (from_source ns) (PolicyCache_Get (v_Client V) ns (v_OperatorNamespace V))"
  unfolding keeps_def
proof (intro allI impI)
  fix s assume s: "webhook_inv V s"
  let ?get = "PolicyCache_Get (v_Client V) ns (v_OperatorNamespace V)"
  have "regexCache (snd (run_state ?get s)) = regexCache s"
    by (auto simp: PolicyCache_Get_def PolicyCache_refresh_def client_ListPolicies_def run_do_call
        run_pc_store split: option.split sum.split)
  then show "webhook_inv V (snd (run_state ?get s)) \<and> from_source ns (fst (run_state ?get s))"
    using s keeps_run [OF Get_source, of "v_Client V" s ns "v_OperatorNamespace V"]
    by (simp add: webhook_inv_def regex_ok_def)
qed

interpretation webhook_policies:
  policy_source "\<lambda>ns. PolicyCache_Get (v_Client V) ns (v_OperatorNamespace V)" "webhook_inv V" for V
  by unfold_locales (rule keeps_webhook_Get)

lemma ex_V_sel [simp]: "v_Client ex_V = ex_W" "v_Unst ex_V = ex_U" "v_Cel ex_V = ex_cel"
  by (simp_all add: ex_V_def)

lemma ex_webhook_ok: "cache_ok (pcache ex_webhook)" "regex_ok ex_V ex_webhook"
  by (simp_all add: ex_webhook_def cache_ok_remove regex_ok_def)

lemma ex_admitted:
  "snd (fst (run_state (ValidateCreate ex_V (ObjKubeTemplate (ex_kt [''configmap'']))) ex_webhook)) = None"
  by code_simp

lemma admission_policy:
  fixes V :: "('w, 'u, 'v, 'h, 're) KubeTemplateValidator" and s :: "('w, 'u, 're) webhook_state"
  assumes "list_ok (v_Client V)" and "cache_ok (pcache s)" and "regex_ok V s"
    and "snd (fst (run_state (ValidateCreate V (ObjKubeTemplate kt)) s)) = None"
  shows "\<exists>pol. pol_SourceNamespace (pol_Spec pol) = md_Namespace (kt_Meta kt) \<and>
    length (spec_Templates (kt_Spec kt)) \<le> 50 \<and>
    (\<forall>t \<in> set (spec_Templates (kt_Spec kt)). template_ok V pol (md_Namespace (kt_Meta kt)) t)"
proof -
  let ?ns = "md_Namespace (kt_Meta kt)" and ?ts = "spec_Templates (kt_Spec kt)"
  let ?Q = "\<lambda>pol. pol_SourceNamespace (pol_Spec pol) = ?ns \<and> length ?ts \<le> 50 \<and>
      (\<forall>t \<in> set ?ts. template_ok V pol ?ns t)"
  have "keeps (webhook_inv V) (\<lambda>r. snd r = None \<longrightarrow> (\<exists>pol. ?Q pol)) (validateKubeTemplate V kt)"
    unfolding validateKubeTemplate_def Let_def
    by (rule webhook_policies.judged_by_own_policy)
      (auto simp: maxTemplatesPerKubeTemplate_def decides_def
        intro!: keeps_split keeps_return keeps_weaken [OF keeps_validate_templates])
  from keeps_run(2) [OF this, of s] show ?thesis
    using assms by (simp add: ValidateCreate_def webhook_inv_def)
qed



lemma admits_allowed:
  fixes V :: "('w, 'u, 'v, 'h, 're) KubeTemplateValidator" and s :: "('w, 'u, 're) webhook_state"
  assumes inv: "list_ok (v_Client V)" "cache_ok (pcache s)" "regex_ok V s" and stable: "cel_stable V"
    and pol: "fst (run_state (PolicyCache_Get (v_Client V) (md_Namespace (kt_Meta kt)) (v_OperatorNamespace V)) s) = Inr pol"
    and len: "length (spec_Templates (kt_Spec kt)) \<le> 50"
    and ok: "\<forall>t \<in> set (spec_Templates (kt_Spec kt)). template_ok V pol (md_Namespace (kt_Meta kt)) t"
  shows "snd (fst (run_state (ValidateCreate V (ObjKubeTemplate kt)) s)) = None"
proof -
  let ?ns = "md_Namespace (kt_Meta kt)" and ?ts = "spec_Templates (kt_Spec kt)"
  obtain s1 where s1: "run_state (PolicyCache_Get (v_Client V) ?ns (v_OperatorNamespace V)) s = (Inr pol, s1)"
    using pol by (metis prod.collapse)
  have "webhook_inv V s" using inv by (simp add: webhook_inv_def)
  from keeps_run(1) [OF keeps_webhook_Get this, of ?ns] have "webhook_inv V s1" by (simp add: s1)
  from keeps_run(2) [OF keeps_validate_templates [where ts = ?ts and pol = pol and ns = ?ns and idx = 0 and ws = "[]"] this]
  have "snd (fst (run_state (validate_templates V pol ?ns 0 ?ts []) s1)) = None"
    using stable ok by (simp add: decides_def)
  then show ?thesis
    using s1 len by (simp add: ValidateCreate_def validateKubeTemplate_def maxTemplatesPerKubeTemplate_def)
qed

text \<open>
  C32: Admission rejects only for cause. If evaluating an expression does not depend on the moment, a
  KubeTemplate of at most 50 templates, each of which the namespace's policy allows in
  every respect, is admitted.
\<close>

theorem admission_complete:
  fixes V :: "('w, 'u, 'v, 'h, 're) KubeTemplateValidator" and s :: "('w, 'u, 're) webhook_state"
  assumes inv: "list_ok (v_Client V)" "cache_ok (pcache s)" "regex_ok V s" and stable: "cel_stable V"
    and pol: "fst (run_state (PolicyCache_Get (v_Client V) (md_Namespace (kt_Meta kt)) (v_OperatorNamespace V)) s) = Inr pol"
    and len: "length (spec_Templates (kt_Spec kt)) \<le> 50"
    and ok: "\<forall>t \<in> set (spec_Templates (kt_Spec kt)). template_ok V pol (md_Namespace (kt_Meta kt)) t"
  shows "snd (fst (run_state (ValidateCreate V (ObjKubeTemplate kt)) s)) = None"
  using assms by (rule admits_allowed)

theorem admission_complete_witness:
  "snd (fst (run_state (ValidateCreate ex_V (ObjKubeTemplate (ex_kt [''configmap'']))) ex_webhook)) = None"
proof (rule admission_complete)
  show "fst (run_state (PolicyCache_Get (v_Client ex_V) (md_Namespace (kt_Meta (ex_kt [''configmap''])))
      (v_OperatorNamespace ex_V)) ex_webhook) = Inr (ex_policy ''ops'' ''team-a'' [ex_rule])"
    by code_simp
  show "cel_stable ex_V" by (simp add: cel_stable_def ex_W_def)
  have "cel_program ex_V ''true'' ''object'' TMapStringDyn = Some ''true''" by code_simp
  then have "cel_accepts ex_V ''true'' ''object'' TMapStringDyn x" for x
    by (simp add: cel_accepts_def ex_W_def ex_cel_def)
  then show "\<forall>t \<in> set (spec_Templates (kt_Spec (ex_kt [''configmap'']))).
      template_ok ex_V (ex_policy ''ops'' ''team-a'' [ex_rule])
        (md_Namespace (kt_Meta (ex_kt [''configmap'']))) t"
    by (simp add: ex_kt_def ex_meta_def ex_tpl_def template_ok_def object_ok_def ex_U_def
        default_namespace_def ex_configmap_def gvk_configmap_def ex_policy_def ex_rule_def)
qed (simp_all add: ex_list_ok ex_webhook_ok ex_kt_def)

section \<open>Webhook and worker\<close>

lemma find_rule_agree: "webhook_find_rule rules gvk = find_rule rules gvk"
  by (induction rules) auto

text \<open>
  The evaluator with cost tracking and a limit only adds failures: an expression it evaluates to
  true is true without them.
\<close>

definition limit_only_fails :: "('w, 'u, 'v, 'h, 're) KubeTemplateValidator \<Rightarrow> bool" where
  "limit_only_fails V \<longleftrightarrow> (\<forall>env checked prg var val w.
     cel_Program (v_Cel V) env checked [CostTracking, CostLimit 1000000] = Inr prg \<longrightarrow>
     fst (w_ContextEval (v_Client V) celEvaluationTimeout prg var val w) = Inr (OutBool True) \<longrightarrow>
     (\<exists>prg'. cel_Program (v_Cel V) env checked [] = Inr prg' \<and>
        cel_Eval (v_Cel V) prg' var val = Inr (OutBool True)))"

lemma accepts_validates:
  assumes "limit_only_fails V" and "cel_accepts V rule ''object'' TMapStringDyn val"
  shows "validateWithCEL (v_Cel V) rule val = Inr True"
proof -
  obtain env parsed checked prg w where c:
      "cel_NewEnv (v_Cel V) ''object'' TMapStringDyn = Inr env" "cel_Parse (v_Cel V) env rule = Inr parsed"
      "cel_Check (v_Cel V) env parsed = Inr checked"
      "cel_Program (v_Cel V) env checked [CostTracking, CostLimit 1000000] = Inr prg"
      "fst (w_ContextEval (v_Client V) celEvaluationTimeout prg ''object'' val w) = Inr (OutBool True)"
    using assms(2) by (auto simp: cel_accepts_def cel_program_def split: sum.splits)
  obtain prg' where "cel_Program (v_Cel V) env checked [] = Inr prg'"
      "cel_Eval (v_Cel V) prg' ''object'' val = Inr (OutBool True)"
    using assms(1) c(4,5) unfolding limit_only_fails_def by blast
  then show ?thesis using c by (simp add: validateWithCEL_def)
qed

lemma template_ok_accepted:
  assumes same: "Unst P = v_Unst V" "Cel P = v_Cel V" and lim: "limit_only_fails V"
    and ok: "template_ok V pol ns t"
  shows "\<exists>obj. template_verdict P pol ns t = Accepted obj"
proof -
  obtain raw where raw: "u_Unmarshal (v_Unst V) (tpl_Object t) = Inr raw"
      "object_ok V pol (default_namespace (v_Unst V) ns raw)"
    using ok by (auto simp: template_ok_def)
  let ?obj = "default_namespace (v_Unst V) ns raw"
  obtain rule where r: "find_rule (pol_ValidationRules (pol_Spec pol)) (u_GroupVersionKind (v_Unst V) ?obj) = Some rule"
      "u_GetNamespace (v_Unst V) ?obj \<in> set (rule_TargetNamespaces rule)"
      "rule_Rule rule \<noteq> '''' \<longrightarrow> cel_accepts V (rule_Rule rule) ''object'' TMapStringDyn (u_Object (v_Unst V) ?obj)"
    using raw(2) by (auto simp: object_ok_def find_rule_agree)
  have "check_object P pol ?obj = Accepted ?obj"
    using r accepts_validates [OF lim] same
    by (auto simp: check_object_def Let_def contains_set split: if_splits)
  then show ?thesis using raw(1) same by (simp add: template_verdict_def)
qed



definition without_field_validations :: "KubeTemplatePolicy \<Rightarrow> KubeTemplatePolicy" where
  "without_field_validations pol = pol\<lparr>pol_Spec := (pol_Spec pol)
     \<lparr>pol_ValidationRules := map (\<lambda>r. r\<lparr>rule_FieldValidations := []\<rparr>) (pol_ValidationRules (pol_Spec pol))\<rparr>\<rparr>"

text \<open>
  The worker does not enforce field validations: removing them from a policy changes none of its
  verdicts, so a validation added to a policy after admission has no effect on templates already admitted.
\<close>

lemma worker_ignores_field_validations:
  "template_verdict P (without_field_validations pol) ns t = template_verdict P pol ns t"
proof -
  have f: "find_rule (map (\<lambda>r. r\<lparr>rule_FieldValidations := []\<rparr>) rules) gvk =
      map_option (\<lambda>r. r\<lparr>rule_FieldValidations := []\<rparr>) (find_rule rules gvk)" for rules gvk
    by (induction rules) auto
  have "check_object P (without_field_validations pol) u = check_object P pol u" for u
    by (simp add: check_object_def without_field_validations_def f Let_def split: option.split)
  then show ?thesis by (simp add: template_verdict_def split: sum.split)
qed

end
