(* ===== verification/Cert_Manager.thy ===== *)
theory Cert_Manager
  imports Kube_Env
begin

text \<open>
  The certificate manager of \<^verbatim>\<open>internal/cert/manager.go\<close>: it keeps a certificate authority and a
  server certificate for the webhook in secrets, renews both before they expire and publishes
  the authority's certificate in the webhook configuration. The API server, the clock, the
  random source and the cryptography of \<^verbatim>\<open>crypto/x509\<close>, \<^verbatim>\<open>crypto/rsa\<close> and
  \<^verbatim>\<open>encoding/pem\<close> are a parameter.
\<close>

section \<open>Objects\<close>

type_synonym bytes = string

datatype key_usage = KeyUsageDigitalSignature | KeyUsageKeyEncipherment | KeyUsageCertSign | KeyUsageCRLSign
datatype ext_key_usage = ExtKeyUsageServerAuth

text \<open>\<^verbatim>\<open>x509.Certificate\<close>, as a template and as the result of parsing.\<close>

record Certificate =
  SerialNumber :: int
  CommonName :: string
  Organization :: "string list"
  DNSNames :: "string list"
  NotBefore :: time
  NotAfter :: time
  KeyUsage :: "key_usage list"
  ExtKeyUsage :: "ext_key_usage list"
  BasicConstraintsValid :: bool
  IsCA :: bool
  Raw :: bytes

definition zero_certificate :: Certificate where
  "zero_certificate = \<lparr>SerialNumber = 0, CommonName = '''', Organization = [], DNSNames = [],
     NotBefore = 0, NotAfter = 0, KeyUsage = [], ExtKeyUsage = [], BasicConstraintsValid = False,
     IsCA = False, Raw = ''''\<rparr>"

text \<open>\<^verbatim>\<open>Certificate.Equal\<close> compares the encodings.\<close>

definition Certificate_Equal :: "Certificate \<Rightarrow> Certificate \<Rightarrow> bool" where
  "Certificate_Equal c d \<longleftrightarrow> Raw c = Raw d"

record Secret =
  sec_Meta :: ObjectMeta
  sec_Type :: string
  sec_Data :: "(string, bytes) mapping"

definition zero_secret :: Secret where
  "zero_secret = \<lparr>sec_Meta = zero_meta, sec_Type = '''', sec_Data = Mapping.empty\<rparr>"

definition named_meta :: "NamespacedName \<Rightarrow> ObjectMeta" where
  "named_meta nn = zero_meta\<lparr>md_Name := Name nn, md_Namespace := Namespace nn\<rparr>"

abbreviation secret_name :: "Secret \<Rightarrow> NamespacedName" where
  "secret_name s \<equiv> meta_name (sec_Meta s)"

lemma meta_name_named [simp]: "meta_name (named_meta nn) = nn"
  by (simp add: meta_name_def named_meta_def)

record ValidatingWebhook =
  wh_Name :: string
  wh_CABundle :: bytes

record ValidatingWebhookConfiguration =
  wc_Name :: string
  wc_Webhooks :: "ValidatingWebhook list"

definition zero_webhook_config :: ValidatingWebhookConfiguration where
  "zero_webhook_config = \<lparr>wc_Name = '''', wc_Webhooks = []\<rparr>"

section \<open>Outside\<close>

text \<open>\<open>'k\<close> is the type of RSA keys. The key pair stands for its public half in \<open>x_CreateCertificate\<close>.\<close>

record ('w, 'k) cert_api =
  a_Now :: "'w \<Rightarrow> time \<times> 'w"
  a_GetSecret :: "NamespacedName \<Rightarrow> Secret \<Rightarrow> 'w \<Rightarrow> (go_error option \<times> Secret) \<times> 'w"
  a_CreateSecret :: "Secret \<Rightarrow> 'w \<Rightarrow> go_error option \<times> 'w"
  a_UpdateSecret :: "Secret \<Rightarrow> 'w \<Rightarrow> go_error option \<times> 'w"
  a_DeleteSecret :: "Secret \<Rightarrow> 'w \<Rightarrow> go_error option \<times> 'w"
  a_GetWebhook :: "NamespacedName \<Rightarrow> ValidatingWebhookConfiguration \<Rightarrow> 'w \<Rightarrow>
    (go_error option \<times> ValidatingWebhookConfiguration) \<times> 'w"
  a_UpdateWebhook :: "ValidatingWebhookConfiguration \<Rightarrow> 'w \<Rightarrow> go_error option \<times> 'w"
  a_GenerateKey :: "int \<Rightarrow> 'w \<Rightarrow> (go_error + 'k) \<times> 'w"
  a_RandInt :: "int \<Rightarrow> 'w \<Rightarrow> (go_error + int) \<times> 'w"
  x_CreateCertificate :: "Certificate \<Rightarrow> Certificate \<Rightarrow> 'k \<Rightarrow> 'k \<Rightarrow> 'w \<Rightarrow> (go_error + bytes) \<times> 'w"
  x_Verify :: "Certificate \<Rightarrow> Certificate list \<Rightarrow> 'w \<Rightarrow> go_error option \<times> 'w"
  x_ParseCertificate :: "bytes \<Rightarrow> go_error + Certificate"
  x_ParsePKCS1PrivateKey :: "bytes \<Rightarrow> go_error + 'k"
  x_MarshalPKCS1PrivateKey :: "'k \<Rightarrow> bytes"
  pem_Decode :: "bytes \<Rightarrow> bytes option"
  pem_Encode :: "string \<Rightarrow> bytes \<Rightarrow> bytes"

text \<open>The recorded calls, with what they answered; clock readings are recorded here.\<close>

datatype 'k cert_call =
    KNow time
  | KGet NamespacedName "go_error option" Secret
  | KCreate Secret "go_error option"
  | KUpdate Secret "go_error option"
  | KDelete NamespacedName "go_error option"
  | KGetWebhook NamespacedName "go_error option"
  | KUpdateWebhook ValidatingWebhookConfiguration "go_error option"
  | KSign Certificate Certificate 'k 'k "go_error + bytes"
  | KVerify Certificate "Certificate list" "go_error option"

type_synonym ('w, 'k, 'a) certs = "(('w, 'k cert_call) kube, 'a) state"

definition cert_Now :: "('w, 'k) cert_api \<Rightarrow> ('w, 'k, time) certs" where
  "cert_Now A = do_call (\<lambda>t. Some (KNow t)) (a_Now A)"

definition secret_Get :: "('w, 'k) cert_api \<Rightarrow> NamespacedName \<Rightarrow> ('w, 'k, go_error option \<times> Secret) certs" where
  "secret_Get A nn = do_call (\<lambda>r. Some (KGet nn (fst r) (snd r))) (a_GetSecret A nn zero_secret)"

definition secret_Create :: "('w, 'k) cert_api \<Rightarrow> Secret \<Rightarrow> ('w, 'k, go_error option) certs" where
  "secret_Create A s = do_call (\<lambda>r. Some (KCreate s r)) (a_CreateSecret A s)"

definition secret_Update :: "('w, 'k) cert_api \<Rightarrow> Secret \<Rightarrow> ('w, 'k, go_error option) certs" where
  "secret_Update A s = do_call (\<lambda>r. Some (KUpdate s r)) (a_UpdateSecret A s)"

definition secret_Delete :: "('w, 'k) cert_api \<Rightarrow> Secret \<Rightarrow> ('w, 'k, go_error option) certs" where
  "secret_Delete A s = do_call (\<lambda>r. Some (KDelete (secret_name s) r)) (a_DeleteSecret A s)"

definition webhook_Get ::
  "('w, 'k) cert_api \<Rightarrow> NamespacedName \<Rightarrow> ('w, 'k, go_error option \<times> ValidatingWebhookConfiguration) certs" where
  "webhook_Get A nn = do_call (\<lambda>r. Some (KGetWebhook nn (fst r))) (a_GetWebhook A nn zero_webhook_config)"

definition webhook_Update ::
  "('w, 'k) cert_api \<Rightarrow> ValidatingWebhookConfiguration \<Rightarrow> ('w, 'k, go_error option) certs" where
  "webhook_Update A c = do_call (\<lambda>r. Some (KUpdateWebhook c r)) (a_UpdateWebhook A c)"

definition GenerateKey :: "('w, 'k) cert_api \<Rightarrow> ('w, 'k, go_error + 'k) certs" where
  "GenerateKey A = do_call (\<lambda>_. None) (a_GenerateKey A 2048)"

definition rand_Int :: "('w, 'k) cert_api \<Rightarrow> ('w, 'k, go_error + int) certs" where
  "rand_Int A = do_call (\<lambda>_. None) (a_RandInt A (2 ^ 128))"

definition CreateCertificate ::
  "('w, 'k) cert_api \<Rightarrow> Certificate \<Rightarrow> Certificate \<Rightarrow> 'k \<Rightarrow> 'k \<Rightarrow> ('w, 'k, go_error + bytes) certs" where
  "CreateCertificate A template parent pub priv =
     do_call (\<lambda>r. Some (KSign template parent pub priv r)) (x_CreateCertificate A template parent pub priv)"

definition Verify :: "('w, 'k) cert_api \<Rightarrow> Certificate \<Rightarrow> Certificate list \<Rightarrow> ('w, 'k, go_error option) certs" where
  "Verify A c roots = do_call (\<lambda>r. Some (KVerify c roots r)) (x_Verify A c roots)"

lemmas cert_call_defs = cert_Now_def secret_Get_def secret_Create_def secret_Update_def
  secret_Delete_def webhook_Get_def webhook_Update_def GenerateKey_def rand_Int_def
  CreateCertificate_def Verify_def

section \<open>Manager\<close>

definition CAValidityDuration :: duration where "CAValidityDuration = 10 * 365 * 24 * Hour"
definition CertValidityDuration :: duration where "CertValidityDuration = 365 * 24 * Hour"
definition RenewThreshold :: duration where "RenewThreshold = 30 * 24 * Hour"
definition CARenewThreshold :: duration where "CARenewThreshold = 365 * 24 * Hour"

text \<open>\<open>m_stopped\<close> is whether the channel \<^verbatim>\<open>stopCh\<close> is closed.\<close>

record Manager =
  secretName :: string
  secretNamespace :: string
  serviceName :: string
  webhookConfigName :: string
  m_stopped :: bool
  m_started :: bool

definition NewManager :: "string \<Rightarrow> string \<Rightarrow> string \<Rightarrow> string \<Rightarrow> Manager" where
  "NewManager secret ns svc config = \<lparr>secretName = secret, secretNamespace = ns, serviceName = svc,
     webhookConfigName = config, m_stopped = False, m_started = False\<rparr>"

definition server_key :: "Manager \<Rightarrow> NamespacedName" where
  "server_key m = \<lparr>Namespace = secretNamespace m, Name = secretName m\<rparr>"

definition ca_key :: "Manager \<Rightarrow> NamespacedName" where
  "ca_key m = \<lparr>Namespace = secretNamespace m, Name = secretName m @ ''-ca''\<rparr>"

definition ca_new_key :: "Manager \<Rightarrow> NamespacedName" where
  "ca_new_key m = \<lparr>Namespace = secretNamespace m, Name = (secretName m @ ''-ca'') @ ''-new''\<rparr>"
section \<open>Certificate authority\<close>

definition parseCAFromSecret :: "('w, 'k) cert_api \<Rightarrow> Secret \<Rightarrow> go_error + (Certificate \<times> 'k)" where
  "parseCAFromSecret A secret =
     (case Mapping.lookup (sec_Data secret) ''ca.crt'' of
        None \<Rightarrow> Inl (Errorf ''CA secret missing ca.crt'')
      | Some certPEM \<Rightarrow>
     (case Mapping.lookup (sec_Data secret) ''ca.key'' of
        None \<Rightarrow> Inl (Errorf ''CA secret missing ca.key'')
      | Some keyPEM \<Rightarrow>
     (case pem_Decode A certPEM of
        None \<Rightarrow> Inl (Errorf ''failed to decode CA certificate PEM'')
      | Some certBlock \<Rightarrow>
     (case x_ParseCertificate A certBlock of
        Inl err \<Rightarrow> Inl (wrapf ''failed to parse CA certificate: '' err)
      | Inr caCert \<Rightarrow>
     (case pem_Decode A keyPEM of
        None \<Rightarrow> Inl (Errorf ''failed to decode CA key PEM'')
      | Some keyBlock \<Rightarrow>
     (case x_ParsePKCS1PrivateKey A keyBlock of
        Inl err \<Rightarrow> Inl (wrapf ''failed to parse CA key: '' err)
      | Inr caKey \<Rightarrow> Inr (caCert, caKey)))))))"

definition ca_template :: "int \<Rightarrow> time \<Rightarrow> time \<Rightarrow> Certificate" where
  "ca_template serialNumber now1 now2 = zero_certificate\<lparr>
     SerialNumber := serialNumber, CommonName := ''KubeTemplater CA'',
     Organization := [''KubeTemplater''], NotBefore := now1,
     NotAfter := now2 + CAValidityDuration, KeyUsage := [KeyUsageCertSign, KeyUsageCRLSign],
     BasicConstraintsValid := True, IsCA := True\<rparr>"

definition ca_secret :: "('w, 'k) cert_api \<Rightarrow> NamespacedName \<Rightarrow> bytes \<Rightarrow> 'k \<Rightarrow> Secret" where
  "ca_secret A nn caCertBytes caKey =
     \<lparr>sec_Meta = named_meta nn, sec_Type = ''Opaque'',
      sec_Data = Mapping.update ''ca.key'' (pem_Encode A ''RSA PRIVATE KEY'' (x_MarshalPKCS1PrivateKey A caKey))
        (Mapping.update ''ca.crt'' (pem_Encode A ''CERTIFICATE'' caCertBytes) Mapping.empty)\<rparr>"

definition generateCA ::
  "('w, 'k) cert_api \<Rightarrow> NamespacedName \<Rightarrow> ('w, 'k, go_error + (Certificate \<times> 'k)) certs" where
  "generateCA A nn = do {
     key \<leftarrow> GenerateKey A;
     (case key of
        Inl err \<Rightarrow> State_Monad.return (Inl (wrapf ''failed to generate CA key: '' err))
      | Inr caKey \<Rightarrow> do {
          serial \<leftarrow> rand_Int A;
          (case serial of
             Inl err \<Rightarrow> State_Monad.return (Inl (wrapf ''failed to generate serial number: '' err))
           | Inr serialNumber \<Rightarrow> do {
               now1 \<leftarrow> cert_Now A;
               now2 \<leftarrow> cert_Now A;
               let caTemplate = ca_template serialNumber now1 now2;
               signed \<leftarrow> CreateCertificate A caTemplate caTemplate caKey caKey;
               (case signed of
                  Inl err \<Rightarrow> State_Monad.return (Inl (wrapf ''failed to create CA certificate: '' err))
                | Inr caCertBytes \<Rightarrow>
                    (case x_ParseCertificate A caCertBytes of
                       Inl err \<Rightarrow> State_Monad.return
                         (Inl (wrapf ''failed to parse generated CA certificate: '' err))
                     | Inr caCert \<Rightarrow> do {
                         r \<leftarrow> secret_Create A (ca_secret A nn caCertBytes caKey);
                         (case r of
                            Some err \<Rightarrow> State_Monad.return (Inl (wrapf ''failed to create CA secret: '' err))
                          | None \<Rightarrow> State_Monad.return (Inr (caCert, caKey)))
                       }))
             })
        })
   }"

text \<open>Promotion of the new authority: the calls only, every outcome goes on with the new authority.\<close>

definition promoteCA :: "('w, 'k) cert_api \<Rightarrow> Manager \<Rightarrow> Secret \<Rightarrow> Secret \<Rightarrow> ('w, 'k, unit) certs" where
  "promoteCA A m oldSecret newSecret = do {
     _ \<leftarrow> secret_Delete A oldSecret;
     r \<leftarrow> secret_Create A (newSecret\<lparr>sec_Meta := named_meta (ca_key m)\<rparr>);
     (case r of
        Some _ \<Rightarrow> State_Monad.return ()
      | None \<Rightarrow> do {
          _ \<leftarrow> secret_Delete A (zero_secret\<lparr>sec_Meta := named_meta (ca_new_key m)\<rparr>);
          State_Monad.return ()
        })
   }"

text \<open>The transition period: the new authority exists and parses.\<close>

definition transitionCA :: "('w, 'k) cert_api \<Rightarrow> Manager \<Rightarrow> Secret \<Rightarrow> ('w, 'k, unit) certs" where
  "transitionCA A m newSecret = do {
     got \<leftarrow> secret_Get A (ca_key m);
     (case got of
        (None, oldSecret) \<Rightarrow>
          (case parseCAFromSecret A oldSecret of
             Inr (oldCACert, _) \<Rightarrow> do {
               now \<leftarrow> cert_Now A;
               if now > NotAfter oldCACert then promoteCA A m oldSecret newSecret
               else State_Monad.return ()
             }
           | Inl _ \<Rightarrow> State_Monad.return ())
      | (Some _, _) \<Rightarrow> State_Monad.return ())
   }"

definition currentCA ::
  "('w, 'k) cert_api \<Rightarrow> Manager \<Rightarrow> ('w, 'k, go_error + (Certificate \<times> 'k)) certs" where
  "currentCA A m = do {
     got \<leftarrow> secret_Get A (ca_key m);
     (case got of
        (None, secret) \<Rightarrow>
          (case parseCAFromSecret A secret of
             Inl parseErr \<Rightarrow> State_Monad.return (Inl parseErr)
           | Inr (caCert, caKey) \<Rightarrow> do {
               now \<leftarrow> cert_Now A;
               if NotAfter caCert < now + CARenewThreshold
               then do {
                 new \<leftarrow> generateCA A (ca_new_key m);
                 (case new of
                    Inl err \<Rightarrow> State_Monad.return (Inr (caCert, caKey))
                  | Inr newCA \<Rightarrow> State_Monad.return (Inr newCA))
               }
               else State_Monad.return (Inr (caCert, caKey))
             })
      | (Some err, _) \<Rightarrow>
          if \<not> IsNotFound err then State_Monad.return (Inl (wrapf ''failed to get CA secret: '' err))
          else generateCA A (ca_key m))
   }"

definition ensureCA ::
  "('w, 'k) cert_api \<Rightarrow> Manager \<Rightarrow> ('w, 'k, go_error + (Certificate \<times> 'k)) certs" where
  "ensureCA A m = do {
     got \<leftarrow> secret_Get A (ca_new_key m);
     (case got of
        (None, newSecret) \<Rightarrow>
          (case parseCAFromSecret A newSecret of
             Inl err \<Rightarrow> currentCA A m
           | Inr newCA \<Rightarrow> do {
               _ \<leftarrow> transitionCA A m newSecret;
               State_Monad.return (Inr newCA)
             })
      | (Some _, _) \<Rightarrow> currentCA A m)
   }"

section \<open>Server certificate\<close>

text \<open>The roots of the verification: the current authority and, if it is another one, the old one.\<close>

definition trusted_roots :: "('w, 'k) cert_api \<Rightarrow> Certificate \<Rightarrow> go_error option \<times> Secret \<Rightarrow> Certificate list" where
  "trusted_roots A caCert got =
     (case got of
        (None, oldCASecret) \<Rightarrow>
          (case parseCAFromSecret A oldCASecret of
             Inr (oldCACert, _) \<Rightarrow> if \<not> Certificate_Equal oldCACert caCert then [caCert, oldCACert] else [caCert]
           | Inl _ \<Rightarrow> [caCert])
      | (Some _, _) \<Rightarrow> [caCert])"

definition parse_server_cert :: "('w, 'k) cert_api \<Rightarrow> Secret \<Rightarrow> Certificate option" where
  "parse_server_cert A secret =
     (case Mapping.lookup (sec_Data secret) ''tls.crt'' of
        None \<Rightarrow> None
      | Some certData \<Rightarrow>
          if length certData = 0 then None
          else (case pem_Decode A certData of
             None \<Rightarrow> None
           | Some block \<Rightarrow>
               (case x_ParseCertificate A block of
                  Inl err \<Rightarrow> None
                | Inr cert \<Rightarrow> Some cert)))"

definition needsServerCertGeneration ::
  "('w, 'k) cert_api \<Rightarrow> Manager \<Rightarrow> Certificate \<Rightarrow> ('w, 'k, go_error + bool) certs" where
  "needsServerCertGeneration A m caCert = do {
     got \<leftarrow> secret_Get A (server_key m);
     (case got of
        (Some err, _) \<Rightarrow>
          State_Monad.return (if IsNotFound err then Inr True else Inl (wrapf ''failed to get secret: '' err))
      | (None, secret) \<Rightarrow>
          (case parse_server_cert A secret of
             None \<Rightarrow> State_Monad.return (Inr True)
           | Some cert \<Rightarrow> do {
               now \<leftarrow> cert_Now A;
               if NotAfter cert < now + RenewThreshold then State_Monad.return (Inr True)
               else do {
                 old \<leftarrow> secret_Get A (ca_key m);
                 v \<leftarrow> Verify A cert (trusted_roots A caCert old);
                 State_Monad.return (Inr (v \<noteq> None))
               }
             }))
   }"

definition server_template :: "Manager \<Rightarrow> int \<Rightarrow> time \<Rightarrow> time \<Rightarrow> Certificate" where
  "server_template m serialNumber now1 now2 =
     (let svc = serviceName m; ns = secretNamespace m
      in zero_certificate\<lparr>
        SerialNumber := serialNumber, CommonName := svc @ ''.'' @ ns @ ''.svc'',
        Organization := [''KubeTemplater''],
        DNSNames := [svc, svc @ ''.'' @ ns, svc @ ''.'' @ ns @ ''.svc'',
          svc @ ''.'' @ ns @ ''.svc.cluster.local''],
        NotBefore := now1, NotAfter := now2 + CertValidityDuration,
        KeyUsage := [KeyUsageKeyEncipherment, KeyUsageDigitalSignature],
        ExtKeyUsage := [ExtKeyUsageServerAuth], BasicConstraintsValid := True\<rparr>)"

definition tls_data :: "('w, 'k) cert_api \<Rightarrow> bytes \<Rightarrow> 'k \<Rightarrow> (string, bytes) mapping" where
  "tls_data A certBytes serverKey =
     Mapping.update ''tls.key'' (pem_Encode A ''RSA PRIVATE KEY'' (x_MarshalPKCS1PrivateKey A serverKey))
       (Mapping.update ''tls.crt'' (pem_Encode A ''CERTIFICATE'' certBytes) Mapping.empty)"

definition store_server_cert ::
  "('w, 'k) cert_api \<Rightarrow> Manager \<Rightarrow> (string, bytes) mapping \<Rightarrow> ('w, 'k, go_error option) certs" where
  "store_server_cert A m data = do {
     got \<leftarrow> secret_Get A (server_key m);
     (case got of
        (Some err, _) \<Rightarrow>
          if \<not> IsNotFound err then State_Monad.return (Some (wrapf ''failed to get secret: '' err))
          else do {
            r \<leftarrow> secret_Create A \<lparr>sec_Meta = named_meta (server_key m),
              sec_Type = ''kubernetes.io/tls'', sec_Data = data\<rparr>;
            State_Monad.return (map_option (wrapf ''failed to create secret: '') r)
          }
      | (None, secret) \<Rightarrow> do {
          r \<leftarrow> secret_Update A (secret\<lparr>sec_Data := data\<rparr>);
          State_Monad.return (map_option (wrapf ''failed to update secret: '') r)
        })
   }"

definition generateServerCert ::
  "('w, 'k) cert_api \<Rightarrow> Manager \<Rightarrow> Certificate \<Rightarrow> 'k \<Rightarrow> ('w, 'k, go_error option) certs" where
  "generateServerCert A m caCert caKey = do {
     key \<leftarrow> GenerateKey A;
     (case key of
        Inl err \<Rightarrow> State_Monad.return (Some (wrapf ''failed to generate server key: '' err))
      | Inr serverKey \<Rightarrow> do {
          serial \<leftarrow> rand_Int A;
          (case serial of
             Inl err \<Rightarrow> State_Monad.return (Some (wrapf ''failed to generate serial number: '' err))
           | Inr serialNumber \<Rightarrow> do {
               now1 \<leftarrow> cert_Now A;
               now2 \<leftarrow> cert_Now A;
               signed \<leftarrow> CreateCertificate A (server_template m serialNumber now1 now2) caCert serverKey caKey;
               (case signed of
                  Inl err \<Rightarrow> State_Monad.return (Some (wrapf ''failed to create certificate: '' err))
                | Inr certBytes \<Rightarrow> store_server_cert A m (tls_data A certBytes serverKey))
             })
        })
   }"

definition patchWebhookConfiguration ::
  "('w, 'k) cert_api \<Rightarrow> Manager \<Rightarrow> Certificate \<Rightarrow> ('w, 'k, go_error option) certs" where
  "patchWebhookConfiguration A m caCert = do {
     let caCertPEM = pem_Encode A ''CERTIFICATE'' (Raw caCert);
     got \<leftarrow> webhook_Get A \<lparr>Namespace = '''', Name = webhookConfigName m\<rparr>;
     (case got of
        (Some err, _) \<Rightarrow> State_Monad.return (Some (wrapf ''failed to get webhook configuration: '' err))
      | (None, webhookConfig) \<Rightarrow> do {
          r \<leftarrow> webhook_Update A (webhookConfig\<lparr>wc_Webhooks :=
            map (\<lambda>w. w\<lparr>wh_CABundle := caCertPEM\<rparr>) (wc_Webhooks webhookConfig)\<rparr>);
          State_Monad.return (map_option (wrapf ''failed to update webhook configuration: '') r)
        })
   }"

definition ensureCertificate :: "('w, 'k) cert_api \<Rightarrow> Manager \<Rightarrow> ('w, 'k, go_error option) certs" where
  "ensureCertificate A m = do {
     ca \<leftarrow> ensureCA A m;
     (case ca of
        Inl err \<Rightarrow> State_Monad.return (Some (wrapf ''failed to ensure CA: '' err))
      | Inr (caCert, caKey) \<Rightarrow> do {
          needs \<leftarrow> needsServerCertGeneration A m caCert;
          (case needs of
             Inl err \<Rightarrow> State_Monad.return (Some (wrapf ''failed to check server certificate: '' err))
           | Inr needsGeneration \<Rightarrow>
               if needsGeneration
               then do {
                 r \<leftarrow> generateServerCert A m caCert caKey;
                 (case r of
                    Some err \<Rightarrow> State_Monad.return
                      (Some (wrapf ''failed to generate server certificate: '' err))
                  | None \<Rightarrow> do {
                      _ \<leftarrow> patchWebhookConfiguration A m caCert;
                      State_Monad.return None
                    })
               }
               else State_Monad.return None)
        })
   }"

section \<open>Life cycle\<close>

definition NeedLeaderElection :: "Manager \<Rightarrow> bool" where
  "NeedLeaderElection m = True"

text \<open>\<^verbatim>\<open>Start\<close> also says whether it has spawned the renewal loop.\<close>

definition Manager_Start ::
  "('w, 'k) cert_api \<Rightarrow> Manager \<Rightarrow> ('w, 'k, Manager \<times> bool \<times> go_error option) certs" where
  "Manager_Start A m =
     (if m_started m then State_Monad.return (m, False, None)
      else do {
        let m = m\<lparr>m_started := True\<rparr>;
        r \<leftarrow> ensureCertificate A m;
        (case r of
           Some err \<Rightarrow> State_Monad.return (m, False, Some (wrapf ''failed to ensure certificate: '' err))
         | None \<Rightarrow> State_Monad.return (m, True, None))
      })"

text \<open>Closing a closed channel panics.\<close>

definition Manager_Stop :: "Manager \<Rightarrow> Manager option" where
  "Manager_Stop m = (if m_stopped m then None else Some (m\<lparr>m_stopped := True\<rparr>))"

text \<open>
  The renewal loop, on the sequence of events its \<^verbatim>\<open>select\<close> receives. The result is whether the
  loop has returned.
\<close>

datatype renewal_event = TickerFired | StopClosed | ContextDone

fun renewalLoop :: "('w, 'k) cert_api \<Rightarrow> Manager \<Rightarrow> renewal_event list \<Rightarrow> ('w, 'k, bool) certs" where
  "renewalLoop A m [] = State_Monad.return False"
| "renewalLoop A m (e # es) =
     (case e of
        TickerFired \<Rightarrow> do { _ \<leftarrow> ensureCertificate A m; renewalLoop A m es }
      | StopClosed \<Rightarrow> State_Monad.return True
      | ContextDone \<Rightarrow> State_Monad.return True)"

end
