(* ===== verification/Secret_Watcher.thy ===== *)
theory Secret_Watcher
  imports Cert_Manager
begin

text \<open>
  The watcher of \<^verbatim>\<open>internal/cert/secret_watcher.go\<close> that serves the webhook's TLS certificate from
  a secret. The API server and the clock, and \<^verbatim>\<open>tls.X509KeyPair\<close>, are a parameter; \<open>'t\<close>
  is the type of key pairs (\<^verbatim>\<open>*tls.Certificate\<close>).
\<close>

section \<open>State\<close>

text \<open>
  \<open>sw_ready\<close> is whether the channel \<^verbatim>\<open>isReady\<close> is closed, \<open>sw_readyOnce\<close> whether the
  \<^verbatim>\<open>sync.Once\<close> beside it has run. \<open>None\<close> is a panic.
\<close>

record 't SecretCertWatcher =
  sw_secretName :: string
  sw_secretNamespace :: string
  sw_cert :: "'t option"
  sw_ready :: bool
  sw_readyOnce :: bool
  sw_lastValidCert :: "'t option"

definition NewSecretCertWatcher :: "string \<Rightarrow> string \<Rightarrow> 't SecretCertWatcher" where
  "NewSecretCertWatcher name ns = \<lparr>sw_secretName = name, sw_secretNamespace = ns, sw_cert = None,
     sw_ready = False, sw_readyOnce = False, sw_lastValidCert = None\<rparr>"

text \<open>
  \<open>c_Select\<close> is the \<^verbatim>\<open>select\<close> of the initial load between the context with the given deadline (the
  answer \<open>True\<close>) and a timer of five seconds.
\<close>

record ('w, 't) watch_api =
  c_Now :: "'w \<Rightarrow> time \<times> 'w"
  c_GetSecret :: "string \<Rightarrow> string \<Rightarrow> 'w \<Rightarrow> (go_error + Secret) \<times> 'w"
  c_Select :: "time \<Rightarrow> 'w \<Rightarrow> bool \<times> 'w"
  x_X509KeyPair :: "bytes \<Rightarrow> bytes \<Rightarrow> go_error + 't"

section \<open>Operations\<close>

definition watcher_NeedLeaderElection :: "'t SecretCertWatcher \<Rightarrow> bool" where
  "watcher_NeedLeaderElection s = False"

text \<open>\<^verbatim>\<open>readyOnce.Do\<close> with the closing of the channel; closing it again would panic.\<close>

definition close_ready :: "'t SecretCertWatcher \<Rightarrow> 't SecretCertWatcher option" where
  "close_ready s =
     (if sw_readyOnce s then Some s
      else if sw_ready s then None
      else Some (s\<lparr>sw_readyOnce := True, sw_ready := True\<rparr>))"

datatype 't served = Blocked | Served 't | Refused go_error

definition GetCertificate :: "'t SecretCertWatcher \<Rightarrow> 't served" where
  "GetCertificate s =
     (if \<not> sw_ready s then Blocked
      else (case sw_cert s of
         Some cert \<Rightarrow> Served cert
       | None \<Rightarrow>
           (case sw_lastValidCert s of
              Some lastCert \<Rightarrow> Served lastCert
            | None \<Rightarrow> Refused (Errorf ''certificate not loaded or invalid type''))))"

definition IsReady :: "'t SecretCertWatcher \<Rightarrow> bool" where
  "IsReady s = sw_ready s"

definition loadCertificate ::
  "('w, 't) watch_api \<Rightarrow> 't SecretCertWatcher \<Rightarrow> Secret \<Rightarrow> (go_error option \<times> 't SecretCertWatcher) option" where
  "loadCertificate A s secret =
     (case Mapping.lookup (sec_Data secret) ''tls.crt'' of
        None \<Rightarrow> Some (Some (Errorf (''secret '' @ sw_secretName s @ '' is missing tls.crt'')), s)
      | Some certPEM \<Rightarrow>
     (case Mapping.lookup (sec_Data secret) ''tls.key'' of
        None \<Rightarrow> Some (Some (Errorf (''secret '' @ sw_secretName s @ '' is missing tls.key'')), s)
      | Some keyPEM \<Rightarrow>
          if length certPEM = 0 \<or> length keyPEM = 0
          then Some (Some (Errorf (''certificate data not yet populated in secret '' @ sw_secretName s)), s)
          else (case x_X509KeyPair A certPEM keyPEM of
             Inl err \<Rightarrow> Some (Some (wrapf
               (''failed to parse certificate and key from secret '' @ sw_secretName s @ '': '') err), s)
           | Inr cert \<Rightarrow> map_option (Pair None)
               (close_ready (s\<lparr>sw_cert := Some cert, sw_lastValidCert := Some cert\<rparr>)))))"

text \<open>The retry loop of the initial load; it ends by finding the secret or by the end of the context.\<close>

partial_function (option) initial_load_loop ::
  "('w, 't) watch_api \<Rightarrow> time \<Rightarrow> 't SecretCertWatcher \<Rightarrow> 'w \<Rightarrow> ('t SecretCertWatcher \<times> 'w) option" where
  "initial_load_loop A deadline s w =
     (case c_GetSecret A (sw_secretNamespace s) (sw_secretName s) w of
        (got, w1) \<Rightarrow>
          (case got of
             Inr secret \<Rightarrow> map_option (\<lambda>r. (snd r, w1)) (loadCertificate A s secret)
           | Inl err \<Rightarrow>
               (case c_Select A deadline w1 of
                  (contextDone, w2) \<Rightarrow> if contextDone then Some (s, w2) else initial_load_loop A deadline s w2)))"

definition performInitialLoad ::
  "('w, 't) watch_api \<Rightarrow> 't SecretCertWatcher \<Rightarrow> 'w \<Rightarrow> ('t SecretCertWatcher \<times> 'w) option" where
  "performInitialLoad A s w =
     (case c_Now A w of
        (now, w1) \<Rightarrow>
          (case initial_load_loop A (now + Minute) s w1 of
             None \<Rightarrow> None
           | Some (s1, w2) \<Rightarrow> map_option (\<lambda>s2. (s2, w2)) (close_ready s1)))"

text \<open>
  The events of one watch, up to the closing of its channel or the end of the context. \<open>NotASecret\<close>
  stands for an event with another object.
\<close>

datatype watch_event = SecretDeleted | NotASecret | SecretSeen Secret

definition handle_event ::
  "('w, 't) watch_api \<Rightarrow> watch_event \<Rightarrow> 't SecretCertWatcher \<Rightarrow> 't SecretCertWatcher option" where
  "handle_event A e s =
     (case e of
        SecretDeleted \<Rightarrow> Some s
      | NotASecret \<Rightarrow> Some s
      | SecretSeen secret \<Rightarrow> map_option snd (loadCertificate A s secret))"

fun watch_events ::
  "('w, 't) watch_api \<Rightarrow> watch_event list \<Rightarrow> 't SecretCertWatcher \<Rightarrow> 't SecretCertWatcher option" where
  "watch_events A [] s = Some s"
| "watch_events A (e # es) s = Option.bind (handle_event A e s) (watch_events A es)"

definition runWatch ::
  "('w, 't) watch_api \<Rightarrow> go_error + watch_event list \<Rightarrow> 't SecretCertWatcher \<Rightarrow> 't SecretCertWatcher option" where
  "runWatch A watch s = (case watch of Inl err \<Rightarrow> Some s | Inr es \<Rightarrow> watch_events A es s)"

fun watch_loop ::
  "('w, 't) watch_api \<Rightarrow> (go_error + watch_event list) list \<Rightarrow> 't SecretCertWatcher \<Rightarrow> 't SecretCertWatcher option" where
  "watch_loop A [] s = Some s"
| "watch_loop A (watch # watches) s = Option.bind (runWatch A watch s) (watch_loop A watches)"

text \<open>
  \<^verbatim>\<open>Start\<close>, up to a moment at which the given watches have been run; cancelling the context ends it
  after any of them.
\<close>

definition watcher_Start ::
  "('w, 't) watch_api \<Rightarrow> (go_error + watch_event list) list \<Rightarrow> 't SecretCertWatcher \<Rightarrow> 'w \<Rightarrow>
   't SecretCertWatcher option" where
  "watcher_Start A watches s w =
     (case performInitialLoad A s w of
        None \<Rightarrow> None
      | Some (s1, _) \<Rightarrow> watch_loop A watches s1)"

section \<open>Invariant\<close>

text \<open>The channel is closed exactly when the once has run, which it has when a certificate is there.\<close>

definition watcher_inv :: "'t SecretCertWatcher \<Rightarrow> bool" where
  "watcher_inv s \<longleftrightarrow> sw_ready s = sw_readyOnce s \<and> sw_lastValidCert s = sw_cert s \<and>
     (sw_cert s \<noteq> None \<longrightarrow> sw_ready s)"

text \<open>The key pair a secret holds.\<close>

definition key_pair :: "('w, 't) watch_api \<Rightarrow> Secret \<Rightarrow> 't option" where
  "key_pair A secret =
     (case (Mapping.lookup (sec_Data secret) ''tls.crt'', Mapping.lookup (sec_Data secret) ''tls.key'') of
        (Some crt, Some key) \<Rightarrow>
          if crt = [] \<or> key = [] then None
          else (case x_X509KeyPair A crt key of Inl _ \<Rightarrow> None | Inr cert \<Rightarrow> Some cert)
      | _ \<Rightarrow> None)"

lemma watcher_inv_New: "watcher_inv (NewSecretCertWatcher name ns)"
  by (simp add: watcher_inv_def NewSecretCertWatcher_def)

lemma close_ready_inv:
  "watcher_inv s \<Longrightarrow> \<exists>s'. close_ready s = Some s' \<and> watcher_inv s' \<and> sw_ready s' \<and> sw_cert s' = sw_cert s"
  by (auto simp: close_ready_def watcher_inv_def)

text \<open>Loading never panics and replaces the certificate exactly when the secret holds a key pair.\<close>

lemma loadCertificate_step:
  assumes "watcher_inv s"
  shows "\<exists>r s'. loadCertificate A s secret = Some (r, s') \<and> watcher_inv s' \<and>
    (sw_ready s \<longrightarrow> sw_ready s') \<and>
    sw_cert s' = (case key_pair A secret of None \<Rightarrow> sw_cert s | Some c \<Rightarrow> Some c)"
  using assms
  by (auto simp: loadCertificate_def key_pair_def close_ready_def watcher_inv_def split: option.split sum.split)

fun seen :: "watch_event \<Rightarrow> Secret list" where
  "seen (SecretSeen secret) = [secret]"
| "seen _ = []"

text \<open>The specification: the key pair of the last secret that holds one.\<close>

fun last_good :: "('w, 't) watch_api \<Rightarrow> 't option \<Rightarrow> Secret list \<Rightarrow> 't option" where
  "last_good A c [] = c"
| "last_good A c (s # ss) = last_good A (case key_pair A s of None \<Rightarrow> c | Some c' \<Rightarrow> Some c') ss"

lemma last_good_append: "last_good A c (xs @ ys) = last_good A (last_good A c xs) ys"
  by (induction xs arbitrary: c) auto

lemma handle_event_step:
  assumes "watcher_inv s"
  shows "\<exists>s'. handle_event A e s = Some s' \<and> watcher_inv s' \<and> (sw_ready s \<longrightarrow> sw_ready s') \<and>
    sw_cert s' = last_good A (sw_cert s) (seen e)"
proof (cases e)
  case (SecretSeen secret)
  then show ?thesis using loadCertificate_step [OF assms, of A secret] by (auto simp: handle_event_def)
qed (use assms in \<open>auto simp: handle_event_def\<close>)

lemma watch_events_step:
  assumes "watcher_inv s"
  shows "\<exists>s'. watch_events A es s = Some s' \<and> watcher_inv s' \<and> (sw_ready s \<longrightarrow> sw_ready s') \<and>
    sw_cert s' = last_good A (sw_cert s) (concat (map seen es))"
  using assms
proof (induction es arbitrary: s)
  case (Cons e es)
  obtain s1 where s1: "handle_event A e s = Some s1" "watcher_inv s1" "sw_ready s \<longrightarrow> sw_ready s1"
      "sw_cert s1 = last_good A (sw_cert s) (seen e)"
    using handle_event_step [OF Cons.prems] by blast
  then show ?case using Cons.IH [OF s1(2)] by (auto simp: last_good_append)
qed simp

fun watched :: "(go_error + watch_event list) list \<Rightarrow> Secret list" where
  "watched [] = []"
| "watched (w # ws) = (case w of Inl _ \<Rightarrow> [] | Inr es \<Rightarrow> concat (map seen es)) @ watched ws"

lemma watch_loop_step:
  assumes "watcher_inv s"
  shows "\<exists>s'. watch_loop A ws s = Some s' \<and> watcher_inv s' \<and> (sw_ready s \<longrightarrow> sw_ready s') \<and>
    sw_cert s' = last_good A (sw_cert s) (watched ws)"
  using assms
proof (induction ws arbitrary: s)
  case (Cons w ws)
  obtain s1 where s1: "runWatch A w s = Some s1" "watcher_inv s1" "sw_ready s \<longrightarrow> sw_ready s1"
      "sw_cert s1 = last_good A (sw_cert s) (case w of Inl _ \<Rightarrow> [] | Inr es \<Rightarrow> concat (map seen es))"
    using Cons.prems watch_events_step [OF Cons.prems, of A] by (cases w) (auto simp: runWatch_def)
  then show ?case using Cons.IH [OF s1(2)] by (auto simp: last_good_append)
qed simp

section \<open>Initial load\<close>

text \<open>
  The laws of the clock the initial load relies on: it does not run backwards, and when the
  \<^verbatim>\<open>select\<close> takes the timer, the deadline had not passed when it began (a context past its
  deadline is done, and its case is ready at once) and five seconds have gone by.
\<close>

definition clock_ok :: "('w, 't) watch_api \<Rightarrow> ('w \<Rightarrow> time) \<Rightarrow> bool" where
  "clock_ok A clock \<longleftrightarrow>
     (\<forall>w. fst (c_Now A w) = clock w \<and> clock w \<le> clock (snd (c_Now A w))) \<and>
     (\<forall>ns name w. clock w \<le> clock (snd (c_GetSecret A ns name w))) \<and>
     (\<forall>d w w'. c_Select A d w = (False, w') \<longrightarrow> clock w < d \<and> clock w + 5 * Second \<le> clock w')"

text \<open>The secrets the load can have read: none, or one that the API server returned.\<close>

definition initially_read :: "('w, 't) watch_api \<Rightarrow> string \<Rightarrow> string \<Rightarrow> Secret list \<Rightarrow> bool" where
  "initially_read A ns name first \<longleftrightarrow>
     first = [] \<or> (\<exists>secret w. first = [secret] \<and> fst (c_GetSecret A ns name w) = Inr secret)"

lemma loop_measure:
  assumes ok: "clock_ok A clock" and g: "c_GetSecret A ns name w = (got, w1)"
    and sel: "c_Select A deadline w1 = (False, w2)"
  shows "nat (deadline - clock w2) < nat (deadline - clock w)"
proof -
  have "clock w \<le> clock w1" using ok g unfolding clock_ok_def by (metis snd_conv)
  moreover have "clock w1 < deadline" "clock w1 + 5 * Second \<le> clock w2"
    using ok sel unfolding clock_ok_def by blast+
  ultimately show ?thesis by (simp add: Second_def)
qed

lemma initial_load_loop_returns:
  assumes ok: "clock_ok A clock" and inv: "watcher_inv s"
  shows "\<exists>s' w' first. initial_load_loop A deadline s w = Some (s', w') \<and> watcher_inv s' \<and>
    initially_read A (sw_secretNamespace s) (sw_secretName s) first \<and> sw_cert s' = last_good A (sw_cert s) first"
proof (induction "nat (deadline - clock w)" arbitrary: w rule: less_induct)
  case less
  obtain got w1 where g: "c_GetSecret A (sw_secretNamespace s) (sw_secretName s) w = (got, w1)"
    by (rule prod.exhaust)
  show ?case
  proof (cases got)
    case (Inr secret)
    have "initially_read A (sw_secretNamespace s) (sw_secretName s) [secret]"
      using g Inr by (auto simp: initially_read_def intro!: exI [of _ w])
    then show ?thesis
      using loadCertificate_step [OF inv, of A secret] g Inr
      by (subst initial_load_loop.simps) (force intro!: exI [of _ "[secret]"])
  next
    case (Inl err)
    obtain d w2 where sel: "c_Select A deadline w1 = (d, w2)" by (rule prod.exhaust)
    show ?thesis
    proof (cases d)
      case True
      then show ?thesis using g Inl sel inv
        by (subst initial_load_loop.simps) (auto simp: initially_read_def intro!: exI [of _ "[]"])
    next
      case False
      then show ?thesis
        using less.hyps [OF loop_measure [OF ok g]] g Inl sel by (subst initial_load_loop.simps) simp
    qed
  qed
qed

lemma performInitialLoad_step:
  assumes "clock_ok A clock" and "watcher_inv s"
  shows "\<exists>s' w' first. performInitialLoad A s w = Some (s', w') \<and> watcher_inv s' \<and> sw_ready s' \<and>
    initially_read A (sw_secretNamespace s) (sw_secretName s) first \<and> sw_cert s' = last_good A (sw_cert s) first"
proof -
  obtain now w1 where n: "c_Now A w = (now, w1)" by (rule prod.exhaust)
  obtain s1 w2 first where l: "initial_load_loop A (now + Minute) s w1 = Some (s1, w2)" "watcher_inv s1"
      "initially_read A (sw_secretNamespace s) (sw_secretName s) first" "sw_cert s1 = last_good A (sw_cert s) first"
    using initial_load_loop_returns [OF assms, of "now + Minute" w1] by blast
  then show ?thesis
    using close_ready_inv [OF l(2)] n by (auto simp: performInitialLoad_def)
qed

text \<open>A cluster in which the secret appears after ten seconds, for the witnesses; its world is the clock.\<close>

definition ex_tls :: "bytes \<Rightarrow> Secret" where
  "ex_tls crt = zero_secret\<lparr>sec_Data := Mapping.update ''tls.key'' ''key'' (Mapping.update ''tls.crt'' crt Mapping.empty)\<rparr>"

definition ex_S :: "(time, bytes) watch_api" where
  "ex_S = \<lparr>
     c_Now = (\<lambda>w. (w, w)),
     c_GetSecret = (\<lambda>ns name w. (if w < 10 * Second then Inl (Err ReasonNotFound ''not found'') else Inr (ex_tls ''one''), w)),
     c_Select = (\<lambda>d w. if d < w + 5 * Second then (True, max d w) else (False, w + 5 * Second)),
     x_X509KeyPair = (\<lambda>crt key. Inr crt)\<rparr>"

lemma ex_clock_ok: "clock_ok ex_S id"
  by (auto simp: clock_ok_def ex_S_def Second_def split: if_splits)



text \<open>
  C16: The certificate served after the initial load and any sequence of watches is the key pair of
  the last secret seen that holds one: secrets without a key pair, deletions, failing watches and
  foreign objects leave it in place. Without any such secret every handshake is refused, although the
  watcher reports that it is ready.
\<close>

theorem watcher_serves_last_good:
  assumes "clock_ok A clock"
  shows "\<exists>s' first. watcher_Start A watches (NewSecretCertWatcher name ns) w = Some s' \<and>
    initially_read A ns name first \<and> IsReady s' \<and>
    GetCertificate s' =
      (case last_good A None (first @ watched watches) of
         None \<Rightarrow> Refused (Errorf ''certificate not loaded or invalid type'')
       | Some cert \<Rightarrow> Served cert)"
proof -
  obtain s1 w1 first where 1: "performInitialLoad A (NewSecretCertWatcher name ns) w = Some (s1, w1)"
      "watcher_inv s1" "sw_ready s1" "initially_read A ns name first" "sw_cert s1 = last_good A None first"
    using performInitialLoad_step [OF assms watcher_inv_New [of name ns], of w]
    by (auto simp: NewSecretCertWatcher_def)
  obtain s' where 2: "watch_loop A watches s1 = Some s'" "watcher_inv s'" "sw_ready s'"
      "sw_cert s' = last_good A (sw_cert s1) (watched watches)"
    using watch_loop_step [OF 1(2), of A watches] 1(3) by blast
  have "GetCertificate s' = (case sw_cert s' of
      None \<Rightarrow> Refused (Errorf ''certificate not loaded or invalid type'') | Some cert \<Rightarrow> Served cert)"
    using 2(2,3) by (auto simp: GetCertificate_def watcher_inv_def split: option.split)
  moreover have "sw_cert s' = last_good A None (first @ watched watches)"
    using 1(5) 2(4) by (simp add: last_good_append)
  ultimately show ?thesis
    using 1 2 by (auto simp: watcher_Start_def IsReady_def)
qed

theorem watcher_serves_last_good_witness:
  "\<exists>s'. watcher_Start ex_S [Inr [SecretSeen (ex_tls ''two''), SecretSeen (ex_tls ''''), SecretDeleted]]
      (NewSecretCertWatcher ''tls'' ''sys'') 0 = Some s' \<and> GetCertificate s' = Served ''two''"
proof -
  let ?ws = "[Inr [SecretSeen (ex_tls ''two''), SecretSeen (ex_tls ''''), SecretDeleted]]"
  have pairs: "key_pair ex_S (ex_tls ''two'') = Some ''two''" "key_pair ex_S (ex_tls '''') = None"
    by (simp_all add: key_pair_def ex_tls_def ex_S_def Mapping.lookup_update')
  from watcher_serves_last_good [OF ex_clock_ok, of ?ws "''tls''" "''sys''" 0]
  show ?thesis by (auto simp: last_good_append pairs)
qed

end
