(* ===== verification/Startup_Flags.thy ===== *)
theory Startup_Flags
  imports KT_Prelude
begin

text \<open>
  The command line of \<^verbatim>\<open>cmd/main.go\<close>: the flags \<^verbatim>\<open>main\<close> declares with their defaults, and \<^verbatim>\<open>flag.Parse\<close>
  of the standard library. Flags declared by other packages (zap, controller-runtime) are a parameter.
\<close>

section \<open>Flags and defaults\<close>

record flags =
  metricsAddr :: string
  probeAddr :: string
  enableLeaderElection :: bool
  secureMetrics :: bool
  webhookCertPath :: string
  webhookCertName :: string
  webhookCertKey :: string
  webhookCertSecretName :: string
  webhookServiceName :: string
  webhookConfigurationName :: string
  metricsCertPath :: string
  metricsCertName :: string
  metricsCertKey :: string
  enableHTTP2 :: bool

definition default_flags :: flags where
  "default_flags =
     \<lparr>metricsAddr = ''0'', probeAddr = '':8081'', enableLeaderElection = False, secureMetrics = True,
      webhookCertPath = '''', webhookCertName = ''tls.crt'', webhookCertKey = ''tls.key'',
      webhookCertSecretName = '''', webhookServiceName = ''kubetemplater-webhook-service'',
      webhookConfigurationName = ''kubetemplater-validating-webhook-configuration'',
      metricsCertPath = '''', metricsCertName = ''tls.crt'', metricsCertKey = ''tls.key'', enableHTTP2 = False\<rparr>"

text \<open>
  A declared flag: a string or boolean variable of \<^verbatim>\<open>main\<close>, or a flag of another package, of which
  matters whether it is boolean and which values it accepts.
\<close>

datatype flag_var =
    StringVar "string \<Rightarrow> flags \<Rightarrow> flags"
  | BoolVar "bool \<Rightarrow> flags \<Rightarrow> flags"
  | OtherFlag bool "string \<Rightarrow> bool"

definition declared_flags :: "(string \<times> flag_var) list" where
  "declared_flags =
     [(''metrics-bind-address'', StringVar (\<lambda>v fl. fl\<lparr>metricsAddr := v\<rparr>)),
      (''health-probe-bind-address'', StringVar (\<lambda>v fl. fl\<lparr>probeAddr := v\<rparr>)),
      (''leader-elect'', BoolVar (\<lambda>v fl. fl\<lparr>enableLeaderElection := v\<rparr>)),
      (''metrics-secure'', BoolVar (\<lambda>v fl. fl\<lparr>secureMetrics := v\<rparr>)),
      (''webhook-cert-path'', StringVar (\<lambda>v fl. fl\<lparr>webhookCertPath := v\<rparr>)),
      (''webhook-cert-name'', StringVar (\<lambda>v fl. fl\<lparr>webhookCertName := v\<rparr>)),
      (''webhook-cert-key'', StringVar (\<lambda>v fl. fl\<lparr>webhookCertKey := v\<rparr>)),
      (''webhook-cert-secret-name'', StringVar (\<lambda>v fl. fl\<lparr>webhookCertSecretName := v\<rparr>)),
      (''webhook-service-name'', StringVar (\<lambda>v fl. fl\<lparr>webhookServiceName := v\<rparr>)),
      (''webhook-configuration-name'', StringVar (\<lambda>v fl. fl\<lparr>webhookConfigurationName := v\<rparr>)),
      (''metrics-cert-path'', StringVar (\<lambda>v fl. fl\<lparr>metricsCertPath := v\<rparr>)),
      (''metrics-cert-name'', StringVar (\<lambda>v fl. fl\<lparr>metricsCertName := v\<rparr>)),
      (''metrics-cert-key'', StringVar (\<lambda>v fl. fl\<lparr>metricsCertKey := v\<rparr>)),
      (''enable-http2'', BoolVar (\<lambda>v fl. fl\<lparr>enableHTTP2 := v\<rparr>))]"

section \<open>Parsing\<close>

text \<open>\<^verbatim>\<open>strconv.ParseBool\<close>\<close>

definition ParseBool :: "string \<Rightarrow> bool option" where
  "ParseBool s =
     (if s \<in> {''1'', ''t'', ''T'', ''true'', ''TRUE'', ''True''} then Some True
      else if s \<in> {''0'', ''f'', ''F'', ''false'', ''FALSE'', ''False''} then Some False
      else None)"

fun is_bool_flag :: "flag_var \<Rightarrow> bool" where
  "is_bool_flag (StringVar f) = False"
| "is_bool_flag (BoolVar f) = True"
| "is_bool_flag (OtherFlag b ok) = b"

fun set_flag :: "flag_var \<Rightarrow> string \<Rightarrow> flags \<Rightarrow> flags option" where
  "set_flag (StringVar f) v fl = Some (f v fl)"
| "set_flag (BoolVar f) v fl = (case ParseBool v of None \<Rightarrow> None | Some b \<Rightarrow> Some (f b fl))"
| "set_flag (OtherFlag b ok) v fl = (if ok v then Some fl else None)"

text \<open>The name and, after the first equals sign that is not its first character, the value.\<close>

definition split_flag :: "string \<Rightarrow> string \<times> string option" where
  "split_flag s =
     (let name = hd s # takeWhile (\<lambda>c. c \<noteq> CHR ''='') (tl s);
          rest = dropWhile (\<lambda>c. c \<noteq> CHR ''='') (tl s)
      in (name, if rest = [] then None else Some (tl rest)))"

datatype flag_error =
    BadFlagSyntax string
  | NotDefined string
  | NeedsArgument string
  | InvalidValue string string

text \<open>
  The flags and the arguments that are left; \<^verbatim>\<open>flag.CommandLine\<close> exits with status 0 when help was asked
  for and with status 2 on an error.
\<close>

datatype parse_result = Parsed flags "string list" | HelpRequested | ParseError flag_error

definition lookup_flag :: "(string \<Rightarrow> flag_var option) \<Rightarrow> string \<Rightarrow> flag_var option" where
  "lookup_flag other name =
     (case map_of declared_flags name of Some v \<Rightarrow> Some v | None \<Rightarrow> other name)"

fun parse_flags :: "(string \<Rightarrow> flag_var option) \<Rightarrow> flags \<Rightarrow> string list \<Rightarrow> parse_result" where
  "parse_flags other fl [] = Parsed fl []"
| "parse_flags other fl (s # args) =
     (if length s < 2 \<or> hd s \<noteq> CHR ''-'' then Parsed fl (s # args)
      else if s = ''--'' then Parsed fl args
      else let name = (if s ! 1 = CHR ''-'' then drop 2 s else drop 1 s)
      in if name = [] \<or> hd name = CHR ''-'' \<or> hd name = CHR ''='' then ParseError (BadFlagSyntax s)
      else let (name, value) = split_flag name
      in case lookup_flag other name of
           None \<Rightarrow> if name = ''help'' \<or> name = ''h'' then HelpRequested else ParseError (NotDefined name)
         | Some var \<Rightarrow>
             if is_bool_flag var
             then let v = (case value of None \<Rightarrow> ''true'' | Some v \<Rightarrow> v)
                  in (case set_flag var v fl of
                        None \<Rightarrow> ParseError (InvalidValue v name)
                      | Some fl' \<Rightarrow> parse_flags other fl' args)
             else (case value of
                     Some v \<Rightarrow>
                       (case set_flag var v fl of
                          None \<Rightarrow> ParseError (InvalidValue v name)
                        | Some fl' \<Rightarrow> parse_flags other fl' args)
                   | None \<Rightarrow>
                       (case args of
                          [] \<Rightarrow> ParseError (NeedsArgument name)
                        | v # args' \<Rightarrow>
                            (case set_flag var v fl of
                               None \<Rightarrow> ParseError (InvalidValue v name)
                             | Some fl' \<Rightarrow> parse_flags other fl' args'))))"

declare parse_flags.simps(2) [simp del]

section \<open>Round trip\<close>

text \<open>A command line that sets every flag.\<close>

definition show_bool :: "bool \<Rightarrow> string" where
  "show_bool b = (if b then ''true'' else ''false'')"

definition flag_arg :: "string \<Rightarrow> string \<Rightarrow> string" where
  "flag_arg name v = ''--'' @ name @ ''='' @ v"

definition show_flags :: "flags \<Rightarrow> string list" where
  "show_flags fl =
     [flag_arg ''metrics-bind-address'' (metricsAddr fl),
      flag_arg ''health-probe-bind-address'' (probeAddr fl),
      flag_arg ''leader-elect'' (show_bool (enableLeaderElection fl)),
      flag_arg ''metrics-secure'' (show_bool (secureMetrics fl)),
      flag_arg ''webhook-cert-path'' (webhookCertPath fl),
      flag_arg ''webhook-cert-name'' (webhookCertName fl),
      flag_arg ''webhook-cert-key'' (webhookCertKey fl),
      flag_arg ''webhook-cert-secret-name'' (webhookCertSecretName fl),
      flag_arg ''webhook-service-name'' (webhookServiceName fl),
      flag_arg ''webhook-configuration-name'' (webhookConfigurationName fl),
      flag_arg ''metrics-cert-path'' (metricsCertPath fl),
      flag_arg ''metrics-cert-name'' (metricsCertName fl),
      flag_arg ''metrics-cert-key'' (metricsCertKey fl),
      flag_arg ''enable-http2'' (show_bool (enableHTTP2 fl))]"

lemma split_flag_arg: "CHR ''='' \<notin> set (c # cs) \<Longrightarrow> split_flag (c # cs @ CHR ''='' # v) = (c # cs, Some v)"
proof -
  assume "CHR ''='' \<notin> set (c # cs)"
  then have "CHR ''='' \<notin> set cs" by simp
  then have "takeWhile (\<lambda>c. c \<noteq> CHR ''='') (cs @ CHR ''='' # v) = cs \<and>
      dropWhile (\<lambda>c. c \<noteq> CHR ''='') (cs @ CHR ''='' # v) = CHR ''='' # v"
    by (induction cs) auto
  then show ?thesis by (simp add: split_flag_def)
qed

text \<open>One argument \<^verbatim>\<open>--name=value\<close> of a declared flag sets its variable.\<close>

lemma parse_flag_arg:
  assumes "map_of declared_flags (c # cs) = Some var" "c \<noteq> CHR ''-''" "CHR ''='' \<notin> set (c # cs)"
    and "set_flag var v fl = Some fl'"
  shows "parse_flags other fl (flag_arg (c # cs) v # args) = parse_flags other fl' args"
  using assms split_flag_arg [OF assms(3), of v]
  by (auto simp: parse_flags.simps(2) flag_arg_def lookup_flag_def split: if_splits)

lemma ParseBool_show [simp]: "ParseBool (show_bool b) = Some b"
  by (simp add: show_bool_def ParseBool_def)

text \<open>
  C40: Every configuration can be given on the command line and is read back: from any initial values of
  the flags, parsing the arguments that name every flag with its value yields exactly these
  values and leaves no argument, whatever flags other packages declare.
\<close>

theorem flags_roundtrip: "parse_flags other fl0 (show_flags fl) = Parsed fl []"
  by (simp add: show_flags_def parse_flag_arg declared_flags_def)

end
