(* ===== verification/Startup_Config.thy ===== *)
theory Startup_Config
  imports Queue_Retry Template_Processor Secret_Watcher Startup_Flags
begin

text \<open>
  What \<^verbatim>\<open>cmd/main.go\<close> computes before it hands over to the manager: tuning parameters from the
  environment, the namespaces of the certificate components, the policy cache, the work queue and
  the workers. The environment is a function from variable names to values, empty when unset.
\<close>

section \<open>Environment\<close>

type_synonym environment = "string \<Rightarrow> string"

definition getEnvInt :: "environment \<Rightarrow> string \<Rightarrow> go_int \<Rightarrow> go_int" where
  "getEnvInt env key defaultValue =
     (let valStr = env key
      in if valStr = '''' then defaultValue
         else (case Atoi valStr of None \<Rightarrow> defaultValue | Some val \<Rightarrow> val))"

text \<open>\<^verbatim>\<open>time.Duration(n) * time.Second\<close>\<close>

definition in_seconds :: "go_int \<Rightarrow> duration" where
  "in_seconds n = wrap64 (n * Second)"

definition numWorkers :: "environment \<Rightarrow> go_int" where
  "numWorkers env = (let n = getEnvInt env ''NUM_WORKERS'' 3 in if n < 1 then 1 else n)"

definition cacheTTL :: "environment \<Rightarrow> duration" where
  "cacheTTL env = (let n = getEnvInt env ''CACHE_TTL'' 300 in in_seconds (if n < 60 then 60 else n))"

definition policyCacheTTL :: "environment \<Rightarrow> duration" where
  "policyCacheTTL env =
     (let n = getEnvInt env ''POLICY_CACHE_TTL'' 60;
          n = (if n < 30 then 30 else n);
          n = (if n > 600 then 600 else n)
      in in_seconds n)"

definition periodicReconcileInterval :: "environment \<Rightarrow> duration" where
  "periodicReconcileInterval env =
     (let n = getEnvInt env ''PERIODIC_RECONCILE_INTERVAL'' 60 in in_seconds (if n < 30 then 30 else n))"

definition queueMaxRetries :: "environment \<Rightarrow> go_int" where
  "queueMaxRetries env = (let n = getEnvInt env ''QUEUE_MAX_RETRIES'' 5 in if n < 1 then 1 else n)"

definition queueInitialRetryDelay :: "environment \<Rightarrow> duration" where
  "queueInitialRetryDelay env =
     (let n = getEnvInt env ''QUEUE_INITIAL_RETRY_DELAY'' 1 in in_seconds (if n < 1 then 1 else n))"

definition queueMaxRetryDelay :: "environment \<Rightarrow> duration" where
  "queueMaxRetryDelay env =
     (let n = getEnvInt env ''QUEUE_MAX_RETRY_DELAY'' 300 in in_seconds (if n < 60 then 60 else n))"

definition queueMaxRetryCycles :: "environment \<Rightarrow> go_int" where
  "queueMaxRetryCycles env =
     (let n = getEnvInt env ''QUEUE_MAX_RETRY_CYCLES'' 3 in if n < 0 then 0 else n)"

section \<open>Wiring\<close>

definition podNamespace :: "environment \<Rightarrow> string" where
  "podNamespace env = (let ns = env ''POD_NAMESPACE'' in if ns = '''' then ''kubetemplater-system'' else ns)"

definition operatorNamespace :: "environment \<Rightarrow> string" where
  "operatorNamespace env = (let ns = env ''OPERATOR_NAMESPACE'' in if ns = '''' then ''default'' else ns)"

definition secretCertWatcher :: "environment \<Rightarrow> flags \<Rightarrow> 't SecretCertWatcher option" where
  "secretCertWatcher env fl =
     (if webhookCertSecretName fl \<noteq> ''''
      then Some (NewSecretCertWatcher (webhookCertSecretName fl) (podNamespace env)) else None)"

definition certManager :: "environment \<Rightarrow> flags \<Rightarrow> Manager option" where
  "certManager env fl =
     (if webhookCertSecretName fl \<noteq> ''''
      then Some (NewManager (webhookCertSecretName fl) (operatorNamespace env) (webhookServiceName fl)
        (webhookConfigurationName fl))
      else None)"

text \<open>The index function of the policies.\<close>

definition policy_index :: "KubeTemplatePolicy \<Rightarrow> string list" where
  "policy_index policy = [pol_SourceNamespace (pol_Spec policy)]"

definition startup_policyCache :: "environment \<Rightarrow> PolicyCache" where
  "startup_policyCache env = NewPolicyCache (policyCacheTTL env)"

definition startup_workQueue :: "environment \<Rightarrow> WorkQueue" where
  "startup_workQueue env = NewWorkQueueWithConfig (queueMaxRetries env) (queueInitialRetryDelay env)
     (queueMaxRetryDelay env) (queueMaxRetryCycles env)"

text \<open>The processors \<^verbatim>\<open>StartWorkers\<close> starts, given what they share.\<close>

definition StartWorkers ::
  "('w, 'u, 'v, 'h) TemplateProcessor \<Rightarrow> go_int \<Rightarrow> ('w, 'u, 'v, 'h) TemplateProcessor list" where
  "StartWorkers P n = map (\<lambda>i. P\<lparr>WorkerID := int i\<rparr>) [0..<nat n]"

text \<open>The readiness check \<^verbatim>\<open>certificate-ready\<close>.\<close>

definition certificate_ready :: "'t SecretCertWatcher \<Rightarrow> go_error option" where
  "certificate_ready s = (if IsReady s then None else Some (Errorf ''certificate not loaded yet''))"

section \<open>Properties\<close>

lemma in_seconds_small: "0 \<le> n \<Longrightarrow> n \<le> 9223372036 \<Longrightarrow> in_seconds n = n * Second"
  by (simp add: in_seconds_def wrap64_id in_i64_def Second_def)

lemma getEnvInt_value: "getEnvInt (env(key := itoa n)) key d = (if in_i64 n then n else d)"
  by (simp add: getEnvInt_def Atoi_itoa)

text \<open>
  An environment variable holding the decimal form of a 64-bit integer is read as that integer;
  with a number outside the range, or an empty or missing value, the default is used.
\<close>

lemma getEnvInt_roundtrip:
  "getEnvInt (env(key := itoa n)) key d = (if in_i64 n then n else d) \<and>
   getEnvInt (env(key := '''')) key d = d"
  by (simp add: getEnvInt_value) (simp add: getEnvInt_def)

text \<open>
  C30: Whatever the environment, the operator starts with usable parameters: at least one worker, the
  workers numbered from 0 without repetition, a policy cache whose entries live between thirty seconds
  and ten minutes, and an empty, consistent work queue that retries at least once and has no
  negative limit of cycles.
\<close>

theorem startup_parameters:
  "1 \<le> numWorkers env \<and>
   map WorkerID (StartWorkers P (numWorkers env)) = map int [0..<nat (numWorkers env)] \<and>
   30 * Second \<le> pc_ttl (startup_policyCache env) \<and> pc_ttl (startup_policyCache env) \<le> 600 * Second \<and>
   queue_inv (startup_workQueue env) {} \<and> items (startup_workQueue env) = [] \<and>
   1 \<le> MaxRetries (startup_workQueue env) \<and> 0 \<le> MaxRetryCycles (startup_workQueue env)"
  by (auto simp: numWorkers_def StartWorkers_def startup_policyCache_def NewPolicyCache_def policyCacheTTL_def
      Let_def in_seconds_small Second_def queue_inv_New startup_workQueue_def queueMaxRetries_def
      queueMaxRetryCycles_def)

text \<open>
  With an initial delay of at most eight seconds and a maximal delay that fits 64 bits as
  nanoseconds, every backoff of the work queue the operator starts with is positive and at most
  the configured maximum.
\<close>

lemma startup_backoff_safe:
  assumes "getEnvInt env ''QUEUE_INITIAL_RETRY_DELAY'' 1 \<le> 8"
    and "getEnvInt env ''QUEUE_MAX_RETRY_DELAY'' 300 \<le> 9223372036"
    and "1 \<le> rc" and "in_i64 rc"
  shows "0 < backoff_delay (startup_workQueue env) rc \<and>
    backoff_delay (startup_workQueue env) rc \<le> queueMaxRetryDelay env"
proof -
  let ?q = "startup_workQueue env"
  have delay: "Second \<le> InitialRetryDelay ?q" "InitialRetryDelay ?q \<le> 8 * Second"
    using assms(1) by (auto simp: startup_workQueue_def queueInitialRetryDelay_def Let_def in_seconds_small Second_def)
  have limit: "MaxRetryDelay ?q = queueMaxRetryDelay env" "0 < queueMaxRetryDelay env"
    using assms(2) by (auto simp: startup_workQueue_def queueMaxRetryDelay_def Let_def in_seconds_small Second_def)
  have "backoff_delay ?q rc = min (MaxRetryDelay ?q) (InitialRetryDelay ?q * 2 ^ nat (min (rc - 1) 30))"
    using delay assms(3,4) by (intro backoff_delay_eq) (simp_all add: Second_def)
  then show ?thesis using delay limit by (simp add: Second_def)
qed

lemma startup_backoff_safe_witness:
  "0 < backoff_delay (startup_workQueue (\<lambda>_. '''')) 40 \<and>
    backoff_delay (startup_workQueue (\<lambda>_. '''')) 40 \<le> queueMaxRetryDelay (\<lambda>_. '''')"
  by (rule startup_backoff_safe) (simp_all add: getEnvInt_def in_i64_def)

text \<open>Durations have no upper bound: from 9223372037 seconds on the product wraps around.\<close>

lemma periodic_interval_wraps:
  "periodicReconcileInterval ((\<lambda>_. '''')(''PERIODIC_RECONCILE_INTERVAL'' := itoa 9223372037)) < 0"
  using getEnvInt_value [of "\<lambda>_. ''''" "''PERIODIC_RECONCILE_INTERVAL''" 9223372037 60]
  by (simp add: periodicReconcileInterval_def in_seconds_def wrap64_def in_i64_def Second_def)

text \<open>
  C38: When a certificate secret is configured, the manager writes the server certificate to the secret
  the watcher reads exactly when the two namespace variables resolve to the same namespace; their
  defaults differ, so with neither set, or with only one set to a namespace other than the default of
  the other, the watcher never reads what the manager writes.
\<close>

theorem watcher_reads_managed_secret_iff:
  assumes "webhookCertSecretName fl \<noteq> ''''"
  shows "\<exists>m s. certManager env fl = Some m \<and> secretCertWatcher env fl = Some s \<and>
    (server_key m = \<lparr>Namespace = sw_secretNamespace s, Name = sw_secretName s\<rparr> \<longleftrightarrow>
      operatorNamespace env = podNamespace env) \<and>
    (env ''POD_NAMESPACE'' = '''' \<and> env ''OPERATOR_NAMESPACE'' \<noteq> ''kubetemplater-system'' \<or>
     env ''OPERATOR_NAMESPACE'' = '''' \<and> env ''POD_NAMESPACE'' \<noteq> ''default'' \<longrightarrow>
      server_key m \<noteq> \<lparr>Namespace = sw_secretNamespace s, Name = sw_secretName s\<rparr>)"
  using assms
  by (auto simp: certManager_def secretCertWatcher_def server_key_def NewManager_def NewSecretCertWatcher_def
      operatorNamespace_def podNamespace_def Let_def)

theorem watcher_reads_managed_secret_iff_witness:
  "\<exists>m (s :: bytes SecretCertWatcher).
    certManager (\<lambda>_. '''') (default_flags\<lparr>webhookCertSecretName := ''tls''\<rparr>) = Some m \<and>
    secretCertWatcher (\<lambda>_. '''') (default_flags\<lparr>webhookCertSecretName := ''tls''\<rparr>) = Some s \<and>
    server_key m \<noteq> \<lparr>Namespace = sw_secretNamespace s, Name = sw_secretName s\<rparr>"
  using watcher_reads_managed_secret_iff [of
      "default_flags\<lparr>webhookCertSecretName := ''tls''\<rparr>" "\<lambda>_. ''''"]
  by auto

end
