(* ===== verification/Operator_System.thy ===== *)
theory Operator_System
  imports Reconciler_Properties Webhook_Properties Startup_Config
begin

text \<open>
  The running operator: the controller, the pool of workers, the two policy controllers and the
  webhook as they interleave over one API server, one policy cache and one work queue, from the queue and the
  cache that \<^verbatim>\<open>cmd/main.go\<close> creates. A step is a call of a handler; a worker takes an item
  and handles it in two steps, so that other handlers run in between. What others do to the API server is a
  step of its own, and within a handler it is an answer of the server, about which little is assumed. The
  namespace controller and the certificate components share only the API server with these
  and are part of the outside.
\<close>

section \<open>Steps\<close>

text \<open>Shared state, compiled patterns of the webhook, and the items workers have taken.\<close>

record ('w, 'u, 're) operator =
  op_sys :: "('w, 'u) sys"
  op_regex :: "(string, 're) mapping option"
  op_held :: "ptr set"

definition webhook_view :: "('w, 'u, 're) operator \<Rightarrow> ('w, 'u, 're) webhook_state" where
  "webhook_view x = \<lparr>world = world (op_sys x), trace = trace (op_sys x), pcache = pcache (op_sys x),
     regexCache = op_regex x\<rparr>"

definition webhook_ran :: "('w, 'u, 're) operator \<Rightarrow> ('w, 'u, 're) webhook_state \<Rightarrow> ('w, 'u, 're) operator" where
  "webhook_ran x s = x\<lparr>op_sys := (op_sys x)\<lparr>world := world s, trace := trace s, pcache := pcache s\<rparr>,
     op_regex := regexCache s\<rparr>"

definition runs :: "('s, 'a) state \<Rightarrow> 's \<Rightarrow> 's" where
  "runs m s = snd (run_state m s)"

inductive operator_step ::
  "('w, 'u, 'v, 'h) TemplateProcessor \<Rightarrow> go_int \<Rightarrow> ('w, 'u, 'v, 'h) KubeTemplateReconciler \<Rightarrow>
   ('w, 'u, 'v, 'h, 're) KubeTemplateValidator \<Rightarrow> ('w, 'u, 're) operator \<Rightarrow> ('w, 'u, 're) operator \<Rightarrow> bool"
  for P n R V where
  reconcile: "operator_step P n R V x (x\<lparr>op_sys := runs (Reconcile R nn) (op_sys x)\<rparr>)"
| take_item: "s = op_sys x \<Longrightarrow> w_Now (Client P) (world s) = (now, w) \<Longrightarrow>
     Dequeue_pass (wqueue s) now = Some (Dequeued p, wq) \<Longrightarrow>
     operator_step P n R V x (x\<lparr>op_sys := s\<lparr>world := w, wqueue := wq\<rparr>, op_held := insert p (op_held x)\<rparr>)"
| wait: "s = op_sys x \<Longrightarrow> w_Now (Client P) (world s) = (now, w) \<Longrightarrow>
     Dequeue_pass (wqueue s) now = Some (out, wq) \<Longrightarrow> \<forall>p. out \<noteq> Dequeued p \<Longrightarrow>
     operator_step P n R V x (x\<lparr>op_sys := s\<lparr>world := w, wqueue := wq\<rparr>\<rparr>)"
| handle: "W \<in> set (StartWorkers P n) \<Longrightarrow> p \<in> op_held x \<Longrightarrow>
     operator_step P n R V x (x\<lparr>op_sys := runs (handle_item W p) (op_sys x), op_held := op_held x - {p}\<rparr>)"
| policy_cache: "operator_step P n R V x
     (x\<lparr>op_sys := runs (PolicyCacheReconciler_Reconcile (Client P) nn) (op_sys x)\<rparr>)"
| policy: "operator_step P n R V x
     (x\<lparr>op_sys := runs (KubeTemplatePolicyReconciler_Reconcile (Client P) True nn) (op_sys x)\<rparr>)"
| admit_create: "operator_step P n R V x (webhook_ran x (runs (ValidateCreate V obj) (webhook_view x)))"
| admit_update: "operator_step P n R V x (webhook_ran x (runs (ValidateUpdate V old obj) (webhook_view x)))"
| outside: "operator_step P n R V x (x\<lparr>op_sys := (op_sys x)\<lparr>world := w\<rparr>\<rparr>)"

text \<open>The state after startup, with the API server in any state.\<close>

definition operator_init :: "environment \<Rightarrow> 'w \<Rightarrow> ('w, 'u, 're) operator" where
  "operator_init env w = \<lparr>op_sys = \<lparr>world = w, trace = [], pcache = startup_policyCache env,
     wqueue = startup_workQueue env\<rparr>, op_regex = None, op_held = {}\<rparr>"

text \<open>The components are given the client of the same manager and the same operator namespace.\<close>

definition wired ::
  "('w, 'u, 'v, 'h) TemplateProcessor \<Rightarrow> ('w, 'u, 'v, 'h) KubeTemplateReconciler \<Rightarrow>
   ('w, 'u, 'v, 'h, 're) KubeTemplateValidator \<Rightarrow> bool" where
  "wired P R V \<longleftrightarrow> r_Client R = Client P \<and> v_Client V = Client P \<and>
     v_OperatorNamespace V = OperatorNamespace P \<and>
     r_Unst R = Unst P \<and> v_Unst V = Unst P \<and> r_Hash R = Hash P"

section \<open>Calls of each component\<close>

text \<open>
  What the operator may write: what a policy authorises, or the object of a template of a completed KubeTemplate
  whose spec has the hash recorded when it was last queued or completed.
\<close>

definition rechecked :: "('w, 'u, 'v, 'h) TemplateProcessor \<Rightarrow> 'u \<Rightarrow> bool" where
  "rechecked P u \<longleftrightarrow> (\<exists>nn kt. kt \<in> answers (Client P) nn \<and> st_ProcessingPhase (kt_Status kt) = ''Completed'' \<and>
     st_AppliedSpecHash (kt_Status kt) = calculateSpecHash (Hash P) (kt_Spec kt) \<and>
     st_AppliedSpecHash (kt_Status kt) \<noteq> '''' \<and>
     (\<exists>t \<in> set (spec_Templates (kt_Spec kt)). u_Unmarshal (Unst P) (tpl_Object t) = Inr u))"

fun operator_call :: "('w, 'u, 'v, 'h) TemplateProcessor \<Rightarrow> 'u call \<Rightarrow> bool" where
  "operator_call P (CPatch opts u e) =
     (if opts = apply_options then \<exists>nn. may_write P nn (\<lambda>_. True) u
      else (opts = dry_run_options \<or> opts = correct_options) \<and> rechecked P u)"
| "operator_call P (CDelete u e) = (\<exists>nn. may_write P nn tpl_Replace u)"
| "operator_call P c = True"

lemma quiet_operator: "quiet (operator_call P)"
  unfolding quiet_def
proof
  show "\<not> is_write c \<longrightarrow> operator_call P c" for c by (cases c) auto
qed

lemma authorised_operator_call: "authorised_call P nn c \<Longrightarrow> operator_call P c"
  by (cases c) auto

lemma authorised_worker: "authorised_call (P\<lparr>WorkerID := i\<rparr>) nn c = authorised_call P nn c"
proof -
  have v: "template_verdict (P\<lparr>WorkerID := i\<rparr>) = template_verdict P"
    by (simp add: fun_eq_iff template_verdict_def check_object_def Let_def
        cong: sum.case_cong option.case_cong if_cong)
  have "may_write (P\<lparr>WorkerID := i\<rparr>) nn Q u = may_write P nn Q u" for Q u
    by (simp add: may_write_def served_def v)
  then show ?thesis by (cases c) simp_all
qed

section \<open>Controller\<close>

text \<open>What a KubeTemplate read by the controller is.\<close>

lemma emits_GetTemplate_first:
  assumes "world_free I" and "quiet \<Phi>" and ok: "client_ok W"
  shows "emits I \<Phi> (\<lambda>r. fst r = None \<longrightarrow> snd r \<in> answers W nn) (client_GetTemplate W nn zero_template)"
  unfolding client_GetTemplate_def
proof (rule emits_call)
  show "fst (fst (w_GetTemplate W nn zero_template w)) = None \<longrightarrow>
      snd (fst (w_GetTemplate W nn zero_template w)) \<in> answers W nn" for w
    using client_okD(1) [OF ok, of nn zero_template w "snd (fst (w_GetTemplate W nn zero_template w))"]
    by (cases "fst (w_GetTemplate W nn zero_template w)") (auto simp: answers_def)
qed (use assms in \<open>auto simp: quiet_def\<close>)

lemma emits_retry_loop: "emits I \<Phi> (\<lambda>_. True) f \<Longrightarrow> emits I \<Phi> (\<lambda>_. True) (retry_loop k f)"
  by (induction k) (auto intro!: emits_rules)

lemma emits_queue_modify:
  "(\<And>s. I s \<Longrightarrow> I (s\<lparr>wqueue := f (wqueue s)\<rparr>)) \<Longrightarrow> emits I \<Phi> (\<lambda>_. True) (queue_modify f)"
  by (simp add: emits_def keeps_def queue_modify_def)

lemma emits_enqueue:
  "emits (source_inv W :: ('w, 'u) sys \<Rightarrow> bool) \<Phi> (\<lambda>_. True) (enqueue_and_return R nn)"
  unfolding enqueue_and_return_def
  by (intro emits_rules world_free_source emits_queue_modify) simp_all

lemma emits_requeue:
  assumes "quiet \<Phi>"
  shows "emits (source_inv W :: ('w, 'u) sys \<Rightarrow> bool) \<Phi> (\<lambda>_. True) (requeue_template R kt)"
  unfolding requeue_template_def
  by (intro emits_rules emits_client world_free_source assms emits_enqueue) (auto intro!: emits_rules emits_enqueue)

lemma emits_apply_resource:
  fixes P :: "('w, 'u, 'v, 'h) TemplateProcessor" and R :: "('w, 'u, 'v, 'h) KubeTemplateReconciler"
  assumes I: "world_free I" and u: "r_Unst R = Unst P"
    and t: "\<And>obj. u_Unmarshal (Unst P) (tpl_Object t) = Inr obj \<Longrightarrow> rechecked P obj"
  shows "emits I (operator_call P) (\<lambda>_. True) (apply_resource R t)"
proof -
  have patch: "emits I (operator_call P) (\<lambda>_. True) (client_Patch (r_Client R) opts obj)"
    if "u_Unmarshal (r_Unst R) (tpl_Object t) = Inr obj" "opts = dry_run_options \<or> opts = correct_options" for opts obj
    using that t u unfolding client_Patch_def
    by (intro emits_call I) (auto simp: apply_options_def dry_run_options_def correct_options_def)
  have get: "emits I (operator_call P) (\<lambda>_. True) (client_GetObject (r_Client R) gvk nn)" for gvk nn
    unfolding client_GetObject_def by (rule emits_call [OF I]) auto
  show ?thesis
    unfolding apply_resource_def correct_object_def Let_def
    by (intro emits_rules get patch) (auto intro!: emits_rules get patch)
qed

lemma emits_apply_resources:
  fixes P :: "('w, 'u, 'v, 'h) TemplateProcessor" and R :: "('w, 'u, 'v, 'h) KubeTemplateReconciler"
  assumes I: "world_free I" and u: "r_Unst R = Unst P"
    and ts: "\<And>t obj. t \<in> set ts \<Longrightarrow> u_Unmarshal (Unst P) (tpl_Object t) = Inr obj \<Longrightarrow> rechecked P obj"
  shows "emits I (operator_call P) (\<lambda>_. True) (apply_resources R k d ts)"
  using ts
proof (induction ts arbitrary: k d)
  case Nil
  then show ?case by (simp add: emits_return)
next
  case (Cons t ts)
  have "emits I (operator_call P) (\<lambda>_. True) (apply_resource R t)"
    using Cons.prems [of t] by (intro emits_apply_resource [OF I u]) simp
  moreover have "emits I (operator_call P) (\<lambda>_. True) (apply_resources R k' d' ts)" for k' d'
    by (rule Cons.IH) (use Cons.prems in auto)
  ultimately show ?case by (simp add: emits_bind_any)
qed

text \<open>The periodic check only patches objects of a KubeTemplate that is completed and unchanged.\<close>

lemma emits_completed:
  fixes P :: "('w, 'u, 'v, 'h) TemplateProcessor" and R :: "('w, 'u, 'v, 'h) KubeTemplateReconciler"
  assumes w: "r_Client R = Client P" "r_Unst R = Unst P" "r_Hash R = Hash P"
    and kt: "kt \<in> answers (Client P) nn" "st_ProcessingPhase (kt_Status kt) = ''Completed''"
  shows "emits (source_inv W :: ('w, 'u) sys \<Rightarrow> bool) (operator_call P) (\<lambda>_. True) (reconcile_completed R kt)"
proof -
  note rules = emits_rules emits_client world_free_source quiet_operator emits_requeue [OF quiet_operator]
  have periodic: "emits (source_inv W :: ('w, 'u) sys \<Rightarrow> bool) (operator_call P) (\<lambda>_. True) (reconcile_periodic R kt)"
    if h: "st_AppliedSpecHash (kt_Status kt) = calculateSpecHash (Hash P) (kt_Spec kt)"
      "st_AppliedSpecHash (kt_Status kt) \<noteq> ''''"
  proof -
    have r: "rechecked P obj" if "t \<in> set (spec_Templates (kt_Spec kt))"
        "u_Unmarshal (Unst P) (tpl_Object t) = Inr obj" for t obj
      using that kt h unfolding rechecked_def by blast
    note apply_res = emits_apply_resources [OF world_free_source w(2) r]
    show ?thesis
      unfolding reconcile_periodic_def applyTemplateResources_def Let_def
      by (intro rules apply_res) (auto intro!: rules apply_res)
  qed
  show ?thesis
    unfolding reconcile_completed_def Let_def
    using periodic by (intro rules) (auto simp: hash_agree w intro!: rules)
qed

lemma emits_Reconcile:
  fixes P :: "('w, 'u, 'v, 'h) TemplateProcessor" and R :: "('w, 'u, 'v, 'h) KubeTemplateReconciler"
  assumes w: "r_Client R = Client P" "r_Unst R = Unst P" "r_Hash R = Hash P"
    and ok: "client_ok (Client P)" "retry_ok R"
  shows "emits (source_inv W :: ('w, 'u) sys \<Rightarrow> bool) (operator_call P) (\<lambda>_. True) (Reconcile R nn)"
proof -
  note rules = emits_rules emits_client world_free_source quiet_operator emits_requeue [OF quiet_operator] emits_enqueue
  have mark: "emits (source_inv W :: ('w, 'u) sys \<Rightarrow> bool) (operator_call P) (\<lambda>_. True) (r_Retry R (mark_queued R nn))"
  proof -
    have "emits (source_inv W :: ('w, 'u) sys \<Rightarrow> bool) (operator_call P) (\<lambda>_. True) (mark_queued R nn)"
      unfolding mark_queued_def Let_def by (intro rules) (auto intro!: rules)
    then show ?thesis using ok(2) emits_retry_loop unfolding retry_ok_def by metis
  qed
  have phases: "emits (source_inv W :: ('w, 'u) sys \<Rightarrow> bool) (operator_call P) (\<lambda>_. True) (reconcile_paused R kt)"
      "emits (source_inv W :: ('w, 'u) sys \<Rightarrow> bool) (operator_call P) (\<lambda>_. True) (reconcile_failed R kt)"
      "emits (source_inv W :: ('w, 'u) sys \<Rightarrow> bool) (operator_call P) (\<lambda>_. True) (reconcile_pending R nn kt)" for kt
    unfolding reconcile_paused_def reconcile_failed_def reconcile_pending_def Let_def
    by (intro rules mark; auto intro!: rules)+
  show ?thesis
    unfolding Reconcile_def Let_def w(1)
    by (rule emits_bind [OF emits_GetTemplate_first [OF world_free_source quiet_operator ok(1)]])
      (auto split: prod.split option.split intro!: emits_return phases emits_completed [OF w])
qed

section \<open>Workers\<close>

lemma emits_handle_item:
  fixes P :: "('w, 'u, 'v, 'h) TemplateProcessor"
  assumes ok: "client_ok (Client P)" and W: "W \<in> set (StartWorkers P n)"
  shows "emits (source_inv (Client P) :: ('w, 'u) sys \<Rightarrow> bool) (operator_call P) (\<lambda>_. True) (handle_item W p)"
proof -
  obtain i where i: "W = P\<lparr>WorkerID := i\<rparr>" using W by (auto simp: StartWorkers_def)
  then have c: "Client W = Client P" by simp
  have item: "emits (source_inv (Client P) :: ('w, 'u) sys \<Rightarrow> bool) (operator_call P) (\<lambda>_. True) (processItem W nn)" for nn
    by (rule emits_weaken [OF emits_processItem [of W nn, unfolded c, OF ok]])
      (auto simp: i authorised_worker intro: authorised_operator_call)
  note rules = emits_rules emits_client world_free_source quiet_operator
  have pause: "emits (source_inv (Client P) :: ('w, 'u) sys \<Rightarrow> bool) (operator_call P) (\<lambda>_. True) (pause_template W nn k err)" for nn k err
  proof -
    have upd: "emits (source_inv (Client P) :: ('w, 'u) sys \<Rightarrow> bool) (operator_call P) (\<lambda>_. True)
        (updateStatusWithRetry (Client P) kt (set_paused r t))" if "kt \<in> answers (Client P) nn" for kt r t
      by (rule emits_weaken [OF emits_updateStatus [OF world_free_source quiet_operator ok _ that]]) simp_all
    show ?thesis
      unfolding pause_template_def Let_def c
      by (rule emits_bind [OF emits_GetTemplate_first [OF world_free_source quiet_operator ok]])
        (auto split: prod.split option.split intro!: rules upd)
  qed
  show ?thesis
    unfolding handle_item_def Let_def
    by (intro rules item pause emits_queue_modify) (auto intro!: rules item pause emits_queue_modify)
qed

section \<open>Policy controllers and webhook\<close>

lemma emits_pc_modify:
  "(\<And>c. cache_ok c \<Longrightarrow> cache_ok (f c)) \<Longrightarrow> emits (source_inv W) \<Phi> (\<lambda>_. True) (pc_modify f)"
  by (simp add: emits_def keeps_def)

lemma emits_pc_store:
  assumes "\<And>p. pol = Some p \<Longrightarrow> pol_SourceNamespace (pol_Spec p) = ns"
  shows "emits (source_inv W) \<Phi> (\<lambda>_. True) (pc_store W' ns pol)"
  unfolding pc_store_def using assms
  by (intro emits_rules emits_pc_modify cache_ok_put) (auto simp: world_free_def)

lemma emits_policy_controllers:
  assumes "quiet \<Phi>"
  shows "emits (source_inv W) \<Phi> (\<lambda>_. True) (PolicyCacheReconciler_Reconcile W' nn)"
    and "emits (source_inv W) \<Phi> (\<lambda>_. True) (KubeTemplatePolicyReconciler_Reconcile W' b nn)"
proof -
  have get: "emits (source_inv W) \<Phi> (\<lambda>_. True) (client_GetPolicy W' nn p)" for p
    using assms unfolding client_GetPolicy_def by (intro emits_call) (auto simp: quiet_def world_free_def)
  note rules = emits_rules get emits_pc_modify emits_pc_store cache_ok_remove
  show "emits (source_inv W) \<Phi> (\<lambda>_. True) (PolicyCacheReconciler_Reconcile W' nn)"
    unfolding PolicyCacheReconciler_Reconcile_def PolicyCache_Delete_def PolicyCache_Set_def
    by (intro rules) (auto split: option.split intro!: rules)
  show "emits (source_inv W) \<Phi> (\<lambda>_. True) (KubeTemplatePolicyReconciler_Reconcile W' b nn)"
    unfolding KubeTemplatePolicyReconciler_Reconcile_def PolicyCache_Clear_def PolicyCache_Update_def
    by (intro rules) (auto split: option.split intro!: rules)
qed

lemma policy_controllers_queue:
  "wqueue (runs (PolicyCacheReconciler_Reconcile W nn) s) = wqueue s"
  "wqueue (runs (KubeTemplatePolicyReconciler_Reconcile W b nn) s) = wqueue s"
  by (auto simp: runs_def PolicyCacheReconciler_Reconcile_def KubeTemplatePolicyReconciler_Reconcile_def
      PolicyCache_Delete_def PolicyCache_Set_def PolicyCache_Clear_def PolicyCache_Update_def
      client_GetPolicy_def run_do_call run_pc_store split: prod.split option.split)

text \<open>Admission only reads: it lists policies and evaluates expressions.\<close>

lemma emits_Get_quiet:
  assumes "quiet \<Phi>"
  shows "emits (source_inv W) \<Phi> (\<lambda>_. True) (PolicyCache_Get W ns opNs)"
  unfolding emits_def
proof (intro conjI allI impI)
  show "keeps (source_inv W) (\<lambda>_. True) (PolicyCache_Get W ns opNs)"
    by (rule keeps_weaken [OF Get_source]) simp
  show "\<exists>cs. trace (snd (run_state (PolicyCache_Get W ns opNs) s)) = trace s @ cs \<and> (\<forall>c \<in> set cs. \<Phi> c)" for s
    using Get_trace [of W ns opNs s] assms by (auto simp: quiet_def)
qed

lemma emits_regex: "emits (source_inv W) \<Phi> (\<lambda>_. True) (get_regex V pattern)"
  by (auto simp: emits_def keeps_def get_regex_def Let_def split: option.split sum.split)

lemma emits_eval: "emits (source_inv W) \<Phi> (\<lambda>_. True) (cel_ContextEval W' tmo prg var val)"
  unfolding cel_ContextEval_def by (rule emits_call) (auto simp: world_free_def)

lemma emits_CELRule: "emits (source_inv W) \<Phi> (\<lambda>_. True) (validateCELRule V rule obj idx vname nv)"
  unfolding validateCELRule_def Let_def
  by (intro emits_rules emits_eval) simp_all

lemma emits_one: "emits (source_inv W) \<Phi> (\<lambda>_. True) (validate_one V k v obj i)"
proof -
  have "emits (source_inv W) \<Phi> (\<lambda>_. True) (validateFieldCEL V v obj i)"
    unfolding validateFieldCEL_def Let_def by (intro emits_rules emits_CELRule) simp_all
  moreover have "emits (source_inv W) \<Phi> (\<lambda>_. True) (validateFieldRegex V v obj i)"
    unfolding validateFieldRegex_def Let_def by (intro emits_rules emits_regex) simp_all
  ultimately show ?thesis by (cases "fv_Type v") (simp_all add: validate_one_def emits_return)
qed

lemma emits_fields: "emits (source_inv W) \<Phi> (\<lambda>_. True) (validateFieldValidations_from V k vs obj i)"
  by (induction vs arbitrary: k) (auto intro!: emits_rules emits_one)

lemma emits_rule: "emits (source_inv W) \<Phi> (\<lambda>_. True) (validate_rule V rule obj idx)"
  unfolding validate_rule_def validateFieldValidations_def
  by (intro emits_rules emits_CELRule emits_fields) simp_all

lemma emits_template: "emits (source_inv W) \<Phi> (\<lambda>_. True) (validate_template V pol ns idx t)"
  unfolding validate_template_def Let_def by (intro emits_rules emits_rule) simp_all

lemma emits_templates: "emits (source_inv W) \<Phi> (\<lambda>_. True) (validate_templates V pol ns idx ts ws)"
  by (induction ts arbitrary: idx ws) (auto split: prod.split option.split intro!: emits_rules emits_template)

lemma emits_KubeTemplate:
  assumes "quiet \<Phi>" "v_Client V = W"
  shows "emits (source_inv W) \<Phi> (\<lambda>_. True) (validateKubeTemplate V kt)"
  unfolding validateKubeTemplate_def Let_def assms(2)
  by (intro emits_rules emits_Get_quiet [OF assms(1)] emits_templates) simp_all

lemma emits_admission:
  assumes "quiet \<Phi>" "v_Client V = W"
  shows "emits (source_inv W) \<Phi> (\<lambda>_. True) (ValidateCreate V obj)"
    and "emits (source_inv W) \<Phi> (\<lambda>_. True) (ValidateUpdate V old obj)"
  by (cases obj; simp add: ValidateCreate_def ValidateUpdate_def emits_return emits_KubeTemplate [OF assms])+

lemma keeps_KubeTemplate: "keeps (webhook_inv V) (\<lambda>_. True) (validateKubeTemplate V kt)"
proof -
  have get: "keeps (webhook_inv V) (\<lambda>_. True) (PolicyCache_Get (v_Client V) ns (v_OperatorNamespace V))" for ns
    by (rule keeps_weaken [OF keeps_webhook_Get]) simp
  have ts: "keeps (webhook_inv V) (\<lambda>_. True) (validate_templates V pol ns idx ts ws)"
    for pol :: KubeTemplatePolicy and ns idx and ts :: "Template list" and ws
    by (rule keeps_weaken [OF keeps_validate_templates]) simp
  show ?thesis unfolding validateKubeTemplate_def Let_def by (intro keeps_rules get ts) simp_all
qed

lemma keeps_admission:
  "keeps (webhook_inv V) (\<lambda>_. True) (ValidateCreate V obj)"
  "keeps (webhook_inv V) (\<lambda>_. True) (ValidateUpdate V old obj)"
  by (cases obj; simp add: ValidateCreate_def ValidateUpdate_def keeps_return keeps_KubeTemplate)+

section \<open>The queue under the handlers\<close>

abbreviation (input) queue_ok :: "ptr set \<Rightarrow> ('w, 'u) sys \<Rightarrow> bool" where
  "queue_ok held s \<equiv> queue_inv (wqueue s) held"

lemma world_free_queue_ok: "world_free (queue_ok held)"
  by (simp add: world_free_def)

lemma keeps_queue_ok: "(\<And>q. keeps (\<lambda>s. wqueue s = q) Q m) \<Longrightarrow> keeps (queue_ok held) Q m"
  unfolding keeps_def by metis

lemma keeps_enqueue: "keeps (queue_ok held) (\<lambda>out. out \<noteq> ReconcilePanics) (enqueue_and_return R nn)"
  unfolding keeps_def
proof (intro allI impI)
  show "queue_inv (wqueue (snd (run_state (enqueue_and_return R nn) s))) held \<and>
      fst (run_state (enqueue_and_return R nn) s) \<noteq> ReconcilePanics" if "queue_inv (wqueue s) held" for s
    using enqueue_handed_over [OF that, of nn R] by (auto simp: handed_over_def split: if_splits)
qed

lemma keeps_Reconcile:
  fixes R :: "('w, 'u, 'v, 'h) KubeTemplateReconciler"
  assumes "retry_ok R"
  shows "keeps (queue_ok held) (\<lambda>out. out \<noteq> ReconcilePanics) (Reconcile R nn)"
proof -
  let ?I = "queue_ok held :: ('w, 'u) sys \<Rightarrow> bool"
  note rules = keeps_rules keeps_client [OF world_free_queue_ok, where 'a = 'w] keeps_enqueue
  have requeue: "keeps ?I (\<lambda>out. out \<noteq> ReconcilePanics) (requeue_template R kt)" for kt
    unfolding requeue_template_def by (intro rules) (auto intro!: rules)
  have mark: "keeps ?I (\<lambda>_. True) (r_Retry R (mark_queued R nn))"
    using assms keeps_retry_loop [OF keeps_queue_ok [OF keeps_mark_queued]] unfolding retry_ok_def by metis
  have periodic: "keeps ?I (\<lambda>out. out \<noteq> ReconcilePanics) (reconcile_periodic R kt)" for kt
    unfolding keeps_def by (simp add: periodic_queue)
  show ?thesis
    unfolding Reconcile_def reconcile_paused_def reconcile_failed_def reconcile_completed_def
      reconcile_pending_def Let_def
    by (intro rules requeue periodic mark) (auto intro!: rules requeue periodic mark)
qed

lemma Reconcile_inv:
  assumes "retry_ok R" "queue_inv (wqueue s) held"
  shows "queue_inv (wqueue (runs (Reconcile R nn) s)) held"
  using keeps_run(1) [OF keeps_Reconcile [OF assms(1)], of s held nn] assms(2) by (simp add: runs_def)

lemma handle_item_inv:
  assumes "queue_inv (wqueue s) held" "p \<in> held"
  shows "queue_inv (wqueue (runs (handle_item W p) s)) (held - {p})"
  using handle_item_queue [of W p s] queue_inv_Requeue [OF assms]
    queue_step_inv [OF step_done [OF assms(2), of "wqueue s"]] assms(1)
  by (auto simp: runs_def split: option.splits if_splits)

section \<open>Reachable states\<close>

inductive operator_reach ::
  "('w, 'u, 'v, 'h) TemplateProcessor \<Rightarrow> ('w, 'u, 'v, 'h) KubeTemplateReconciler \<Rightarrow>
   ('w, 'u, 'v, 'h, 're) KubeTemplateValidator \<Rightarrow> environment \<Rightarrow> ('w, 'u, 're) operator \<Rightarrow> bool"
  for P R V env where
  started: "operator_reach P R V env (operator_init env w)"
| stepped: "operator_reach P R V env x \<Longrightarrow> operator_step P (numWorkers env) R V x y \<Longrightarrow> operator_reach P R V env y"

definition operator_inv ::
  "('w, 'u, 'v, 'h) TemplateProcessor \<Rightarrow> ('w, 'u, 'v, 'h, 're) KubeTemplateValidator \<Rightarrow>
   ('w, 'u, 're) operator \<Rightarrow> bool" where
  "operator_inv P V x \<longleftrightarrow> source_inv (Client P) (op_sys x) \<and> queue_inv (wqueue (op_sys x)) (op_held x) \<and>
     regex_ok V (webhook_view x) \<and> (\<forall>c \<in> set (trace (op_sys x)). operator_call P c)"

lemma emits_runs:
  assumes "emits I \<Phi> Q m" "I s" "\<forall>c \<in> set (trace s). \<Phi> c"
  shows "I (runs m s) \<and> (\<forall>c \<in> set (trace (runs m s)). \<Phi> c)"
proof -
  obtain cs where "trace (runs m s) = trace s @ cs" "\<forall>c \<in> set cs. \<Phi> c"
    using assms(1,2) unfolding emits_def runs_def by blast
  then show ?thesis using assms keeps_run(1) [of I Q m s] by (auto simp: emits_def runs_def)
qed

text \<open>A handler that shares no state with the webhook but the cache.\<close>

lemma inv_handler:
  assumes "operator_inv P V x" "emits (source_inv (Client P)) (operator_call P) Q m"
    and "queue_inv (wqueue (runs m (op_sys x))) held"
  shows "operator_inv P V (x\<lparr>op_sys := runs m (op_sys x), op_held := held\<rparr>)"
  using assms(1,3) emits_runs [OF assms(2), of "op_sys x"]
  by (auto simp: operator_inv_def regex_ok_def webhook_view_def)

lemma inv_handler_same:
  assumes "operator_inv P V x" "emits (source_inv (Client P)) (operator_call P) Q m"
    and "queue_inv (wqueue (runs m (op_sys x))) (op_held x)"
  shows "operator_inv P V (x\<lparr>op_sys := runs m (op_sys x)\<rparr>)"
  using inv_handler [OF assms] by (cases x) simp

lemma inv_webhook:
  assumes "operator_inv P V x" "v_Client V = Client P"
    and "emits (source_inv (Client P)) (operator_call P) Q m" "keeps (webhook_inv V) Q' m"
  shows "operator_inv P V (webhook_ran x (runs m (webhook_view x)))"
proof -
  let ?s = "runs m (webhook_view x)"
  have v: "source_inv (Client P) (webhook_view x)" "\<forall>c \<in> set (trace (webhook_view x)). operator_call P c"
      "webhook_inv V (webhook_view x)"
    using assms(1,2) by (auto simp: operator_inv_def webhook_view_def webhook_inv_def)
  have "regex_ok V ?s" using keeps_run(1) [OF assms(4) v(3)] by (simp add: webhook_inv_def runs_def)
  then show ?thesis
    using emits_runs [OF assms(3) v(1,2)] assms(1)
    by (auto simp: operator_inv_def webhook_ran_def regex_ok_def webhook_view_def)
qed

lemma operator_step_inv:
  assumes w: "wired P R V" and ok: "client_ok (Client P)" "retry_ok R"
    and step: "operator_step P n R V x y" and inv: "operator_inv P V x"
  shows "operator_inv P V y"
proof -
  have q: "queue_inv (wqueue (op_sys x)) (op_held x)" using inv by (simp add: operator_inv_def)
  note policies = emits_policy_controllers [OF quiet_operator] policy_controllers_queue
  show ?thesis
    using step
  proof (cases rule: operator_step.cases)
    case (reconcile nn)
    then show ?thesis
      using inv_handler_same [OF inv emits_Reconcile [of R P "Client P" nn]] Reconcile_inv [OF ok(2) q] w ok
      by (simp add: wired_def)
  next
    case (take_item s now w p wq)
    then show ?thesis
      using inv queue_inv_Dequeue [OF q, of now] by (auto simp: operator_inv_def regex_ok_def webhook_view_def)
  next
    case (wait s now w out wq)
    then have "wq = wqueue s" using queue_inv_Dequeue [OF q, of now] by (cases out) auto
    then show ?thesis using inv wait by (simp add: operator_inv_def regex_ok_def webhook_view_def)
  next
    case (handle W p)
    then show ?thesis
      using inv_handler [OF inv emits_handle_item [OF ok(1) handle(2)] handle_item_inv [OF q handle(3)]] by simp
  next
    case (policy_cache nn)
    then show ?thesis using inv_handler_same [OF inv policies(1), of "Client P" nn] q by (simp add: policies)
  next
    case (policy nn)
    then show ?thesis using inv_handler_same [OF inv policies(2), of "Client P" True nn] q by (simp add: policies)
  next
    case (admit_create obj)
    then show ?thesis
      using inv_webhook [OF inv _ emits_admission(1) [OF quiet_operator] keeps_admission(1), of obj] w
      by (simp add: wired_def)
  next
    case (admit_update old obj)
    then show ?thesis
      using inv_webhook [OF inv _ emits_admission(2) [OF quiet_operator] keeps_admission(2), of old obj] w
      by (simp add: wired_def)
  next
    case (outside w)
    then show ?thesis using inv by (simp add: operator_inv_def regex_ok_def webhook_view_def)
  qed
qed

lemma operator_init_inv: "list_ok (Client P) \<Longrightarrow> operator_inv P V (operator_init env w)"
  by (simp add: operator_inv_def operator_init_def startup_policyCache_def cache_ok_remove
      startup_workQueue_def queue_inv_New regex_ok_def webhook_view_def)

lemma operator_reach_inv:
  assumes "wired P R V" "client_ok (Client P)" "list_ok (Client P)" "retry_ok R" "operator_reach P R V env x"
  shows "operator_inv P V x"
  using assms(5)
proof induction
  case (started w)
  show ?case by (rule operator_init_inv [OF assms(3)])
next
  case (stepped x y)
  then show ?case using operator_step_inv [OF assms(1,2,4)] by blast
qed

section \<open>Safety of the running operator\<close>

lemma Start_turn_no_panic:
  assumes "queue_inv (wqueue s) held"
  shows "fst (run_state (Start_turn W cancelled) s) \<noteq> WorkerPanics"
proof -
  obtain now w where 1: "w_Now (Client W) (world s) = (now, w)" by (rule prod.exhaust)
  obtain out wq where "Dequeue_pass (wqueue s) now = Some (out, wq)"
    using queue_inv_Dequeue [OF assms, of now] by blast
  then show ?thesis
    using 1 by (cases out) (auto simp: Start_turn_def time_Now_def run_do_call split: prod.split)
qed


text \<open>A run: the template \<^term>\<open>ex_n\<close> is reconciled, a worker takes it and handles it.\<close>

definition ex_run where
  "ex_run P R env w =
     (let x0 = operator_init env w;
          x1 = x0\<lparr>op_sys := runs (Reconcile R ex_n) (op_sys x0)\<rparr>;
          s = op_sys x1; (now, w) = w_Now (Client P) (world s)
      in case Dequeue_pass (wqueue s) now of
           Some (Dequeued p, wq) \<Rightarrow>
             (let x2 = x1\<lparr>op_sys := s\<lparr>world := w, wqueue := wq\<rparr>, op_held := insert p (op_held x1)\<rparr>
              in x2\<lparr>op_sys := runs (handle_item (P\<lparr>WorkerID := 0\<rparr>) p) (op_sys x2), op_held := op_held x2 - {p}\<rparr>)
         | _ \<Rightarrow> x1)"

lemma ex_run_reached:
  fixes P :: "('w, 'u, 'v, 'h) TemplateProcessor" and V :: "('w, 'u, 'v, 'h, 're) KubeTemplateValidator"
  shows "operator_reach P R V env (ex_run P R env w)"
proof -
  let ?reach = "operator_reach P R V env"
  define x0 :: "('w, 'u, 're) operator" where "x0 = operator_init env w"
  define x1 where "x1 = x0\<lparr>op_sys := runs (Reconcile R ex_n) (op_sys x0)\<rparr>"
  obtain now w' where n: "w_Now (Client P) (world (op_sys x1)) = (now, w')" by (rule prod.exhaust)
  have "?reach x0" unfolding x0_def by (rule operator_reach.started)
  then have 1: "?reach x1" unfolding x1_def by (rule operator_reach.stepped) (rule operator_step.reconcile)
  have "0 < nat (numWorkers env)" by (simp add: numWorkers_def Let_def)
  then have worker: "P\<lparr>WorkerID := 0\<rparr> \<in> set (StartWorkers P (numWorkers env))"
    by (auto simp: StartWorkers_def intro!: image_eqI [of _ _ 0])
  have "?reach (let x2 = x1\<lparr>op_sys := (op_sys x1)\<lparr>world := w', wqueue := wq\<rparr>, op_held := insert p (op_held x1)\<rparr>
      in x2\<lparr>op_sys := runs (handle_item (P\<lparr>WorkerID := 0\<rparr>) p) (op_sys x2), op_held := op_held x2 - {p}\<rparr>)"
    if d: "Dequeue_pass (wqueue (op_sys x1)) now = Some (Dequeued p, wq)" for p wq
    unfolding Let_def
    by (rule operator_reach.stepped [OF operator_reach.stepped [OF 1 operator_step.take_item [OF refl n d]]],
        rule operator_step.handle [OF worker]) simp
  then show ?thesis
    using 1 unfolding ex_run_def x0_def [symmetric] Let_def x1_def [symmetric] n
    by (auto split: option.split dequeue_outcome.split)
qed

lemma ex_wired: "wired ex_P ex_R ex_V"
  by (simp add: wired_def ex_P_def ex_R_def ex_V_def)


end
