(* ===== verification/Namespace_Controller.thy ===== *)
theory Namespace_Controller
  imports Policy_Cache Example_World
begin

text \<open>
  The namespace controller of \<^verbatim>\<open>internal/controller/namespace_controller.go\<close>, which deletes the
  KubeTemplates of a namespace before the namespace goes.
\<close>

section \<open>Namespaces\<close>

definition namespaceFinalizer :: string where
  "namespaceFinalizer = ''kubetemplater.io/namespace-finalizer''"

record NamespaceObject =
  no_Name :: string
  no_DeletionTimestamp :: "time option"
  no_Finalizers :: "string list"

definition zero_namespace :: NamespaceObject where
  "zero_namespace = \<lparr>no_Name = '''', no_DeletionTimestamp = None, no_Finalizers = []\<rparr>"

text \<open>The API calls of the controller and the finalizer helpers of controller-runtime.\<close>

record 'w namespace_api =
  n_Get :: "NamespacedName \<Rightarrow> NamespaceObject \<Rightarrow> 'w \<Rightarrow> (go_error option \<times> NamespaceObject) \<times> 'w"
  n_Update :: "NamespaceObject \<Rightarrow> 'w \<Rightarrow> (go_error option \<times> NamespaceObject) \<times> 'w"
  n_ListTemplates :: "string \<Rightarrow> 'w \<Rightarrow> (go_error + KubeTemplate list) \<times> 'w"
  n_Delete :: "KubeTemplate \<Rightarrow> 'w \<Rightarrow> go_error option \<times> 'w"
  n_ContainsFinalizer :: "NamespaceObject \<Rightarrow> string \<Rightarrow> bool"
  n_AddFinalizer :: "NamespaceObject \<Rightarrow> string \<Rightarrow> NamespaceObject"
  n_RemoveFinalizer :: "NamespaceObject \<Rightarrow> string \<Rightarrow> NamespaceObject"

datatype ns_call =
    NGet NamespacedName "go_error option"
  | NUpdate NamespaceObject "go_error option"
  | NList string "go_error + KubeTemplate list"
  | NDelete KubeTemplate "go_error option"

definition ns_Get where
  "ns_Get A nn ns = do_call (\<lambda>r. Some (NGet nn (fst r))) (n_Get A nn ns)"

definition ns_Update where
  "ns_Update A ns = do_call (\<lambda>r. Some (NUpdate ns (fst r))) (n_Update A ns)"

definition ns_List where
  "ns_List A name = do_call (\<lambda>r. Some (NList name r)) (n_ListTemplates A name)"

definition ns_Delete where
  "ns_Delete A kt = do_call (\<lambda>r. Some (NDelete kt r)) (n_Delete A kt)"

text \<open>The loop over the templates: the first failure other than not-found ends it.\<close>

fun delete_templates ::
  "'w namespace_api \<Rightarrow> KubeTemplate list \<Rightarrow> (('w, ns_call) kube, go_error option) state" where
  "delete_templates A [] = State_Monad.return None"
| "delete_templates A (template # templates) = do {
     r \<leftarrow> ns_Delete A template;
     (case r of
        Some err \<Rightarrow>
          if \<not> IsNotFound err then State_Monad.return (Some err) else delete_templates A templates
      | None \<Rightarrow> delete_templates A templates)
   }"

definition release_namespace where
  "release_namespace A namespace = do {
     lst \<leftarrow> ns_List A (no_Name namespace);
     (case lst of
        Inl err \<Rightarrow> State_Monad.return (result_zero, Some err)
      | Inr templates \<Rightarrow> do {
          del \<leftarrow> delete_templates A templates;
          (case del of
             Some err \<Rightarrow> State_Monad.return (result_zero, Some err)
           | None \<Rightarrow> do {
               r \<leftarrow> ns_Update A (n_RemoveFinalizer A namespace namespaceFinalizer);
               State_Monad.return (result_zero, fst r)
             })
        })
   }"

definition NamespaceReconciler_Reconcile where
  "NamespaceReconciler_Reconcile A req = do {
     got \<leftarrow> ns_Get A req zero_namespace;
     (case got of
        (Some err, _) \<Rightarrow> State_Monad.return (result_zero, if IsNotFound err then None else Some err)
      | (None, namespace) \<Rightarrow>
          if no_DeletionTimestamp namespace = None
          then
            if \<not> n_ContainsFinalizer A namespace namespaceFinalizer
            then do {
              r \<leftarrow> ns_Update A (n_AddFinalizer A namespace namespaceFinalizer);
              State_Monad.return (result_zero, fst r)
            }
            else State_Monad.return (result_zero, None)
          else
            if n_ContainsFinalizer A namespace namespaceFinalizer
            then release_namespace A namespace
            else State_Monad.return (result_zero, None))
   }"

section \<open>Cleanup before release\<close>

lemma yields_ns_Update [yields_rules]: "(\<And>r. Q r [NUpdate ns (fst r)]) \<Longrightarrow> yields Q (ns_Update A ns)"
  by (simp add: ns_Update_def yields_call)

lemma yields_ns_List [yields_rules]: "(\<And>r. Q r [NList name r]) \<Longrightarrow> yields Q (ns_List A name)"
  by (simp add: ns_List_def yields_call)

lemma yields_ns_Delete [yields_rules]: "(\<And>r. Q r [NDelete kt r]) \<Longrightarrow> yields Q (ns_Delete A kt)"
  by (simp add: ns_Delete_def yields_call)

text \<open>The deletion of a template that is gone afterwards.\<close>

definition deleted :: "KubeTemplate \<Rightarrow> ns_call \<Rightarrow> bool" where
  "deleted t c \<longleftrightarrow> (\<exists>e. c = NDelete t e \<and> (\<forall>err. e = Some err \<longrightarrow> IsNotFound err))"

definition ns_update :: "ns_call \<Rightarrow> bool" where
  "ns_update c \<longleftrightarrow> (\<exists>ns e. c = NUpdate ns e)"

lemma ns_call_simps [simp]:
  "ns_update (NUpdate ns e)" "\<not> ns_update (NDelete t e)" "\<not> ns_update (NList n r)" "\<not> ns_update (NGet nn e)"
  "deleted t (NDelete t' e) \<longleftrightarrow> t' = t \<and> (\<forall>err. e = Some err \<longrightarrow> IsNotFound err)"
  by (auto simp: ns_update_def deleted_def)

lemma delete_templates_yields:
  "yields (\<lambda>r cs. (\<forall>c \<in> set cs. \<not> ns_update c) \<and> (r = None \<longrightarrow> list_all2 deleted ts cs)) (delete_templates A ts)"
proof (induction ts)
  case Nil
  show ?case by (auto intro!: yields_rules)
next
  case (Cons t ts)
  show ?case
    by (auto intro!: yields_rules yields_weaken [OF Cons])
qed

text \<open>
  A namespace update that drops the finalizer stands, in the trace, right after deletions of
  exactly the templates listed in the namespace, none of which failed other than by not-found.
\<close>

definition released_after_cleanup :: "'w namespace_api \<Rightarrow> NamespaceObject \<Rightarrow> ns_call list \<Rightarrow> bool" where
  "released_after_cleanup A ns cs \<longleftrightarrow> (\<exists>ts ds e.
     cs = [NList (no_Name ns) (Inr ts)] @ ds @ [NUpdate (n_RemoveFinalizer A ns namespaceFinalizer) e] \<and>
     list_all2 deleted ts ds)"

lemma release_namespace_yields:
  "yields (\<lambda>r cs. released_after_cleanup A ns cs \<or> snd r \<noteq> None \<and> (\<forall>c \<in> set cs. \<not> ns_update c))
     (release_namespace A ns)"
  unfolding release_namespace_def
  by (intro yields_rules yields_weaken [OF delete_templates_yields])
    (auto simp: released_after_cleanup_def)

text \<open>
  C20: A namespace that is going away is released only after its KubeTemplates are gone: whenever the
  controller updates a namespace that has a deletion timestamp, it does so to drop its finalizer,
  right after listing the templates of that namespace and deleting each of them, every deletion
  having succeeded or found nothing. If a listing or deletion fails, the error is returned
  and the namespace is not updated.
\<close>

theorem namespace_released_after_cleanup:
  assumes get: "n_Get A req zero_namespace (world s) = ((None, ns), w)"
    and del: "no_DeletionTimestamp ns \<noteq> None" and s: "trace s = []"
    and run: "run_state (NamespaceReconciler_Reconcile A req) s = (r, s')"
  shows "\<exists>cs. trace s' = NGet req None # cs \<and>
    (released_after_cleanup A ns cs \<or>
     (\<forall>c \<in> set cs. \<not> ns_update c) \<and> (snd r \<noteq> None \<or> \<not> n_ContainsFinalizer A ns namespaceFinalizer))"
proof (cases "n_ContainsFinalizer A ns namespaceFinalizer")
  case True
  let ?s = "s\<lparr>world := w, trace := [NGet req None]\<rparr>"
  have "run_state (release_namespace A ns) ?s = (r, s')"
    using run del True get s
    by (simp add: NamespaceReconciler_Reconcile_def ns_Get_def run_do_call)
  from yieldsD [OF release_namespace_yields this] show ?thesis by auto
next
  case False
  then have "trace s' = [NGet req None]"
    using run del get s by (auto simp: NamespaceReconciler_Reconcile_def ns_Get_def run_do_call)
  then show ?thesis using False by simp
qed

definition ex_going :: NamespaceObject where
  "ex_going = \<lparr>no_Name = ''team-a'', no_DeletionTimestamp = Some 5, no_Finalizers = [namespaceFinalizer]\<rparr>"

definition ex_N :: "KubeTemplate list namespace_api" where
  "ex_N = \<lparr>
     n_Get = (\<lambda>nn ns w. ((None, ex_going), w)),
     n_Update = (\<lambda>ns w. ((None, ns), w)),
     n_ListTemplates = (\<lambda>ns w. (Inr (filter (\<lambda>t. md_Namespace (kt_Meta t) = ns) w), w)),
     n_Delete = (\<lambda>t w. if t \<in> set w then (None, remove1 t w) else (Some not_found, w)),
     n_ContainsFinalizer = (\<lambda>ns f. f \<in> set (no_Finalizers ns)),
     n_AddFinalizer = (\<lambda>ns f. if f \<in> set (no_Finalizers ns) then ns
        else ns\<lparr>no_Finalizers := no_Finalizers ns @ [f]\<rparr>),
     n_RemoveFinalizer = (\<lambda>ns f. ns\<lparr>no_Finalizers := removeAll f (no_Finalizers ns)\<rparr>)\<rparr>"

theorem namespace_released_after_cleanup_witness:
  "let s' = snd (run_state (NamespaceReconciler_Reconcile ex_N \<lparr>Namespace = '''', Name = ''team-a''\<rparr>)
         \<lparr>world = [ex_kt []], trace = []\<rparr>)
   in released_after_cleanup ex_N ex_going (tl (trace s')) \<and> world s' = []"
proof -
  let ?q = "\<lparr>Namespace = '''', Name = ''team-a''\<rparr>"
  let ?s = "\<lparr>world = [ex_kt []], trace = []\<rparr> :: (KubeTemplate list, ns_call) kube"
  obtain r s' where run: "run_state (NamespaceReconciler_Reconcile ex_N ?q) ?s = (r, s')"
    by (rule prod.exhaust)
  have ns: "md_Namespace (kt_Meta (ex_kt [])) = ''team-a''" by (simp add: ex_kt_def ex_meta_def)
  have s': "world s' = [] \<and> trace s' = [NGet ?q None, NList ''team-a'' (Inr [ex_kt []]),
      NDelete (ex_kt []) None, NUpdate (ex_going\<lparr>no_Finalizers := []\<rparr>) None]"
    using run ns
    by (auto simp: NamespaceReconciler_Reconcile_def release_namespace_def ns_Get_def ns_List_def
        ns_Delete_def ns_Update_def run_do_call ex_N_def ex_going_def)
  have "released_after_cleanup ex_N ex_going (tl (trace s'))"
    using namespace_released_after_cleanup [of ex_N ?q ?s ex_going "[ex_kt []]" r s'] run s'
    by (auto simp: ex_N_def ex_going_def)
  then show ?thesis using run s' by simp
qed

end
