(* ===== verification/Resource_Watcher.thy ===== *)
theory Resource_Watcher
  imports Worker_Properties
begin

text \<open>
  The resource watcher of \<^verbatim>\<open>internal/controller/kubetemplater.io/resource_watcher_controller.go\<close>:
  the predicate on the tracking labels, the mapping from a resource back to its KubeTemplate, and
  \<^verbatim>\<open>Reconcile\<close>, which does nothing.
\<close>

definition watch_predicate :: "('u, 'v) unstructured_api \<Rightarrow> 'u \<Rightarrow> bool" where
  "watch_predicate U obj =
     (case u_GetLabels U obj of
        None \<Rightarrow> False
      | Some objLabels \<Rightarrow>
          Mapping.lookup objLabels ''kubetemplater.io/template-name'' \<noteq> None \<and>
          Mapping.lookup objLabels ''kubetemplater.io/template-namespace'' \<noteq> None)"

definition mapToKubeTemplate :: "('u, 'v) unstructured_api \<Rightarrow> 'u \<Rightarrow> NamespacedName list" where
  "mapToKubeTemplate U obj =
     (case u_GetLabels U obj of
        None \<Rightarrow> []
      | Some labels \<Rightarrow>
          (case (Mapping.lookup labels ''kubetemplater.io/template-name'',
                 Mapping.lookup labels ''kubetemplater.io/template-namespace'') of
             (Some templateName, Some templateNamespace) \<Rightarrow>
               [\<lparr>Namespace = templateNamespace, Name = templateName\<rparr>]
           | _ \<Rightarrow> []))"

definition ResourceWatcherReconciler_Reconcile ::
  "NamespacedName \<Rightarrow> reconcile_result \<times> go_error option" where
  "ResourceWatcherReconciler_Reconcile req = (result_zero, None)"

lemma mapped_tracked: "mapToKubeTemplate U obj = [nn] \<longleftrightarrow> tracked_by U nn obj"
  by (cases nn) (auto simp: mapToKubeTemplate_def tracked_by_def split: option.split)

lemma mapped_cases: "mapToKubeTemplate U obj = [] \<or> (\<exists>nn. mapToKubeTemplate U obj = [nn])"
  by (auto simp: mapToKubeTemplate_def split: option.split)

lemma watched_mapped: "watch_predicate U obj \<longleftrightarrow> mapToKubeTemplate U obj \<noteq> []"
  by (auto simp: watch_predicate_def mapToKubeTemplate_def split: option.split)

text \<open>
  C39: The labels the worker writes are the ones the watcher reads: an object decorated for a
  KubeTemplate passes the watcher's predicate and maps to exactly that KubeTemplate; and for every
  object the predicate holds exactly when the mapping yields the one KubeTemplate the
  object is tracked by. The label laws of the unstructured package are assumed.
\<close>

theorem worker_labels_map_back:
  assumes "unst_ok U"
  shows "watch_predicate U (decorate U kt template obj) \<and>
    mapToKubeTemplate U (decorate U kt template obj) = [kt_name kt] \<and>
    (watch_predicate U obj' \<longleftrightarrow> (\<exists>nn. mapToKubeTemplate U obj' = [nn] \<and> tracked_by U nn obj'))"
proof -
  have "mapToKubeTemplate U (decorate U kt template obj) = [kt_name kt]"
    using decorate_laws(3) [OF assms refl] by (simp add: mapped_tracked)
  then show ?thesis
    using mapped_cases [of U obj'] mapped_tracked [of U obj'] by (auto simp: watched_mapped)
qed

theorem worker_labels_map_back_witness:
  "watch_predicate ex_U ex_applied \<and> mapToKubeTemplate ex_U ex_applied = [ex_n] \<and>
   \<not> watch_predicate ex_U ex_secret"
proof -
  have "unst_ok ex_U" by (simp add: unst_ok_def ex_U_def)
  from worker_labels_map_back [OF this, of "ex_kt []" "ex_tpl ''configmap''" _ ex_secret]
  have "watch_predicate ex_U ex_applied \<and> mapToKubeTemplate ex_U ex_applied = [kt_name (ex_kt [])]"
    unfolding ex_applied_def by blast
  moreover have "\<not> watch_predicate ex_U ex_secret" by (simp add: watch_predicate_def ex_U_def ex_secret_def)
  ultimately show ?thesis by (simp add: ex_kt_def ex_meta_def ex_n_def meta_name_def)
qed

end
