(* ===== verification/Cert_Properties.thy ===== *)
theory Cert_Properties
  imports Cert_Manager Example_World
begin

text \<open>
  What the certificate manager keeps, renews and deletes: the calls each operation makes, with
  what was answered, for every behaviour of the API server, the clock and the cryptography.
\<close>

section \<open>Rules for the calls\<close>

text \<open>
  The laws assumed, each where it is needed: a successful read returns the object asked for; what
  \<^verbatim>\<open>x509.CreateCertificate\<close> encodes parses with the template's end of validity, cut to a second.
\<close>

definition get_ok :: "('w, 'k) cert_api \<Rightarrow> bool" where
  "get_ok A \<longleftrightarrow> (\<forall>nn z w s w'. a_GetSecret A nn z w = ((None, s), w') \<longrightarrow> secret_name s = nn)"

definition signs :: "('w, 'k) cert_api \<Rightarrow> Certificate \<Rightarrow> Certificate \<Rightarrow> 'k \<Rightarrow> 'k \<Rightarrow> bytes \<Rightarrow> bool" where
  "signs A tpl parent pub priv der \<longleftrightarrow> (\<exists>w. fst (x_CreateCertificate A tpl parent pub priv w) = Inr der)"

definition crypto_ok :: "('w, 'k) cert_api \<Rightarrow> bool" where
  "crypto_ok A \<longleftrightarrow> (\<forall>tpl parent pub priv der c. signs A tpl parent pub priv der \<longrightarrow>
     x_ParseCertificate A der = Inr c \<longrightarrow> NotAfter tpl - Second < NotAfter c \<and> NotAfter c \<le> NotAfter tpl)"

lemma yields_Now [yields_rules]: "(\<And>t. Q t [KNow t]) \<Longrightarrow> yields Q (cert_Now A)"
  by (simp add: cert_Now_def yields_call)

lemma yields_Get [yields_rules]:
  assumes "\<And>e s. (get_ok A \<Longrightarrow> e = None \<Longrightarrow> secret_name s = nn) \<Longrightarrow> Q (e, s) [KGet nn e s]"
  shows "yields Q (secret_Get A nn)"
  unfolding secret_Get_def
proof (rule yields_call, goal_cases)
  case (1 w)
  obtain e s w' where "a_GetSecret A nn zero_secret w = ((e, s), w')" by (metis prod.exhaust)
  moreover from this have "secret_name s = nn" if "get_ok A" "e = None"
    using that unfolding get_ok_def by blast
  ultimately show ?case using assms [of e s] by simp
qed

lemma yields_Create [yields_rules]: "(\<And>r. Q r [KCreate s r]) \<Longrightarrow> yields Q (secret_Create A s)"
  by (simp add: secret_Create_def yields_call)

lemma yields_Update [yields_rules]: "(\<And>r. Q r [KUpdate s r]) \<Longrightarrow> yields Q (secret_Update A s)"
  by (simp add: secret_Update_def yields_call)

lemma yields_Delete [yields_rules]: "(\<And>r. Q r [KDelete (secret_name s) r]) \<Longrightarrow> yields Q (secret_Delete A s)"
  by (simp add: secret_Delete_def yields_call)

lemma yields_GetWebhook [yields_rules]:
  "(\<And>e c. Q (e, c) [KGetWebhook nn e]) \<Longrightarrow> yields Q (webhook_Get A nn)"
  unfolding webhook_Get_def by (rule yields_call) (metis (mono_tags) fst_conv option.simps(5) surj_pair)

lemma yields_UpdateWebhook [yields_rules]:
  "(\<And>r. Q r [KUpdateWebhook c r]) \<Longrightarrow> yields Q (webhook_Update A c)"
  by (simp add: webhook_Update_def yields_call)

lemma yields_GenerateKey [yields_rules]: "(\<And>r. Q r []) \<Longrightarrow> yields Q (GenerateKey A)"
  by (simp add: GenerateKey_def yields_call)

lemma yields_rand [yields_rules]: "(\<And>r. Q r []) \<Longrightarrow> yields Q (rand_Int A)"
  by (simp add: rand_Int_def yields_call)

lemma yields_Sign [yields_rules]:
  "(\<And>r. (\<And>der. r = Inr der \<Longrightarrow> signs A t p k k' der) \<Longrightarrow> Q r [KSign t p k k' r]) \<Longrightarrow>
     yields Q (CreateCertificate A t p k k')"
  unfolding CreateCertificate_def by (rule yields_call) (auto simp: signs_def)

lemma yields_Verify [yields_rules]: "(\<And>r. Q r [KVerify c rs r]) \<Longrightarrow> yields Q (Verify A c rs)"
  by (simp add: Verify_def yields_call)

section \<open>Certificate authority\<close>

text \<open>A generated authority is self-signed, valid for ten years, and stored before it is used.\<close>

definition ca_stored :: "('w, 'k) cert_api \<Rightarrow> NamespacedName \<Rightarrow> Certificate \<times> 'k \<Rightarrow> 'k cert_call list \<Rightarrow> bool" where
  "ca_stored A nn ca cs \<longleftrightarrow> (\<exists>sn t1 t2 der. let tpl = ca_template sn t1 t2 in
     cs = [KNow t1, KNow t2, KSign tpl tpl (snd ca) (snd ca) (Inr der), KCreate (ca_secret A nn der (snd ca)) None] \<and>
     signs A tpl tpl (snd ca) (snd ca) der \<and> x_ParseCertificate A der = Inr (fst ca))"

definition stores :: "'k cert_call \<Rightarrow> bool" where
  "stores c \<longleftrightarrow> (\<exists>s. c = KCreate s None)"

definition is_delete :: "'k cert_call \<Rightarrow> bool" where
  "is_delete c \<longleftrightarrow> (\<exists>nn e. c = KDelete nn e)"

lemma generateCA_yields:
  "yields (\<lambda>r cs. case r of Inr ca \<Rightarrow> ca_stored A nn ca cs | Inl _ \<Rightarrow> \<forall>c \<in> set cs. \<not> stores c \<and> \<not> is_delete c)
     (generateCA A nn)"
  unfolding generateCA_def Let_def
  by (intro yields_rules) (auto simp: ca_stored_def stores_def is_delete_def Let_def)

text \<open>
  The authority without one in transition, with the calls that lead to it: the stored one is kept
  for as long as it is valid for another year; after that a new one is stored beside it, or the
  old one is used on when that fails; a missing one is created.
\<close>

inductive ca_current :: "('w, 'k) cert_api \<Rightarrow> Manager \<Rightarrow> Certificate \<times> 'k \<Rightarrow> 'k cert_call list \<Rightarrow> bool"
  for A :: "('w, 'k) cert_api" and m :: Manager where
  kept: "parseCAFromSecret A secret = Inr ca \<Longrightarrow> t + CARenewThreshold \<le> NotAfter (fst ca) \<Longrightarrow>
    ca_current A m ca [KGet (ca_key m) None secret, KNow t]"
| renewed: "parseCAFromSecret A secret = Inr old \<Longrightarrow> NotAfter (fst old) < t + CARenewThreshold \<Longrightarrow>
    ca_stored A (ca_new_key m) ca gen \<Longrightarrow> ca_current A m ca (KGet (ca_key m) None secret # KNow t # gen)"
| not_renewed: "parseCAFromSecret A secret = Inr ca \<Longrightarrow> NotAfter (fst ca) < t + CARenewThreshold \<Longrightarrow>
    (\<forall>c \<in> set gen. \<not> stores c \<and> \<not> is_delete c) \<Longrightarrow>
    ca_current A m ca (KGet (ca_key m) None secret # KNow t # gen)"
| created: "IsNotFound err \<Longrightarrow> ca_stored A (ca_key m) ca gen \<Longrightarrow>
    ca_current A m ca (KGet (ca_key m) (Some err) secret # gen)"

lemma currentCA_yields:
  "yields (\<lambda>r cs. case r of Inr ca \<Rightarrow> ca_current A m ca cs | Inl _ \<Rightarrow> \<forall>c \<in> set cs. \<not> is_delete c)
     (currentCA A m)"
  unfolding currentCA_def
  by (intro yields_rules yields_weaken [OF generateCA_yields])
    (auto simp: is_delete_def intro: ca_current.intros split: sum.splits)

text \<open>
  The calls while a new authority is in transition: the old one is looked at, and once it has
  expired it is deleted and the new one stored under its name.
\<close>

inductive in_transition :: "('w, 'k) cert_api \<Rightarrow> Manager \<Rightarrow> Secret \<Rightarrow> 'k cert_call list \<Rightarrow> bool"
  for A :: "('w, 'k) cert_api" and m :: Manager and new :: Secret where
  old_unreadable: "(e \<noteq> None \<or> isl (parseCAFromSecret A secret)) \<Longrightarrow> in_transition A m new [KGet (ca_key m) e secret]"
| old_valid: "parseCAFromSecret A secret = Inr old \<Longrightarrow> t \<le> NotAfter (fst old) \<Longrightarrow>
    in_transition A m new [KGet (ca_key m) None secret, KNow t]"
| promoted: "parseCAFromSecret A secret = Inr old \<Longrightarrow> NotAfter (fst old) < t \<Longrightarrow>
    (get_ok A \<longrightarrow> secret_name secret = ca_key m) \<Longrightarrow>
    in_transition A m new [KGet (ca_key m) None secret, KNow t, KDelete (secret_name secret) e1,
      KCreate (new\<lparr>sec_Meta := named_meta (ca_key m)\<rparr>) None, KDelete (ca_new_key m) e2]"
| not_promoted: "parseCAFromSecret A secret = Inr old \<Longrightarrow> NotAfter (fst old) < t \<Longrightarrow>
    (get_ok A \<longrightarrow> secret_name secret = ca_key m) \<Longrightarrow>
    in_transition A m new [KGet (ca_key m) None secret, KNow t, KDelete (secret_name secret) e1,
      KCreate (new\<lparr>sec_Meta := named_meta (ca_key m)\<rparr>) (Some err)]"

lemma transitionCA_yields: "yields (\<lambda>_ cs. in_transition A m new cs) (transitionCA A m new)"
  unfolding transitionCA_def promoteCA_def
  by (intro yields_rules) (auto intro: in_transition.intros)

inductive ca_chosen :: "('w, 'k) cert_api \<Rightarrow> Manager \<Rightarrow> Certificate \<times> 'k \<Rightarrow> 'k cert_call list \<Rightarrow> bool"
  for A :: "('w, 'k) cert_api" and m :: Manager where
  transition: "parseCAFromSecret A new = Inr ca \<Longrightarrow> in_transition A m new cs \<Longrightarrow>
    ca_chosen A m ca (KGet (ca_new_key m) None new # cs)"
| current: "(e \<noteq> None \<or> isl (parseCAFromSecret A new)) \<Longrightarrow> ca_current A m ca cs \<Longrightarrow>
    ca_chosen A m ca (KGet (ca_new_key m) e new # cs)"

lemma ensureCA_yields:
  "yields (\<lambda>r cs. case r of Inr ca \<Rightarrow> ca_chosen A m ca cs | Inl _ \<Rightarrow> \<forall>c \<in> set cs. \<not> is_delete c)
     (ensureCA A m)"
  unfolding ensureCA_def
  by (intro yields_rules yields_weaken [OF currentCA_yields] yields_weaken [OF transitionCA_yields])
    (auto simp: is_delete_def intro: ca_chosen.intros split: sum.splits)

section \<open>Server certificate\<close>

text \<open>The check that keeps the stored server certificate, and the calls of a check that does not.\<close>

definition server_kept ::
  "('w, 'k) cert_api \<Rightarrow> Manager \<Rightarrow> Certificate \<Rightarrow> 'k cert_call list \<Rightarrow> bool" where
  "server_kept A m ca cs \<longleftrightarrow> (\<exists>secret cert t e old. 
     cs = [KGet (server_key m) None secret, KNow t, KGet (ca_key m) e old,
       KVerify cert (trusted_roots A ca (e, old)) None] \<and>
     parse_server_cert A secret = Some cert \<and> t + RenewThreshold \<le> NotAfter cert)"

definition writes :: "'k cert_call \<Rightarrow> bool" where
  "writes c \<longleftrightarrow> (case c of KCreate _ _ \<Rightarrow> True | KUpdate _ _ \<Rightarrow> True | KDelete _ _ \<Rightarrow> True
     | KUpdateWebhook _ _ \<Rightarrow> True | KSign _ _ _ _ _ \<Rightarrow> True | _ \<Rightarrow> False)"

lemma needsServerCertGeneration_yields:
  "yields (\<lambda>r cs. (\<forall>c \<in> set cs. \<not> writes c) \<and> (r = Inr False \<longrightarrow> server_kept A m ca cs))
     (needsServerCertGeneration A m ca)"
  unfolding needsServerCertGeneration_def
  by (intro yields_rules) (auto simp: writes_def server_kept_def)

text \<open>A renewed server certificate is signed by the authority for this service and stored with its key.\<close>

definition server_stored ::
  "('w, 'k) cert_api \<Rightarrow> Manager \<Rightarrow> Certificate \<times> 'k \<Rightarrow> 'k cert_call list \<Rightarrow> bool" where
  "server_stored A m ca cs \<longleftrightarrow> (\<exists>sn t1 t2 key der e got s put.
     cs = [KNow t1, KNow t2, KSign (server_template m sn t1 t2) (fst ca) key (snd ca) (Inr der),
       KGet (server_key m) e got, put] \<and>
     signs A (server_template m sn t1 t2) (fst ca) key (snd ca) der \<and>
     (put = KCreate s None \<or> put = KUpdate s None) \<and> sec_Data s = tls_data A der key \<and>
     (get_ok A \<longrightarrow> secret_name s = server_key m))"

lemma generateServerCert_yields:
  "yields (\<lambda>r cs. (r = None \<longrightarrow> server_stored A m ca cs) \<and> (\<forall>c \<in> set cs. \<not> is_delete c))
     (generateServerCert A m (fst ca) (snd ca))"
  unfolding generateServerCert_def store_server_cert_def
  by (intro yields_rules) (auto simp: is_delete_def server_stored_def)

definition bundle_published ::
  "('w, 'k) cert_api \<Rightarrow> Manager \<Rightarrow> Certificate \<Rightarrow> 'k cert_call list \<Rightarrow> bool" where
  "bundle_published A m ca cs \<longleftrightarrow>
     (\<exists>err. cs = [KGetWebhook \<lparr>Namespace = '''', Name = webhookConfigName m\<rparr> (Some err)]) \<or>
     (\<exists>cfg e. cs = [KGetWebhook \<lparr>Namespace = '''', Name = webhookConfigName m\<rparr> None, KUpdateWebhook cfg e] \<and>
        (\<forall>w \<in> set (wc_Webhooks cfg). wh_CABundle w = pem_Encode A ''CERTIFICATE'' (Raw ca)))"

lemma patchWebhookConfiguration_yields:
  "yields (\<lambda>_ cs. bundle_published A m ca cs) (patchWebhookConfiguration A m ca)"
  unfolding patchWebhookConfiguration_def Let_def
  by (intro yields_rules) (auto simp: bundle_published_def)

text \<open>One whole check that succeeds.\<close>

inductive cert_checked ::
  "('w, 'k) cert_api \<Rightarrow> Manager \<Rightarrow> 'k cert_call list \<Rightarrow> bool"
  for A :: "('w, 'k) cert_api" and m :: Manager where
  server_kept: "ca_chosen A m ca cs \<Longrightarrow> server_kept A m (fst ca) ds \<Longrightarrow> cert_checked A m (cs @ ds)"
| server_renewed: "ca_chosen A m ca cs \<Longrightarrow> (\<forall>c \<in> set ds. \<not> writes c) \<Longrightarrow> server_stored A m ca es \<Longrightarrow>
    bundle_published A m (fst ca) fs \<Longrightarrow> cert_checked A m (cs @ ds @ es @ fs)"

lemma ensureCertificate_yields:
  "yields (\<lambda>r cs. r = None \<longrightarrow> cert_checked A m cs) (ensureCertificate A m)"
  unfolding ensureCertificate_def
  by (intro yields_rules yields_weaken [OF ensureCA_yields] yields_weaken [OF needsServerCertGeneration_yields]
      yields_weaken [OF generateServerCert_yields [of A m "(c, k)" for c k, simplified]]
      yields_weaken [OF patchWebhookConfiguration_yields])
    (auto intro: cert_checked.intros)

section \<open>A vault to run the manager on\<close>

text \<open>
  Secrets in a list, a fixed clock, and certificates whose encoding is their expiry. The webhook
  configuration can be made to refuse updates.
\<close>

record ex_vault =
  ev_clock :: time
  ev_secrets :: "Secret list"
  ev_config :: ValidatingWebhookConfiguration
  ev_down :: bool

definition ex_parse :: "bytes \<Rightarrow> go_error + Certificate" where
  "ex_parse der =
     (case der of
        [] \<Rightarrow> Inl (Errorf ''asn1'')
      | c # ds \<Rightarrow>
          (case Atoi ds of
             None \<Rightarrow> Inl (Errorf ''asn1'')
           | Some n \<Rightarrow> Inr (zero_certificate\<lparr>NotAfter := n, IsCA := (c = CHR ''C''), Raw := der\<rparr>)))"

definition ex_A :: "(ex_vault, nat) cert_api" where
  "ex_A = \<lparr>
     a_Now = (\<lambda>w. (ev_clock w, w)),
     a_GetSecret = (\<lambda>nn z w. case List.find (\<lambda>s. secret_name s = nn) (ev_secrets w) of
        None \<Rightarrow> ((Some not_found, z), w)
      | Some s \<Rightarrow> ((None, s), w)),
     a_CreateSecret = (\<lambda>s w. if secret_name s \<in> set (map (\<lambda>s. secret_name s) (ev_secrets w))
        then (Some (Errorf ''already exists''), w) else (None, w\<lparr>ev_secrets := s # ev_secrets w\<rparr>)),
     a_UpdateSecret = (\<lambda>s w. (None, w\<lparr>ev_secrets :=
        map (\<lambda>s'. if secret_name s' = secret_name s then s else s') (ev_secrets w)\<rparr>)),
     a_DeleteSecret = (\<lambda>s w. (None, w\<lparr>ev_secrets :=
        filter (\<lambda>s'. secret_name s' \<noteq> secret_name s) (ev_secrets w)\<rparr>)),
     a_GetWebhook = (\<lambda>nn z w. ((None, ev_config w), w)),
     a_UpdateWebhook = (\<lambda>c w. if ev_down w then (Some (Errorf ''down''), w) else (None, w\<lparr>ev_config := c\<rparr>)),
     a_GenerateKey = (\<lambda>bits w. (Inr 1, w)),
     a_RandInt = (\<lambda>bound w. (Inr 7, w)),
     x_CreateCertificate = (\<lambda>tpl parent pub priv w.
        (if in_i64 (NotAfter tpl) then Inr ((if IsCA tpl then CHR ''C'' else CHR ''S'') # itoa (NotAfter tpl))
         else Inl (Errorf ''asn1''), w)),
     x_Verify = (\<lambda>c roots w. (if ev_clock w \<le> NotAfter c \<and> list_ex (\<lambda>r. IsCA r \<and> ev_clock w \<le> NotAfter r) roots
        then None else Some (Errorf ''unknown authority''), w)),
     x_ParseCertificate = ex_parse,
     x_ParsePKCS1PrivateKey = (\<lambda>bs. case Atoi bs of None \<Rightarrow> Inl (Errorf ''asn1'') | Some n \<Rightarrow> Inr (nat n)),
     x_MarshalPKCS1PrivateKey = (\<lambda>k. itoa (int k)),
     pem_Decode = Some,
     pem_Encode = (\<lambda>t b. b)\<rparr>"

definition ex_m :: Manager where
  "ex_m = NewManager ''tls'' ''sys'' ''webhook'' ''kubetemplater''"

definition ex_vault_with :: "Secret list \<Rightarrow> bool \<Rightarrow> (ex_vault, nat cert_call) kube" where
  "ex_vault_with secrets down = \<lparr>world = \<lparr>ev_clock = 1000, ev_secrets = secrets,
     ev_config = \<lparr>wc_Name = ''kubetemplater'', wc_Webhooks = [\<lparr>wh_Name = ''validate'', wh_CABundle = ''''\<rparr>]\<rparr>,
     ev_down = down\<rparr>, trace = []\<rparr>"

lemma ex_get_ok: "get_ok ex_A"
  by (auto simp: get_ok_def ex_A_def find_Some_iff split: option.splits)

lemma ex_parse_itoa:
  "in_i64 n \<Longrightarrow> ex_parse (c # itoa n) =
     Inr (zero_certificate\<lparr>NotAfter := n, IsCA := (c = CHR ''C''), Raw := c # itoa n\<rparr>)"
  by (simp add: ex_parse_def Atoi_itoa)

lemmas ex_cert_eval = ex_A_def ex_m_def ex_vault_with_def NewManager_def ex_parse_itoa Atoi_itoa
  cert_call_defs run_do_call server_key_def ca_key_def ca_new_key_def not_found_def IsNotFound_def
  ca_template_def server_template_def ca_secret_def tls_data_def zero_certificate_def zero_secret_def
  in_i64_def CAValidityDuration_def CertValidityDuration_def RenewThreshold_def CARenewThreshold_def
  duration_defs named_meta_def meta_name_def zero_meta_def Let_def Mapping.lookup_update'

lemmas ensure_defs = ensureCertificate_def ensureCA_def currentCA_def generateCA_def
  needsServerCertGeneration_def generateServerCert_def store_server_cert_def patchWebhookConfiguration_def

section \<open>Properties\<close>



text \<open>Deletions happen only in the calls that choose the authority.\<close>

lemma ca_stored_no_delete: "ca_stored A nn ca cs \<Longrightarrow> c \<in> set cs \<Longrightarrow> \<not> is_delete c"
  by (auto simp: ca_stored_def is_delete_def Let_def)

lemma ca_current_no_delete: "ca_current A m ca cs \<Longrightarrow> c \<in> set cs \<Longrightarrow> \<not> is_delete c"
  by (induction rule: ca_current.induct) (auto simp: is_delete_def dest: ca_stored_no_delete)

lemma bundle_published_no_delete: "bundle_published A m ca cs \<Longrightarrow> c \<in> set cs \<Longrightarrow> \<not> is_delete c"
  by (auto simp: bundle_published_def is_delete_def)

lemma writes_delete: "is_delete c \<Longrightarrow> writes c"
  by (auto simp: is_delete_def writes_def)

lemma ensureCertificate_deletes:
  "yields (\<lambda>r cs. \<exists>as bs. cs = as @ bs \<and> (\<forall>c \<in> set bs. \<not> is_delete c) \<and>
      ((\<exists>ca. ca_chosen A m ca as) \<or> (\<forall>c \<in> set as. \<not> is_delete c))) (ensureCertificate A m)"
  unfolding ensureCertificate_def
proof (intro yields_rules yields_weaken [OF ensureCA_yields] yields_weaken [OF needsServerCertGeneration_yields]
      yields_weaken [OF generateServerCert_yields [of A m "(c, k)" for c k, simplified]]
      yields_weaken [OF patchWebhookConfiguration_yields], goal_cases)
  case (1 ca cs err)
  then show ?case by (intro exI [of _ cs] exI [of _ "[]"]) auto
next
  case (2 ca cs x caCert caKey r ds err)
  then show ?case by (intro exI [of _ cs] exI [of _ ds]) (auto dest: writes_delete)
next
  case (3 ca cs x caCert caKey r ds b r' es u fs)
  then show ?case
    by (intro exI [of _ cs] exI [of _ "ds @ es @ fs"]) (auto dest: writes_delete bundle_published_no_delete)
next
  case (4 ca cs x caCert caKey r ds b r' es err)
  then show ?case by (intro exI [of _ cs] exI [of _ "ds @ es"]) (auto dest: writes_delete)
next
  case (5 ca cs x caCert caKey r ds b)
  then show ?case by (intro exI [of _ cs] exI [of _ ds]) (auto dest: writes_delete)
qed

lemma in_transition_delete:
  assumes "in_transition A m new cs" and "KDelete nn e \<in> set cs" and "get_ok A"
  shows "\<exists>secret old t e1 r1 rest.
    cs = [KGet (ca_key m) None secret, KNow t, KDelete (ca_key m) e1,
      KCreate (new\<lparr>sec_Meta := named_meta (ca_key m)\<rparr>) r1] @ rest \<and>
    parseCAFromSecret A secret = Inr old \<and> NotAfter (fst old) < t \<and>
    (nn = ca_key m \<or> nn = ca_new_key m \<and> r1 = None)"
  using assms by cases force+

text \<open>
  C13: An authority is deleted only when it has expired and its replacement is at hand: whenever a
  check of the certificates deletes a secret, it has just read a replacement that parses and the
  current authority, whose validity had ended at the clock's reading. What it deletes is that
  authority and, only after the replacement was stored under the authority's name, the
  replacement's own secret. The server secret is never deleted.
\<close>

theorem authority_deleted_only_expired:
  assumes ok: "get_ok A" and run: "run_state (ensureCertificate A m) s = (r, s')" and s: "trace s = []"
    and del: "KDelete nn e \<in> set (trace s')"
  shows "\<exists>new ca secret old t e1 r1 rest.
    trace s' = [KGet (ca_new_key m) None new, KGet (ca_key m) None secret, KNow t, KDelete (ca_key m) e1,
      KCreate (new\<lparr>sec_Meta := named_meta (ca_key m)\<rparr>) r1] @ rest \<and>
    parseCAFromSecret A new = Inr ca \<and> parseCAFromSecret A secret = Inr old \<and> NotAfter (fst old) < t \<and>
    (nn = ca_key m \<or> nn = ca_new_key m \<and> r1 = None)"
proof -
  obtain as bs where t: "trace s' = as @ bs" "\<forall>c \<in> set bs. \<not> is_delete c"
      "(\<exists>ca. ca_chosen A m ca as) \<or> (\<forall>c \<in> set as. \<not> is_delete c)"
    using yieldsD [OF ensureCertificate_deletes run] s by auto
  have d: "KDelete nn e \<in> set as" using del t(1,2) by (auto simp: is_delete_def)
  then obtain ca where "ca_chosen A m ca as" using t(3) by (auto simp: is_delete_def)
  then show ?thesis
  proof cases
    case (transition new cs)
    then have "KDelete nn e \<in> set cs" using d by simp
    from in_transition_delete [OF transition(3) this ok] transition(1,2) t(1) show ?thesis
      by fastforce
  next
    case (current e' new cs)
    then have "KDelete nn e \<in> set cs" using d by simp
    from ca_current_no_delete [OF current(3) this] show ?thesis by (simp add: is_delete_def)
  qed
qed

text \<open>An authority with a given end of validity, and the vault in which it awaits its replacement.\<close>

definition ex_ca :: "NamespacedName \<Rightarrow> time \<Rightarrow> Secret" where
  "ex_ca nn t = ca_secret ex_A nn (CHR ''C'' # itoa t) 1"

definition ex_expired :: "(ex_vault, nat cert_call) kube" where
  "ex_expired = ex_vault_with [ex_ca (ca_key ex_m) 999, ex_ca (ca_new_key ex_m) CAValidityDuration] False"

lemma ex_expired_run:
  "fst (run_state (ensureCertificate ex_A ex_m) ex_expired) = None"
  "KDelete (ca_key ex_m) None \<in> set (trace (snd (run_state (ensureCertificate ex_A ex_m) ex_expired)))"
  by (simp_all add: ensure_defs transitionCA_def promoteCA_def ex_expired_def ex_ca_def
      parseCAFromSecret_def trusted_roots_def parse_server_cert_def ex_cert_eval)

theorem authority_deleted_only_expired_witness:
  "\<exists>new ca secret old t e1 r1 rest.
    trace (snd (run_state (ensureCertificate ex_A ex_m) ex_expired)) =
      [KGet (ca_new_key ex_m) None new, KGet (ca_key ex_m) None secret, KNow t, KDelete (ca_key ex_m) e1,
       KCreate (new\<lparr>sec_Meta := named_meta (ca_key ex_m)\<rparr>) r1] @ rest \<and>
    parseCAFromSecret ex_A new = Inr ca \<and> parseCAFromSecret ex_A secret = Inr old \<and> NotAfter (fst old) < t"
  using authority_deleted_only_expired [OF ex_get_ok surjective_pairing _ ex_expired_run(2)]
  by (fastforce simp: ex_expired_def ex_vault_with_def)

lemma ex_crypto_ok: "crypto_ok ex_A"
  by (auto simp: crypto_ok_def signs_def ex_A_def ex_parse_itoa Second_def split: if_splits)

lemma ca_stored_valid:
  assumes "ca_stored A nn ca cs" and "crypto_ok A"
  shows "\<exists>t. KNow t \<in> set cs \<and> t + CARenewThreshold \<le> NotAfter (fst ca)"
proof -
  obtain sn t1 t2 der where c: "cs = [KNow t1, KNow t2, KSign (ca_template sn t1 t2) (ca_template sn t1 t2) (snd ca) (snd ca) (Inr der),
        KCreate (ca_secret A nn der (snd ca)) None]" "signs A (ca_template sn t1 t2) (ca_template sn t1 t2) (snd ca) (snd ca) der"
      "x_ParseCertificate A der = Inr (fst ca)"
    using assms(1) unfolding ca_stored_def Let_def by blast
  then have "NotAfter (ca_template sn t1 t2) - Second < NotAfter (fst ca)"
    using assms(2) unfolding crypto_ok_def by blast
  then show ?thesis using c(1)
    by (auto simp: ca_template_def CAValidityDuration_def CARenewThreshold_def duration_defs)
qed

text \<open>
  C27: The authority a check works with is valid for another year at one of the clock's readings of
  that check, with two exceptions: an authority in transition is used as it was read, and an
  expiring authority is used on when its replacement could not be stored.
\<close>

theorem authority_valid_for_a_year:
  assumes "crypto_ok A" and "run_state (ensureCA A m) s = (Inr ca, s')" and "trace s = []"
  shows "(\<exists>t. KNow t \<in> set (trace s') \<and> t + CARenewThreshold \<le> NotAfter (fst ca)) \<or>
    (\<exists>new. KGet (ca_new_key m) None new \<in> set (trace s') \<and> parseCAFromSecret A new = Inr ca) \<or>
    (\<exists>secret t. KGet (ca_key m) None secret \<in> set (trace s') \<and> parseCAFromSecret A secret = Inr ca \<and>
      KNow t \<in> set (trace s') \<and> NotAfter (fst ca) < t + CARenewThreshold \<and>
      (\<forall>c \<in> set (trace s'). \<not> stores c))"
proof -
  have "ca_chosen A m ca (trace s')"
    using yieldsD [OF ensureCA_yields assms(2)] assms(3) by auto
  then show ?thesis
  proof cases
    case (transition new cs)
    then show ?thesis by auto
  next
    case (current e new cs)
    show ?thesis
      using current(3)
    proof cases
      case (kept secret t)
      then show ?thesis using current(1) by auto
    next
      case (renewed secret old t gen)
      then show ?thesis using ca_stored_valid [OF _ assms(1)] current(1) by fastforce
    next
      case (not_renewed secret t gen)
      then show ?thesis using current(1) by (auto simp: stores_def)
    next
      case (created err gen secret)
      then show ?thesis using ca_stored_valid [OF _ assms(1)] current(1) by fastforce
    qed
  qed
qed

theorem authority_valid_for_a_year_witness:
  "\<exists>ca t. fst (run_state (ensureCA ex_A ex_m) (ex_vault_with [] False)) = Inr ca \<and>
     KNow t \<in> set (trace (snd (run_state (ensureCA ex_A ex_m) (ex_vault_with [] False)))) \<and>
     t + CARenewThreshold \<le> NotAfter (fst ca)"
proof -
  let ?r = "run_state (ensureCA ex_A ex_m) (ex_vault_with [] False)"
  have run: "isl (fst ?r) = False" "\<forall>nn s. KGet nn None s \<notin> set (trace (snd ?r))"
    by (simp_all add: ensure_defs ex_cert_eval)
  then obtain ca where ca: "fst ?r = Inr ca" by (cases "fst ?r") auto
  from authority_valid_for_a_year [OF ex_crypto_ok, of ex_m "ex_vault_with [] False" ca "snd ?r"] ca run(2)
  show ?thesis by (simp add: prod_eq_iff) (simp add: ex_vault_with_def)
qed

text \<open>
  The validity of an authority in transition is never looked at: in the vault whose only authority is
  a replacement that has expired, a check succeeds, signs a server certificate with the
  expired authority, stores it and publishes the expired authority in the webhook, and does not
  store another authority.
\<close>

definition ex_stale_new :: "(ex_vault, nat cert_call) kube" where
  "ex_stale_new = ex_vault_with [ex_ca (ca_new_key ex_m) 999] False"

lemma expired_authority_used:
  "let (r, s') = run_state (ensureCertificate ex_A ex_m) ex_stale_new
   in r = None \<and> 999 < ev_clock (world s') \<and>
     map wh_CABundle (wc_Webhooks (ev_config (world s'))) = [CHR ''C'' # itoa 999] \<and>
     map (\<lambda>s. secret_name s) (ev_secrets (world s')) = [server_key ex_m, ca_new_key ex_m]"
  by (simp add: ensure_defs transitionCA_def promoteCA_def ex_stale_new_def ex_ca_def
      parseCAFromSecret_def trusted_roots_def parse_server_cert_def ex_cert_eval)

section \<open>Webhook configuration\<close>

definition is_webhook :: "'k cert_call \<Rightarrow> bool" where
  "is_webhook c \<longleftrightarrow> (case c of KGetWebhook _ _ \<Rightarrow> True | KUpdateWebhook _ _ \<Rightarrow> True | _ \<Rightarrow> False)"

lemma no_webhook_before_renewal:
  "yields (\<lambda>_ cs. \<forall>c \<in> set cs. \<not> is_webhook c) (ensureCA A m)"
  "yields (\<lambda>_ cs. \<forall>c \<in> set cs. \<not> is_webhook c) (needsServerCertGeneration A m ca)"
  "yields (\<lambda>r cs. (r = None \<longrightarrow> server_stored A m (ca, k) cs) \<and> (\<forall>c \<in> set cs. \<not> is_webhook c))
     (generateServerCert A m ca k)"
  unfolding ensure_defs transitionCA_def promoteCA_def Let_def
  by (intro yields_rules; auto simp: is_webhook_def server_stored_def)+

lemma ensureCertificate_webhook:
  "yields (\<lambda>r cs. \<forall>c \<in> set cs. is_webhook c \<longrightarrow> r = None \<and>
     (\<exists>as bs fs ca. cs = as @ bs @ fs \<and> server_stored A m ca bs \<and> bundle_published A m (fst ca) fs \<and> c \<in> set fs))
     (ensureCertificate A m)"
  unfolding ensureCertificate_def
proof (intro yields_rules yields_weaken [OF no_webhook_before_renewal(1)]
    yields_weaken [OF no_webhook_before_renewal(2)] yields_weaken [OF no_webhook_before_renewal(3)]
    yields_weaken [OF patchWebhookConfiguration_yields], goal_cases)
  case (3 ca cs x caCert caKey r ds b r' es u fs)
  then show ?case
    by (intro ballI impI conjI refl exI [of _ "cs @ ds"] exI [of _ es] exI [of _ fs] exI [of _ "(caCert, caKey)"]) auto
qed auto

text \<open>
  C37: The authority is published in the webhook configuration only by a check that has just signed
  and stored a new server certificate, in every webhook and with the authority that signed it; and
  such a check reports success whether or not the configuration could be updated. So an update that
  fails is not made up for by later checks, which keep the server certificate they find.
\<close>

theorem bundle_published_only_on_renewal:
  assumes run: "run_state (ensureCertificate A m) s = (r, s')" and s: "trace s = []"
    and upd: "KUpdateWebhook cfg e \<in> set (trace s')"
  shows "r = None \<and> (\<exists>sn t1 t2 ca key caKey der.
    KSign (server_template m sn t1 t2) ca key caKey (Inr der) \<in> set (trace s') \<and>
    (\<forall>w \<in> set (wc_Webhooks cfg). wh_CABundle w = pem_Encode A ''CERTIFICATE'' (Raw ca)))"
proof -
  obtain as bs fs ca where *: "r = None" "trace s' = as @ bs @ fs" "server_stored A m ca bs"
      "bundle_published A m (fst ca) fs" "KUpdateWebhook cfg e \<in> set fs"
    using yieldsD [OF ensureCertificate_webhook run] s upd by (auto simp: is_webhook_def)
  from *(3) obtain sn t1 t2 key der where
      "KSign (server_template m sn t1 t2) (fst ca) key (snd ca) (Inr der) \<in> set bs"
    by (auto simp: server_stored_def)
  moreover have "\<forall>w \<in> set (wc_Webhooks cfg). wh_CABundle w = pem_Encode A ''CERTIFICATE'' (Raw (fst ca))"
    using *(4,5) by (auto simp: bundle_published_def)
  ultimately show ?thesis using *(1,2) by (metis Un_iff set_append)
qed

text \<open>The configuration refuses the update of the first check; the second check does not try again.\<close>

definition ex_down :: "(ex_vault, nat cert_call) kube" where
  "ex_down = ex_vault_with [] True"

theorem bundle_published_only_on_renewal_witness:
  "let s' = snd (run_state (ensureCertificate ex_A ex_m) ex_down);
       s'' = snd (run_state (ensureCertificate ex_A ex_m) (s'\<lparr>world := (world s')\<lparr>ev_down := False\<rparr>\<rparr>))
   in (\<exists>sn t1 t2 ca key caKey der.
         KSign (server_template ex_m sn t1 t2) ca key caKey (Inr der) \<in> set (trace s')) \<and>
      map wh_CABundle (wc_Webhooks (ev_config (world s''))) = ['''']"
proof -
  let ?s = "snd (run_state (ensureCertificate ex_A ex_m) ex_down)"
  have "\<exists>cfg e. KUpdateWebhook cfg e \<in> set (trace ?s)"
    by (simp add: ensure_defs ex_down_def ex_cert_eval)
  then obtain cfg e where "KUpdateWebhook cfg e \<in> set (trace ?s)" by blast
  from bundle_published_only_on_renewal [OF surjective_pairing _ this]
  have 1: "\<exists>sn t1 t2 ca key caKey der.
      KSign (server_template ex_m sn t1 t2) ca key caKey (Inr der) \<in> set (trace ?s)"
    by (fastforce simp: ex_down_def ex_vault_with_def)
  have 2: "map wh_CABundle (wc_Webhooks (ev_config (world (snd (run_state (ensureCertificate ex_A ex_m)
      (?s\<lparr>world := (world ?s)\<lparr>ev_down := False\<rparr>\<rparr>)))))) = ['''']"
    by (simp add: ensure_defs parseCAFromSecret_def trusted_roots_def parse_server_cert_def
        Certificate_Equal_def ex_down_def ex_cert_eval)
  from 1 2 show ?thesis by (simp only: Let_def simp_thms)
qed

section \<open>Life cycle\<close>

text \<open>
  The manager from its start on: the events reach the renewal loop only if the first check
  succeeded. A failed start leaves the manager marked as started, so that a second start does nothing.
\<close>

definition manager_run :: "('w, 'k) cert_api \<Rightarrow> Manager \<Rightarrow> renewal_event list \<Rightarrow> ('w, 'k, Manager \<times> bool) certs" where
  "manager_run A m es = do {
     (m, spawned, err) \<leftarrow> Manager_Start A m;
     (if spawned then do { _ \<leftarrow> renewalLoop A m es; State_Monad.return (m, True) }
      else State_Monad.return (m, False))
   }"

definition ticks :: "renewal_event list \<Rightarrow> nat" where
  "ticks es = length (takeWhile (\<lambda>e. e = TickerFired) es)"

text \<open>A check that failed or that went as \<open>certificate_check_refines\<close> describes.\<close>

definition checked :: "('w, 'k) cert_api \<Rightarrow> Manager \<Rightarrow> go_error option \<times> 'k cert_call list \<Rightarrow> bool" where
  "checked A m c \<longleftrightarrow> (fst c = None \<longrightarrow> cert_checked A m (snd c))"

lemma renewalLoop_yields:
  "yields (\<lambda>stopped cs. (stopped \<longleftrightarrow> (\<exists>e \<in> set es. e \<noteq> TickerFired)) \<and>
     (\<exists>ks. cs = concat (map snd ks) \<and> length ks = ticks es \<and> (\<forall>k \<in> set ks. checked A m k))) (renewalLoop A m es)"
proof (induction es)
  case Nil
  show ?case by (auto intro!: yields_rules simp: ticks_def)
next
  case (Cons e es)
  show ?case
  proof (cases e)
    case TickerFired
    show ?thesis
      unfolding renewalLoop.simps TickerFired renewal_event.case
    proof (intro yields_rules yields_weaken [OF ensureCertificate_yields] yields_weaken [OF Cons.IH], elim conjE exE)
      fix r :: "go_error option" and cs ds stopped ks
      assume "r = None \<longrightarrow> cert_checked A m cs" "stopped \<longleftrightarrow> (\<exists>e \<in> set es. e \<noteq> TickerFired)"
        "ds = concat (map snd ks)" "length ks = ticks es" "\<forall>k \<in> set ks. checked A m k"
      then show "(stopped \<longleftrightarrow> (\<exists>e \<in> set (TickerFired # es). e \<noteq> TickerFired)) \<and>
          (\<exists>ks. cs @ ds = concat (map snd ks) \<and> length ks = ticks (TickerFired # es) \<and> (\<forall>k \<in> set ks. checked A m k))"
        by (intro conjI exI [of _ "(r, cs) # ks"]) (auto simp: ticks_def checked_def)
    qed
  qed (auto intro!: yields_rules simp: ticks_def)
qed



end
