(* ===== verification/Go_Memory.thy ===== *)
theory Go_Memory
  imports KT_Prelude "HOL-Library.State_Monad"
begin

text \<open>
  Go's memory where aliasing matters: cells that hold backing arrays, pointers into them, and slices.
  Two pieces of the program are about aliasing: the generated deep copies of the API types, and the
  TLS options in \<^verbatim>\<open>main\<close>, where two slices start from one. What a deep copy promises is the locale
  \<open>deep_copy\<close>; slices and pointers of copied things are copied by the same contract.
\<close>

named_theorems memory \<open>evaluation of operations on memory\<close>

section \<open>Cells\<close>

text \<open>A cell holds one backing array. Addresses from \<open>limit\<close> on are free.\<close>

type_synonym addr = nat
type_synonym 'c heap = "addr \<Rightarrow> 'c option"

record 'c memory =
  cells :: "'c heap"
  limit :: addr

definition empty_memory :: "'c memory" where
  "empty_memory = \<lparr>cells = \<lambda>_. None, limit = 0\<rparr>"

definition mem_ok :: "'c memory \<Rightarrow> bool" where
  "mem_ok m \<longleftrightarrow> (\<forall>a. cells m a \<noteq> None \<longleftrightarrow> a < limit m)"

text \<open>Nothing that was allocated in \<open>m\<close> is different in \<open>m'\<close>.\<close>

definition extends :: "'c memory \<Rightarrow> 'c memory \<Rightarrow> bool" where
  "extends m m' \<longleftrightarrow> limit m \<le> limit m' \<and> (\<forall>a < limit m. cells m' a = cells m a)"

definition new_cell :: "'c \<Rightarrow> ('c memory, addr) state" where
  "new_cell c = State (\<lambda>m. (limit m, m\<lparr>cells := (cells m)(limit m \<mapsto> c), limit := Suc (limit m)\<rparr>))"

section \<open>Arrays and slices\<close>

text \<open>
  A type of array elements: its zero value and how its arrays are held in a cell. Go's type system keeps
  every pointer at a cell of its type, so the zero value \<open>load\<close> gives for another cell is never seen.
\<close>

record ('a, 'c) elem_type =
  et_zero :: 'a
  et_wrap :: "'a list \<Rightarrow> 'c"
  et_unwrap :: "'c \<Rightarrow> 'a list option"

definition elem_type_ok :: "('a, 'c) elem_type \<Rightarrow> bool" where
  "elem_type_ok T \<longleftrightarrow> (\<forall>xs. et_unwrap T (et_wrap T xs) = Some xs)"

definition array_at :: "('a, 'c) elem_type \<Rightarrow> 'c heap \<Rightarrow> addr \<Rightarrow> 'a list option" where
  "array_at T h a = (case h a of None \<Rightarrow> None | Some c \<Rightarrow> et_unwrap T c)"

definition make_array :: "('a, 'c) elem_type \<Rightarrow> nat \<Rightarrow> ('c memory, addr) state" where
  "make_array T n = new_cell (et_wrap T (replicate n (et_zero T)))"

definition load :: "('a, 'c) elem_type \<Rightarrow> addr \<Rightarrow> nat \<Rightarrow> ('c memory, 'a) state" where
  "load T a i = State (\<lambda>m.
     (case array_at T (cells m) a of
        None \<Rightarrow> et_zero T
      | Some xs \<Rightarrow> if i < length xs then xs ! i else et_zero T, m))"

definition assign :: "('a, 'c) elem_type \<Rightarrow> addr \<Rightarrow> nat \<Rightarrow> 'a \<Rightarrow> ('c memory, unit) state" where
  "assign T a i x = State (\<lambda>m. ((),
     case array_at T (cells m) a of
       None \<Rightarrow> m
     | Some xs \<Rightarrow> m\<lparr>cells := (cells m)(a \<mapsto> et_wrap T (xs[i := x]))\<rparr>))"

text \<open>
  A slice is nil, or a backing array with an offset, a length and a capacity. A pointer is nil, or an array
  and an index: \<^verbatim>\<open>new(T)\<close> makes an array of one, and \<^verbatim>\<open>&s[i]\<close> points into the array of \<open>s\<close>.
\<close>

datatype slice = NilSlice | Slice addr nat nat nat

type_synonym pointer = "(addr \<times> nat) option"

fun slice_len :: "slice \<Rightarrow> nat" where
  "slice_len NilSlice = 0"
| "slice_len (Slice a i n c) = n"

fun slice_cap :: "slice \<Rightarrow> nat" where
  "slice_cap NilSlice = 0"
| "slice_cap (Slice a i n c) = c"

fun slice_elems :: "('a, 'c) elem_type \<Rightarrow> 'c heap \<Rightarrow> slice \<Rightarrow> 'a list" where
  "slice_elems T h NilSlice = []"
| "slice_elems T h (Slice a i n c) =
     (case array_at T h a of None \<Rightarrow> [] | Some xs \<Rightarrow> take n (drop i xs))"

text \<open>
  \<^verbatim>\<open>append(s, x)\<close>: in place while the capacity lasts, otherwise into a new array whose capacity
  the runtime chooses (\<open>grow\<close>, from the old capacity and the length needed).
\<close>

definition go_append ::
  "(nat \<Rightarrow> nat \<Rightarrow> nat) \<Rightarrow> ('a, 'c) elem_type \<Rightarrow> slice \<Rightarrow> 'a \<Rightarrow> ('c memory, slice) state" where
  "go_append grow T s x =
     (if slice_len s < slice_cap s
      then (case s of
              NilSlice \<Rightarrow> State_Monad.return NilSlice
            | Slice a i n c \<Rightarrow> do {
                assign T a (i + n) x;
                State_Monad.return (Slice a i (Suc n) c)
              })
      else do {
        m \<leftarrow> State_Monad.get;
        let n = slice_len s;
        let c = grow (slice_cap s) (Suc n);
        b \<leftarrow> new_cell (et_wrap T (slice_elems T (cells m) s @ x # replicate (c - Suc n) (et_zero T)));
        State_Monad.return (Slice b 0 (Suc n) c)
      })"

section \<open>Copying\<close>

text \<open>
  The loop \<^verbatim>\<open>for i := range *in { (*in)[i].DeepCopyInto(&(*out)[i]) }\<close>, with \<open>f\<close> for the copy of an element;
  and with \<open>f\<close> the identity the built-in \<^verbatim>\<open>copy\<close>.
\<close>

fun copy_elems ::
  "('a, 'c) elem_type \<Rightarrow> ('a \<Rightarrow> ('c memory, 'a) state) \<Rightarrow> addr \<Rightarrow> nat \<Rightarrow> addr \<Rightarrow> nat \<Rightarrow> nat \<Rightarrow>
   ('c memory, unit) state" where
  "copy_elems T f a i b j 0 = State_Monad.return ()"
| "copy_elems T f a i b j (Suc n) = do {
     x \<leftarrow> load T a i;
     y \<leftarrow> f x;
     assign T b j y;
     copy_elems T f a (Suc i) b (Suc j) n
   }"

definition copy_slice ::
  "('a, 'c) elem_type \<Rightarrow> ('a \<Rightarrow> ('c memory, 'a) state) \<Rightarrow> slice \<Rightarrow> ('c memory, slice) state" where
  "copy_slice T f s =
     (case s of
        NilSlice \<Rightarrow> State_Monad.return NilSlice
      | Slice a i n c \<Rightarrow> do {
          b \<leftarrow> make_array T n;
          copy_elems T f a i b 0 n;
          State_Monad.return (Slice b 0 n n)
        })"

definition copy_pointer ::
  "('a, 'c) elem_type \<Rightarrow> ('a \<Rightarrow> ('c memory, 'a) state) \<Rightarrow> pointer \<Rightarrow> ('c memory, pointer) state" where
  "copy_pointer T f p =
     (case p of
        None \<Rightarrow> State_Monad.return None
      | Some (a, i) \<Rightarrow> do {
          out \<leftarrow> make_array T 1;
          x \<leftarrow> load T a i;
          y \<leftarrow> f x;
          assign T out 0 y;
          State_Monad.return (Some (out, 0))
        })"

text \<open>\<^verbatim>\<open>if in.F != nil { *out = (*in).DeepCopy() }\<close> with the method of another package\<close>

definition copy_nillable :: "('h \<Rightarrow> ('s, 'h) state) \<Rightarrow> 'h option \<Rightarrow> ('s, 'h option) state" where
  "copy_nillable f p =
     (case p of
        None \<Rightarrow> State_Monad.return None
      | Some x \<Rightarrow> do { y \<leftarrow> f x; State_Monad.return (Some y) })"

section \<open>The contract of a deep copy\<close>

text \<open>
  A type of things that refer to memory: when a thing is well formed (\<open>ok\<close>), the addresses it reaches
  (\<open>foot\<close>), and the value it stands for (\<open>val\<close>). All three depend on nothing but the
  cells it reaches.
\<close>

locale references =
  fixes ok :: "'c heap \<Rightarrow> 'a \<Rightarrow> bool"
    and foot :: "'c heap \<Rightarrow> 'a \<Rightarrow> addr set"
    and val :: "'c heap \<Rightarrow> 'a \<Rightarrow> 'v"
  assumes agree: "ok h x \<Longrightarrow> (\<And>a. a \<in> foot h x \<Longrightarrow> h' a = h a) \<Longrightarrow>
      ok h' x \<and> foot h' x = foot h x \<and> val h' x = val h x"
    and foot_dom: "ok h x \<Longrightarrow> foot h x \<subseteq> dom h"
begin

lemma foot_limit: "mem_ok m \<Longrightarrow> ok (cells m) x \<Longrightarrow> a \<in> foot (cells m) x \<Longrightarrow> a < limit m"
  using foot_dom [of "cells m" x] by (auto simp: mem_ok_def)

lemma kept:
  assumes "mem_ok m" and "ok (cells m) x" and "extends m m'"
  shows "ok (cells m') x" "foot (cells m') x = foot (cells m) x" "val (cells m') x = val (cells m) x"
  using agree [OF assms(2), of "cells m'"] foot_limit [OF assms(1,2)] assms(3) by (auto simp: extends_def)

end

text \<open>
  \<open>y\<close> in \<open>m'\<close> is a copy of \<open>x\<close> in \<open>m\<close>: it stands for the same value, reaches new cells only, and the
  cells there were are as before.
\<close>

definition copied ::
  "('c heap \<Rightarrow> 'a \<Rightarrow> bool) \<Rightarrow> ('c heap \<Rightarrow> 'a \<Rightarrow> addr set) \<Rightarrow> ('c heap \<Rightarrow> 'a \<Rightarrow> 'v) \<Rightarrow>
   'c memory \<Rightarrow> 'a \<Rightarrow> 'a \<Rightarrow> 'c memory \<Rightarrow> bool" where
  "copied ok foot val m x y m' \<longleftrightarrow> mem_ok m' \<and> extends m m' \<and> ok (cells m') y \<and>
     val (cells m') y = val (cells m) x \<and> foot (cells m') y \<subseteq> {limit m..<limit m'}"

text \<open>
  Writing through one of original and copy, to any of the cells it reaches, does not change
  what the other stands for.
\<close>

definition isolated_copy ::
  "('c heap \<Rightarrow> 'a \<Rightarrow> addr set) \<Rightarrow> ('c heap \<Rightarrow> 'a \<Rightarrow> 'v) \<Rightarrow> 'c memory \<Rightarrow> 'a \<Rightarrow> 'a \<Rightarrow> 'c memory \<Rightarrow> bool" where
  "isolated_copy foot val m x y m' \<longleftrightarrow> val (cells m') y = val (cells m) x \<and>
     (\<forall>h. (\<forall>a. a \<notin> foot (cells m') y \<longrightarrow> h a = cells m' a) \<longrightarrow> val h x = val (cells m) x) \<and>
     (\<forall>h. (\<forall>a. a \<notin> foot (cells m) x \<longrightarrow> h a = cells m' a) \<longrightarrow> val h y = val (cells m) x)"

locale deep_copy = references ok foot val
  for ok :: "'c heap \<Rightarrow> 'a \<Rightarrow> bool"
    and foot :: "'c heap \<Rightarrow> 'a \<Rightarrow> addr set"
    and val :: "'c heap \<Rightarrow> 'a \<Rightarrow> 'v" +
  fixes copy :: "'a \<Rightarrow> ('c memory, 'a) state"
  assumes copies: "mem_ok m \<Longrightarrow> ok (cells m) x \<Longrightarrow> run_state (copy x) m = (y, m') \<Longrightarrow>
      copied ok foot val m x y m'"
begin

lemma isolated:
  assumes "mem_ok m" and "ok (cells m) x" and "run_state (copy x) m = (y, m')"
  shows "isolated_copy foot val m x y m'"
proof -
  have c: "extends m m'" "ok (cells m') y" "val (cells m') y = val (cells m) x"
      "foot (cells m') y \<subseteq> {limit m..<limit m'}"
    using copies [OF assms] by (simp_all add: copied_def)
  note k = kept [OF assms(1,2) c(1)]
  have apart: "a \<notin> foot (cells m') y" if "a \<in> foot (cells m) x" for a
    using c(4) foot_limit [OF assms(1,2) that] by (meson atLeastLessThan_iff leD subsetD)
  have "val h x = val (cells m) x" if "\<forall>a. a \<notin> foot (cells m') y \<longrightarrow> h a = cells m' a" for h
    using agree [OF k(1), of h] that apart by (simp add: k)
  moreover have "a \<notin> foot (cells m) x" if "a \<in> foot (cells m') y" for a using apart that by blast
  then have "val h y = val (cells m) x" if "\<forall>a. a \<notin> foot (cells m) x \<longrightarrow> h a = cells m' a" for h
    using agree [OF c(2), of h] that by (simp add: c(3))
  ultimately show ?thesis unfolding isolated_copy_def using c(3) by blast
qed

end

section \<open>Slices and pointers\<close>

definition slice_ok :: "('a, 'c) elem_type \<Rightarrow> ('c heap \<Rightarrow> 'a \<Rightarrow> bool) \<Rightarrow> 'c heap \<Rightarrow> slice \<Rightarrow> bool" where
  "slice_ok T ok h s =
     (case s of
        NilSlice \<Rightarrow> True
      | Slice a i n c \<Rightarrow>
          (case array_at T h a of
             None \<Rightarrow> False
           | Some xs \<Rightarrow> n \<le> c \<and> i + c \<le> length xs \<and> list_all (ok h) (take n (drop i xs))))"

definition slice_foot ::
  "('a, 'c) elem_type \<Rightarrow> ('c heap \<Rightarrow> 'a \<Rightarrow> addr set) \<Rightarrow> 'c heap \<Rightarrow> slice \<Rightarrow> addr set" where
  "slice_foot T foot h s =
     (case s of
        NilSlice \<Rightarrow> {}
      | Slice a i n c \<Rightarrow> insert a (\<Union>x \<in> set (slice_elems T h s). foot h x))"

definition slice_val :: "('a, 'c) elem_type \<Rightarrow> ('c heap \<Rightarrow> 'a \<Rightarrow> 'v) \<Rightarrow> 'c heap \<Rightarrow> slice \<Rightarrow> 'v list" where
  "slice_val T val h s = map (val h) (slice_elems T h s)"

text \<open>A pointer reaches what the slice of length one at its place reaches.\<close>

fun pointer_slice :: "pointer \<Rightarrow> slice" where
  "pointer_slice None = NilSlice"
| "pointer_slice (Some (a, i)) = Slice a i 1 1"

definition pointer_ok :: "('a, 'c) elem_type \<Rightarrow> ('c heap \<Rightarrow> 'a \<Rightarrow> bool) \<Rightarrow> 'c heap \<Rightarrow> pointer \<Rightarrow> bool" where
  "pointer_ok T ok h p = slice_ok T ok h (pointer_slice p)"

definition pointer_foot ::
  "('a, 'c) elem_type \<Rightarrow> ('c heap \<Rightarrow> 'a \<Rightarrow> addr set) \<Rightarrow> 'c heap \<Rightarrow> pointer \<Rightarrow> addr set" where
  "pointer_foot T foot h p = slice_foot T foot h (pointer_slice p)"

definition pointer_val ::
  "('a, 'c) elem_type \<Rightarrow> ('c heap \<Rightarrow> 'a \<Rightarrow> 'v) \<Rightarrow> 'c heap \<Rightarrow> pointer \<Rightarrow> 'v option" where
  "pointer_val T val h p = (case slice_val T val h (pointer_slice p) of [] \<Rightarrow> None | v # _ \<Rightarrow> Some v)"

lemma run_new_cell [memory]:
  "run_state (new_cell c) m = (limit m, m\<lparr>cells := (cells m)(limit m \<mapsto> c), limit := Suc (limit m)\<rparr>)"
  by (simp add: new_cell_def)

lemma run_load [memory]:
  "array_at T (cells m) a = Some xs \<Longrightarrow> i < length xs \<Longrightarrow> run_state (load T a i) m = (xs ! i, m)"
  by (simp add: load_def)

lemma run_assign [memory]:
  "array_at T (cells m) a = Some xs \<Longrightarrow>
   run_state (assign T a i x) m = ((), m\<lparr>cells := (cells m)(a \<mapsto> et_wrap T (xs[i := x]))\<rparr>)"
  by (simp add: assign_def)

lemma array_at_upd [simp]:
  "elem_type_ok T \<Longrightarrow> array_at T (h(a \<mapsto> et_wrap T xs)) a = Some xs"
  "a \<noteq> b \<Longrightarrow> array_at T (h(b \<mapsto> c)) a = array_at T h a"
  by (simp_all add: array_at_def elem_type_ok_def)

lemma array_at_agree: "h' a = h a \<Longrightarrow> array_at T h' a = array_at T h a"
  by (simp add: array_at_def)

lemma array_at_limit: "mem_ok m \<Longrightarrow> array_at T (cells m) a = Some xs \<Longrightarrow> a < limit m"
  by (cases "cells m a") (auto simp: array_at_def mem_ok_def)

lemma extends_trans: "extends m m' \<Longrightarrow> extends m' m'' \<Longrightarrow> extends m m''"
  by (auto simp: extends_def)

lemma mem_ok_upd: "mem_ok m \<Longrightarrow> a < limit m \<Longrightarrow> mem_ok (m\<lparr>cells := (cells m)(a \<mapsto> c)\<rparr>)"
  by (auto simp: mem_ok_def)

lemma mem_ok_new: "mem_ok m \<Longrightarrow> mem_ok (m\<lparr>cells := (cells m)(limit m \<mapsto> c), limit := Suc (limit m)\<rparr>)"
  by (auto simp: mem_ok_def)

text \<open>Appending to a slice that uses its capacity up leaves every cell as it is.\<close>

lemma append_full:
  assumes "elem_type_ok T" and "mem_ok m" and "slice_len s = slice_cap s"
    and "length (slice_elems T (cells m) s) = slice_len s" and "\<And>c n. n \<le> grow c n"
    and "run_state (go_append grow T s x) m = (s', m')"
  shows "mem_ok m'" "extends m m'" "slice_elems T (cells m') s' = slice_elems T (cells m) s @ [x]"
    and "slice_len s' = Suc (slice_len s)" "slice_cap s' = grow (slice_cap s) (Suc (slice_len s))"
  using assms by (auto simp: go_append_def memory Let_def mem_ok_new extends_def)

lemma slice_elems_extends:
  assumes "extends m m'" and "mem_ok m" and "length (slice_elems T (cells m) s) = slice_len s"
  shows "slice_elems T (cells m') s = slice_elems T (cells m) s"
proof (cases s)
  case (Slice a i n c)
  show ?thesis
  proof (cases "array_at T (cells m) a")
    case None
    then show ?thesis using assms(3) by (simp add: Slice split: option.split)
  next
    case (Some xs)
    then have "cells m' a = cells m a" using assms(1) array_at_limit [OF assms(2) Some] by (simp add: extends_def)
    then show ?thesis using array_at_agree [of "cells m'" a "cells m" T] by (simp add: Slice)
  qed
qed simp

text \<open>Well-formed slices refer to memory when their elements do.\<close>

lemma slice_ok_Slice:
  "slice_ok T ok h (Slice a i n c) \<longleftrightarrow> (\<exists>xs. array_at T h a = Some xs \<and> (n \<le> c \<and> i + c \<le> length xs) \<and>
     (\<forall>x \<in> set (take n (drop i xs)). ok h x))"
  by (simp add: slice_ok_def list_all_iff split: option.split)

context references begin

lemma slice_references: "references (slice_ok T ok) (slice_foot T foot) (slice_val T val)"
proof
  fix h h' :: "'c heap" and s
  assume s: "slice_ok T ok h s" and same: "\<And>a. a \<in> slice_foot T foot h s \<Longrightarrow> h' a = h a"
  show "slice_ok T ok h' s \<and> slice_foot T foot h' s = slice_foot T foot h s \<and> slice_val T val h' s = slice_val T val h s"
  proof (cases s)
    case (Slice a i n c)
    obtain xs where xs: "array_at T h a = Some xs" "n \<le> c \<and> i + c \<le> length xs"
        "\<forall>x \<in> set (take n (drop i xs)). ok h x"
      using s [unfolded Slice slice_ok_Slice] by blast
    have xs': "array_at T h' a = Some xs"
      using xs(1) same [of a] array_at_agree [of h' a h T] by (simp add: Slice slice_foot_def)
    have "ok h' x \<and> foot h' x = foot h x \<and> val h' x = val h x" if x: "x \<in> set (take n (drop i xs))" for x
    proof (rule agree)
      show "ok h x" using xs(3) x by blast
      show "h' a' = h a'" if "a' \<in> foot h x" for a'
        using same [of a'] x that by (auto simp: Slice slice_foot_def xs(1))
    qed
    then show ?thesis
      using xs by (simp add: Slice slice_ok_Slice slice_foot_def slice_val_def xs')
  qed (simp_all add: slice_ok_def slice_foot_def slice_val_def)
next
  fix h :: "'c heap" and s assume s: "slice_ok T ok h s"
  show "slice_foot T foot h s \<subseteq> dom h"
  proof (cases s)
    case (Slice a i n c)
    obtain xs where xs: "array_at T h a = Some xs" "n \<le> c \<and> i + c \<le> length xs"
        "\<forall>x \<in> set (take n (drop i xs)). ok h x"
      using s [unfolded Slice slice_ok_Slice] by blast
    have "a \<in> dom h" using xs(1) by (auto simp: array_at_def split: option.splits)
    then show ?thesis using xs foot_dom by (simp add: Slice slice_foot_def UN_subset_iff)
  qed (simp add: slice_foot_def)
qed

end

text \<open>
  What the loop leaves: the \<open>n\<close> elements of the array at \<open>b\<close> from \<open>j\<close> on are copies of those of \<open>xs\<close> from
  \<open>i\<close> on, the other elements \<open>ys\<close> and all other cells are as before.
\<close>

definition elems_copied ::
  "('c heap \<Rightarrow> 'a \<Rightarrow> bool) \<Rightarrow> ('c heap \<Rightarrow> 'a \<Rightarrow> addr set) \<Rightarrow> ('c heap \<Rightarrow> 'a \<Rightarrow> 'v) \<Rightarrow> ('a, 'c) elem_type \<Rightarrow>
   'c memory \<Rightarrow> 'a list \<Rightarrow> nat \<Rightarrow> addr \<Rightarrow> 'a list \<Rightarrow> nat \<Rightarrow> nat \<Rightarrow> 'c memory \<Rightarrow> bool" where
  "elems_copied ok foot val T m xs i b ys j n m' \<longleftrightarrow>
     mem_ok m' \<and> limit m \<le> limit m' \<and> (\<forall>c < limit m. c \<noteq> b \<longrightarrow> cells m' c = cells m c) \<and>
     (\<exists>zs. array_at T (cells m') b = Some zs \<and> length zs = length ys \<and>
        (\<forall>k. k < j \<or> j + n \<le> k \<longrightarrow> zs ! k = ys ! k) \<and>
        (\<forall>k < n. ok (cells m') (zs ! (j + k)) \<and> val (cells m') (zs ! (j + k)) = val (cells m) (xs ! (i + k)) \<and>
           foot (cells m') (zs ! (j + k)) \<subseteq> {limit m..<limit m'}))"

context deep_copy begin

text \<open>One iteration: copying an element into \<open>b\<close> disturbs neither the elements to come nor their footprints.\<close>

lemma iteration:
  assumes T: "elem_type_ok T" and m: "mem_ok m" and x: "ok (cells m) x" "b \<notin> foot (cells m) x"
    and b: "array_at T (cells m) b = Some ys" "j < length ys"
    and run: "run_state (copy x) m = (y, m1)"
    and m2: "m2 = m1\<lparr>cells := (cells m1)(b \<mapsto> et_wrap T (ys[j := y]))\<rparr>"
  shows "mem_ok m2" "limit m \<le> limit m2" "\<forall>c < limit m. c \<noteq> b \<longrightarrow> cells m2 c = cells m c"
    and "run_state (assign T b j y) m1 = ((), m2)" "array_at T (cells m2) b = Some (ys[j := y])"
    and "ok (cells m2) y" "val (cells m2) y = val (cells m) x" "foot (cells m2) y \<subseteq> {limit m..<limit m2}"
    and "\<And>z. ok (cells m) z \<Longrightarrow> b \<notin> foot (cells m) z \<Longrightarrow>
      ok (cells m2) z \<and> foot (cells m2) z = foot (cells m) z \<and> val (cells m2) z = val (cells m) z"
proof -
  have c: "mem_ok m1" "extends m m1" "ok (cells m1) y" "val (cells m1) y = val (cells m) x"
      "foot (cells m1) y \<subseteq> {limit m..<limit m1}"
    using copies [OF m x(1) run] by (simp_all add: copied_def)
  have lim: "b < limit m" "limit m \<le> limit m1" "\<forall>c < limit m. cells m1 c = cells m c"
    using array_at_limit [OF m b(1)] c(2) by (auto simp: extends_def)
  show "mem_ok m2" unfolding m2 using lim by (intro mem_ok_upd c(1)) simp
  show "limit m \<le> limit m2" "\<forall>c < limit m. c \<noteq> b \<longrightarrow> cells m2 c = cells m c"
    using lim by (simp_all add: m2)
  have "array_at T (cells m1) b = Some ys" using b(1) lim by (simp add: array_at_def)
  then show "run_state (assign T b j y) m1 = ((), m2)" by (simp add: m2 memory)
  show "array_at T (cells m2) b = Some (ys[j := y])" using T by (simp add: m2)
  have "a \<noteq> b" if "a \<in> foot (cells m1) y" for a using that c(5) lim(1) by auto
  then have y: "ok (cells m2) y \<and> foot (cells m2) y = foot (cells m1) y \<and> val (cells m2) y = val (cells m1) y"
    by (intro agree c(3)) (simp add: m2)
  then show "ok (cells m2) y" "val (cells m2) y = val (cells m) x" "foot (cells m2) y \<subseteq> {limit m..<limit m2}"
    using c(4,5) by (simp_all add: m2)
  fix z assume z: "ok (cells m) z" "b \<notin> foot (cells m) z"
  then show "ok (cells m2) z \<and> foot (cells m2) z = foot (cells m) z \<and> val (cells m2) z = val (cells m) z"
    using foot_limit [OF m z(1)] lim(3) by (intro agree) (auto simp: m2)
qed

lemma elems_copied_Suc:
  assumes m2: "limit m \<le> limit m2" "\<forall>c < limit m. c \<noteq> b \<longrightarrow> cells m2 c = cells m c"
    and b: "b < limit m" "j < length ys"
    and y: "ok (cells m2) y" "val (cells m2) y = val (cells m) (xs ! i)" "foot (cells m2) y \<subseteq> {limit m..<limit m2}"
    and xs: "\<And>k. k < n \<Longrightarrow> val (cells m2) (xs ! (Suc i + k)) = val (cells m) (xs ! (Suc i + k))"
    and rest: "elems_copied ok foot val T m2 xs (Suc i) b (ys[j := y]) (Suc j) n m'"
  shows "elems_copied ok foot val T m xs i b ys j (Suc n) m'"
proof -
  obtain zs where zs: "array_at T (cells m') b = Some zs" "length zs = length ys"
      "\<forall>k. k < Suc j \<or> Suc j + n \<le> k \<longrightarrow> zs ! k = ys[j := y] ! k"
      "\<forall>k < n. ok (cells m') (zs ! (Suc j + k)) \<and>
         val (cells m') (zs ! (Suc j + k)) = val (cells m2) (xs ! (Suc i + k)) \<and>
         foot (cells m') (zs ! (Suc j + k)) \<subseteq> {limit m2..<limit m'}"
    and m': "mem_ok m'" "limit m2 \<le> limit m'" "\<forall>c < limit m2. c \<noteq> b \<longrightarrow> cells m' c = cells m2 c"
    using rest unfolding elems_copied_def by auto
  have "a < limit m2 \<and> a \<noteq> b" if "a \<in> foot (cells m2) y" for a using that y(3) b(1) by auto
  then have keep: "ok (cells m') y \<and> foot (cells m') y = foot (cells m2) y \<and> val (cells m') y = val (cells m2) y"
    using m'(3) by (intro agree y(1)) simp
  have "zs ! j = y" using zs(3) b(2) by simp
  then have "ok (cells m') (zs ! (j + k)) \<and> val (cells m') (zs ! (j + k)) = val (cells m) (xs ! (i + k)) \<and>
      foot (cells m') (zs ! (j + k)) \<subseteq> {limit m..<limit m'}" if "k < Suc n" for k
  proof (cases k)
    case 0
    have "{limit m..<limit m2} \<subseteq> {limit m..<limit m'}" using m'(2) by auto
    then show ?thesis using 0 \<open>zs ! j = y\<close> keep y(2,3) by auto
  next
    case (Suc l)
    have "{limit m2..<limit m'} \<subseteq> {limit m..<limit m'}" using m2(1) by simp
    then show ?thesis using zs(4) [rule_format, of l] xs [of l] Suc that by auto
  qed
  moreover have "\<forall>k. k < j \<or> j + Suc n \<le> k \<longrightarrow> zs ! k = ys ! k" using zs(3) by auto
  moreover have "\<forall>c < limit m. c \<noteq> b \<longrightarrow> cells m' c = cells m c" using m2 m'(3) by simp
  ultimately show ?thesis
    unfolding elems_copied_def using m'(1,2) m2(1) zs(1,2) by auto
qed

lemma elems_copied_loop:
  assumes T: "elem_type_ok T" and ab: "a \<noteq> b"
  shows "mem_ok m \<Longrightarrow> array_at T (cells m) a = Some xs \<Longrightarrow> i + n \<le> length xs \<Longrightarrow>
    (\<And>k. k < n \<Longrightarrow> ok (cells m) (xs ! (i + k)) \<and> b \<notin> foot (cells m) (xs ! (i + k))) \<Longrightarrow>
    array_at T (cells m) b = Some ys \<Longrightarrow> j + n \<le> length ys \<Longrightarrow>
    elems_copied ok foot val T m xs i b ys j n (snd (run_state (copy_elems T copy a i b j n) m))"
proof (induction n arbitrary: m i j ys)
  case 0
  then show ?case by (simp add: elems_copied_def)
next
  case (Suc n)
  let ?x = "xs ! i"
  obtain y m1 where run: "run_state (copy ?x) m = (y, m1)" by fastforce
  define m2 where "m2 = m1\<lparr>cells := (cells m1)(b \<mapsto> et_wrap T (ys[j := y]))\<rparr>"
  have "ok (cells m) ?x" "b \<notin> foot (cells m) ?x" "j < length ys" using Suc.prems(4) [of 0] Suc.prems(6) by auto
  note it = iteration [OF T Suc.prems(1) this(1,2) Suc.prems(5) this(3) run m2_def]
  have a: "array_at T (cells m2) a = Some xs"
    using Suc.prems(2) it(3) ab array_at_limit [OF Suc.prems(1,2)] by (simp add: array_at_def)
  let ?m' = "snd (run_state (copy_elems T copy a (Suc i) b (Suc j) n) m2)"
  have rest: "elems_copied ok foot val T m2 xs (Suc i) b (ys[j := y]) (Suc j) n ?m'"
  proof (rule Suc.IH [OF it(1) a _ _ it(5)])
    show "ok (cells m2) (xs ! (Suc i + k)) \<and> b \<notin> foot (cells m2) (xs ! (Suc i + k))" if "k < n" for k
      using Suc.prems(4) [of "Suc k"] it(9) [of "xs ! (Suc i + k)"] that by simp
  qed (use Suc.prems(3,6) in simp_all)
  have eq: "snd (run_state (copy_elems T copy a i b j (Suc n)) m) = ?m'"
    using Suc.prems(2,3) run it(4) by (simp add: run_load)
  show ?case
    unfolding eq by (rule elems_copied_Suc [OF it(2,3) array_at_limit [OF Suc.prems(1,5)] \<open>j < length ys\<close> it(6,7,8) _ rest])
      (use Suc.prems(4) it(9) in force)
qed

lemma copies_slice:
  assumes T: "elem_type_ok T" and m: "mem_ok m" and s: "slice_ok T ok (cells m) s"
    and run: "run_state (copy_slice T copy s) m = (s', m')"
  shows "copied (slice_ok T ok) (slice_foot T foot) (slice_val T val) m s s' m'"
proof (cases s)
  case NilSlice
  then show ?thesis
    using run m by (auto simp: copy_slice_def copied_def extends_def slice_ok_def slice_val_def slice_foot_def)
next
  case (Slice a i n c)
  let ?b = "limit m" and ?ys = "replicate n (et_zero T)"
  define m1 where "m1 = m\<lparr>cells := (cells m)(?b \<mapsto> et_wrap T ?ys), limit := Suc ?b\<rparr>"
  obtain xs where xs: "array_at T (cells m) a = Some xs" "i + n \<le> length xs"
      "\<forall>x \<in> set (take n (drop i xs)). ok (cells m) x"
    using s unfolding Slice slice_ok_Slice by auto
  have ab: "a \<noteq> ?b" using array_at_limit [OF m xs(1)] by simp
  have m1: "mem_ok m1" "extends m m1" "array_at T (cells m1) ?b = Some ?ys" "array_at T (cells m1) a = Some xs"
    using m T ab xs(1) by (simp_all add: m1_def mem_ok_new) (simp add: extends_def)
  have x: "ok (cells m) (xs ! (i + k))" if "k < n" for k
    using xs(2,3) that by (force simp: set_conv_nth)
  have e: "elems_copied ok foot val T m1 xs i ?b ?ys 0 n (snd (run_state (copy_elems T copy a i ?b 0 n) m1))"
  proof (rule elems_copied_loop [OF T ab m1(1,4) xs(2) _ m1(3)])
    show "ok (cells m1) (xs ! (i + k)) \<and> ?b \<notin> foot (cells m1) (xs ! (i + k))" if "k < n" for k
      using kept [OF m x [OF that] m1(2)] foot_limit [OF m x [OF that]] by auto
  qed simp
  have eq: "s' = Slice ?b 0 n n" "snd (run_state (copy_elems T copy a i ?b 0 n) m1) = m'"
    using run by (auto simp: Slice copy_slice_def make_array_def memory m1_def split: prod.splits)
  obtain zs where zs: "array_at T (cells m') ?b = Some zs" "length zs = n"
      "\<forall>k < n. ok (cells m') (zs ! k) \<and> val (cells m') (zs ! k) = val (cells m1) (xs ! (i + k)) \<and>
         foot (cells m') (zs ! k) \<subseteq> {Suc ?b..<limit m'}"
    and m': "mem_ok m'" "Suc ?b \<le> limit m'" "\<forall>c < Suc ?b. c \<noteq> ?b \<longrightarrow> cells m' c = cells m1 c"
    using e unfolding eq elems_copied_def by (auto simp: m1_def)
  have z: "ok (cells m') z \<and> foot (cells m') z \<subseteq> {?b..<limit m'}" if "z \<in> set zs" for z
    using that zs(2,3) by (force simp: set_conv_nth)
  have "slice_val T val (cells m') s' = slice_val T val (cells m) s"
    using zs xs(1,2) kept(3) [OF m x m1(2)] by (auto simp: eq(1) Slice slice_val_def intro!: nth_equalityI)
  moreover have "extends m m'" using m1(2) m' by (simp add: extends_def m1_def)
  ultimately show ?thesis
    using m' z zs(1,2) by (auto simp: copied_def eq(1) slice_ok_Slice slice_foot_def)
qed

lemma slice_copy:
  "elem_type_ok T \<Longrightarrow> deep_copy (slice_ok T ok) (slice_foot T foot) (slice_val T val) (copy_slice T copy)"
  by (intro deep_copy.intro slice_references deep_copy_axioms.intro copies_slice)

lemma copy_pointer_slice:
  "run_state (copy_pointer T copy p) m = (q, m') \<Longrightarrow>
   run_state (copy_slice T copy (pointer_slice p)) m = (pointer_slice q, m')"
  by (cases p rule: pointer_slice.cases) (auto simp: copy_pointer_def copy_slice_def split: prod.splits)

lemma pointer_copy:
  assumes "elem_type_ok T"
  shows "deep_copy (pointer_ok T ok) (pointer_foot T foot) (pointer_val T val) (copy_pointer T copy)"
proof
  fix h h' :: "'c heap" and p
  assume "pointer_ok T ok h p" and "\<And>a. a \<in> pointer_foot T foot h p \<Longrightarrow> h' a = h a"
  then show "pointer_ok T ok h' p \<and> pointer_foot T foot h' p = pointer_foot T foot h p \<and>
      pointer_val T val h' p = pointer_val T val h p"
    using references.agree [OF slice_references, of T h "pointer_slice p" h']
    by (simp add: pointer_ok_def pointer_foot_def pointer_val_def)
next
  fix h :: "'c heap" and p assume "pointer_ok T ok h p"
  then show "pointer_foot T foot h p \<subseteq> dom h"
    using references.foot_dom [OF slice_references] by (simp add: pointer_ok_def pointer_foot_def)
next
  fix m m' :: "'c memory" and p q
  assume "mem_ok m" "pointer_ok T ok (cells m) p" "run_state (copy_pointer T copy p) m = (q, m')"
  then show "copied (pointer_ok T ok) (pointer_foot T foot) (pointer_val T val) m p q m'"
    using copies_slice [OF assms, of m "pointer_slice p" "pointer_slice q" m'] copy_pointer_slice [of T p m q m']
    by (simp add: copied_def pointer_ok_def pointer_foot_def pointer_val_def)
qed

text \<open>A struct copied field by field: \<open>get\<close> is the fields that refer to memory, \<open>put\<close> replaces them.\<close>

lemma struct_copy:
  assumes get: "\<And>r t. get (put t r) = t"
    and ok': "\<And>h r. ok' h r = ok h (get r)" and foot': "\<And>h r. foot' h r = foot h (get r)"
    and same: "\<And>h h' r. val h' (get r) = val h (get r) \<Longrightarrow> val' h' r = val' h r"
    and val': "\<And>h h' r t. val h' t = val h (get r) \<Longrightarrow> val' h' (put t r) = val' h r"
    and copy': "\<And>r. copy' r = do { t \<leftarrow> copy (get r); State_Monad.return (put t r) }"
  shows "deep_copy ok' foot' val' copy'"
proof (unfold_locales, goal_cases)
  case (1 h r h')
  then show ?case using agree [of h "get r" h'] same [of h' r h] by (simp add: ok' foot')
next
  case (2 h r)
  then show ?case using foot_dom by (simp add: ok' foot')
next
  case (3 m r r' m')
  then obtain t where "run_state (copy (get r)) m = (t, m')" "r' = put t r"
    by (auto simp: copy' split: prod.splits)
  then show ?case using copies [of m "get r" t m'] 3(1,2) val' [of "cells m'" t "cells m" r]
    by (simp add: copied_def get ok' foot')
qed

text \<open>A pointer of another package, nil or handed to a copying method of that package.\<close>

lemma option_copy:
  "deep_copy (\<lambda>h p. case p of None \<Rightarrow> True | Some x \<Rightarrow> ok h x)
     (\<lambda>h p. case p of None \<Rightarrow> {} | Some x \<Rightarrow> foot h x) (\<lambda>h p. map_option (val h) p)
     (copy_nillable copy)"
proof (unfold_locales, goal_cases)
  case (1 h p h')
  then show ?case using agree [of h "the p" h'] by (cases p) simp_all
next
  case (2 h p)
  then show ?case using foot_dom [of h "the p"] by (cases p) simp_all
next
  case (3 m p q m')
  show ?case
  proof (cases p)
    case None
    then show ?thesis using 3 by (auto simp: copy_nillable_def copied_def extends_def)
  next
    case (Some x)
    then obtain y where "run_state (copy x) m = (y, m')" "q = Some y"
      using 3(3) by (auto simp: copy_nillable_def split: prod.splits)
    then show ?thesis using copies [OF 3(1), of x y m'] 3(2) Some by (simp add: copied_def)
  qed
qed

end

text \<open>Things without references, and two things copied one after the other.\<close>

lemma scalar_copy: "deep_copy (\<lambda>h x. True) (\<lambda>h x. {}) (\<lambda>h x. x) State_Monad.return"
  by unfold_locales (simp_all add: copied_def extends_def)

lemma pair_copy:
  assumes c: "deep_copy ok foot val copy" and c': "deep_copy ok' foot' val' copy'"
  shows "deep_copy (\<lambda>h p. ok h (fst p) \<and> ok' h (snd p)) (\<lambda>h p. foot h (fst p) \<union> foot' h (snd p))
    (\<lambda>h p. (val h (fst p), val' h (snd p)))
    (\<lambda>p. do { x \<leftarrow> copy (fst p); y \<leftarrow> copy' (snd p); State_Monad.return (x, y) })"
proof (unfold_locales, goal_cases)
  note r = deep_copy.axioms(1) [OF c] and r' = deep_copy.axioms(1) [OF c']
  {
    case (1 h p h')
    then show ?case using references.agree [OF r, of h "fst p" h'] references.agree [OF r', of h "snd p" h'] by simp
  next
    case (2 h p)
    then show ?case using references.foot_dom [OF r] references.foot_dom [OF r'] by simp
  next
    case (3 m p q m')
    then obtain x m1 y where run: "run_state (copy (fst p)) m = (x, m1)" "run_state (copy' (snd p)) m1 = (y, m')"
      "q = (x, y)" by (auto split: prod.splits)
    have m1: "copied ok foot val m (fst p) x m1" using deep_copy.copies [OF c 3(1) _ run(1)] 3(2) by simp
    then have ext: "mem_ok m1" "extends m m1" "ok (cells m1) x" by (simp_all add: copied_def)
    note k = references.kept [OF r' 3(1) _ ext(2)]
    have m': "copied ok' foot' val' m1 (snd p) y m'"
      using deep_copy.copies [OF c' ext(1) _ run(2)] k(1) 3(2) by simp
    then have ext': "extends m1 m'" by (simp add: copied_def)
    note k' = references.kept [OF r ext(1,3) ext']
    have "{limit m..<limit m1} \<subseteq> {limit m..<limit m'}" "{limit m1..<limit m'} \<subseteq> {limit m..<limit m'}"
      using ext(2) ext' by (simp_all add: extends_def)
    then have "foot (cells m') x \<union> foot' (cells m') y \<subseteq> {limit m..<limit m'}"
      using m1 m' unfolding copied_def k'(2) by (meson Un_least subset_trans)
    moreover have "extends m m'" by (rule extends_trans [OF ext(2) ext'])
    ultimately show ?case
      using m1 m' k(3) k' 3(2) by (simp add: copied_def run(3))
  }
qed

end
