(* ===== verification/Startup_Main.thy ===== *)
theory Startup_Main
  imports Startup_Config Go_Memory
begin

text \<open>
  The sequence of \<^verbatim>\<open>main\<close> in \<^verbatim>\<open>cmd/main.go\<close>: TLS options, manager, certificate components, field index,
  workers, controllers, webhook, health checks, start. Every call into controller-runtime and client-go
  that can fail is recorded; the first failure ends the process with status 1. The TLS options live
  in memory, because the options of both servers are appended to one slice.
\<close>

section \<open>TLS options\<close>

datatype cert_source = SecretCertificate | MetricsCertificate

text \<open>The functions that are appended; the zero value of the array elements is the nil function.\<close>

datatype tls_option = NilFunction | DisableHTTP2 | GetCertificateFrom cert_source

record tls_config =
  NextProtos :: "string list"
  tls_GetCertificate :: "cert_source option"

fun apply_tls_option :: "tls_option \<Rightarrow> tls_config \<Rightarrow> tls_config" where
  "apply_tls_option NilFunction c = c"
| "apply_tls_option DisableHTTP2 c = c\<lparr>NextProtos := [''http/1.1'']\<rparr>"
| "apply_tls_option (GetCertificateFrom s) c = c\<lparr>tls_GetCertificate := Some s\<rparr>"

definition tls_type :: "(tls_option, tls_option list) elem_type" where
  "tls_type = \<lparr>et_zero = NilFunction, et_wrap = \<lambda>xs. xs, et_unwrap = Some\<rparr>"

section \<open>Manager options\<close>

record metrics_options =
  BindAddress :: string
  SecureServing :: bool
  metrics_TLSOpts :: slice
  authenticated :: bool

record manager_options =
  mo_Metrics :: metrics_options
  webhook_TLSOpts :: slice
  HealthProbeBindAddress :: string
  LeaderElection :: bool
  LeaderElectionID :: string
  LeaderElectionReleaseOnCancel :: bool
  LeaseDuration :: duration
  RenewDeadline :: duration
  RetryPeriod :: duration

definition newManager_options :: "flags \<Rightarrow> metrics_options \<Rightarrow> slice \<Rightarrow> manager_options" where
  "newManager_options fl metricsServerOptions webhookOpts =
     \<lparr>mo_Metrics = metricsServerOptions, webhook_TLSOpts = webhookOpts, HealthProbeBindAddress = probeAddr fl,
      LeaderElection = enableLeaderElection fl, LeaderElectionID = ''8377a775.my.company.com'',
      LeaderElectionReleaseOnCancel = True, LeaseDuration = 10 * Second, RenewDeadline = 7 * Second,
      RetryPeriod = 2 * Second\<rparr>"

section \<open>Steps\<close>

datatype runnable = SecretWatcherRunnable | CertManagerRunnable | MetricsWatcherRunnable

text \<open>\<^verbatim>\<open>filepath.Join\<close> of the paths is left to the library. A controller is known by its name.\<close>

datatype action =
    GetConfig
  | NewClientset
  | NewMetricsCertWatcher string string string
  | CreateManager
  | AddRunnable runnable
  | IndexField string
  | StartWorkerPool go_int
  | SetupController string
  | SetupWebhook
  | AddHealthzCheck string
  | AddReadyzCheck string
  | StartManager

text \<open>
  \<open>outcome\<close> is what the libraries answer to an action after the actions so far; \<open>growth\<close> is the capacity
  \<^verbatim>\<open>append\<close> allocates.
\<close>

record startup_api =
  outcome :: "action list \<Rightarrow> action \<Rightarrow> go_error option"
  growth :: "nat \<Rightarrow> nat \<Rightarrow> nat"

record startup =
  tls_memory :: "tls_option list memory"
  actions :: "action list"
  options :: "manager_options option"

definition startup_init :: startup where
  "startup_init = \<lparr>tls_memory = empty_memory, actions = [], options = None\<rparr>"

text \<open>\<^verbatim>\<open>StartWorkers\<close> has no result that could be an error.\<close>

definition answer :: "startup_api \<Rightarrow> action list \<Rightarrow> action \<Rightarrow> go_error option" where
  "answer A h a = (case a of StartWorkerPool n \<Rightarrow> None | _ \<Rightarrow> outcome A h a)"

definition attempt :: "startup_api \<Rightarrow> action \<Rightarrow> (startup, go_error option) state" where
  "attempt A a = State (\<lambda>s. (answer A (actions s) a, s\<lparr>actions := actions s @ [a]\<rparr>))"

definition append_option :: "startup_api \<Rightarrow> slice \<Rightarrow> tls_option \<Rightarrow> (startup, slice) state" where
  "append_option A s x = State (\<lambda>st. case run_state (go_append (growth A) tls_type s x) (tls_memory st) of
     (s', m) \<Rightarrow> (s', st\<lparr>tls_memory := m\<rparr>))"

text \<open>How a part of \<^verbatim>\<open>main\<close> ends: by \<^verbatim>\<open>os.Exit\<close> with a status, or with a value.\<close>

datatype 'a ending = Exit nat | Continue 'a

fun attempts_all :: "startup_api \<Rightarrow> action list \<Rightarrow> (startup, unit ending) state" where
  "attempts_all A [] = State_Monad.return (Continue ())"
| "attempts_all A (a # as) = do {
     err \<leftarrow> attempt A a;
     (case err of Some _ \<Rightarrow> State_Monad.return (Exit 1) | None \<Rightarrow> attempts_all A as)
   }"

definition and_then where
  "and_then m f = do { r \<leftarrow> m; (case r of Exit n \<Rightarrow> State_Monad.return (Exit n) | Continue x \<Rightarrow> f x) }"

section \<open>The parts of main\<close>

definition setup_tlsOpts :: "startup_api \<Rightarrow> flags \<Rightarrow> (startup, slice) state" where
  "setup_tlsOpts A fl =
     (if \<not> enableHTTP2 fl then append_option A NilSlice DisableHTTP2 else State_Monad.return NilSlice)"

definition setup_webhookTLSOpts :: "startup_api \<Rightarrow> flags \<Rightarrow> slice \<Rightarrow> (startup, slice ending) state" where
  "setup_webhookTLSOpts A fl tlsOpts =
     (if webhookCertSecretName fl \<noteq> ''''
      then and_then (attempts_all A [GetConfig, NewClientset]) (\<lambda>_. do {
        webhookTLSOpts \<leftarrow> append_option A tlsOpts (GetCertificateFrom SecretCertificate);
        State_Monad.return (Continue webhookTLSOpts)
      })
      else State_Monad.return (Continue tlsOpts))"

definition setup_metrics :: "startup_api \<Rightarrow> flags \<Rightarrow> slice \<Rightarrow> (startup, metrics_options ending) state" where
  "setup_metrics A fl tlsOpts =
     (let opts = \<lparr>BindAddress = metricsAddr fl, SecureServing = secureMetrics fl, metrics_TLSOpts = tlsOpts,
                  authenticated = secureMetrics fl\<rparr>
      in if metricsCertPath fl \<noteq> ''''
         then and_then (attempts_all A [NewMetricsCertWatcher (metricsCertPath fl) (metricsCertName fl) (metricsCertKey fl)])
           (\<lambda>_. do {
             o' \<leftarrow> append_option A (metrics_TLSOpts opts) (GetCertificateFrom MetricsCertificate);
             State_Monad.return (Continue (opts\<lparr>metrics_TLSOpts := o'\<rparr>))
           })
         else State_Monad.return (Continue opts))"

definition setup_manager :: "startup_api \<Rightarrow> flags \<Rightarrow> metrics_options \<Rightarrow> slice \<Rightarrow> (startup, unit ending) state" where
  "setup_manager A fl metricsServerOptions webhookOpts = do {
     _ \<leftarrow> State (\<lambda>s. ((), s\<lparr>options := Some (newManager_options fl metricsServerOptions webhookOpts)\<rparr>));
     attempts_all A [GetConfig, CreateManager]
   }"

definition setup_certificates :: "startup_api \<Rightarrow> flags \<Rightarrow> (startup, unit ending) state" where
  "setup_certificates A fl =
     (if webhookCertSecretName fl \<noteq> ''''
      then attempts_all A [AddRunnable SecretWatcherRunnable, GetConfig, NewClientset, AddRunnable CertManagerRunnable]
      else State_Monad.return (Continue ()))"

definition setup_index :: "startup_api \<Rightarrow> (startup, unit ending) state" where
  "setup_index A = attempts_all A [IndexField ''spec.sourceNamespace'']"

definition start_workers :: "startup_api \<Rightarrow> environment \<Rightarrow> (startup, unit ending) state" where
  "start_workers A env = attempts_all A [StartWorkerPool (numWorkers env)]"

text \<open>
  A controller that is not named is called after the kind it is for, in lower case. The resource
  watcher is commented out.
\<close>

definition controllers :: "string list" where
  "controllers = [''policy-cache'', ''kubetemplater.io-kubetemplate'', ''kubetemplatepolicy'', ''namespace'']"

definition setup_controllers :: "startup_api \<Rightarrow> (startup, unit ending) state" where
  "setup_controllers A = attempts_all A (map SetupController controllers @ [SetupWebhook])"

definition setup_checks :: "startup_api \<Rightarrow> flags \<Rightarrow> (startup, unit ending) state" where
  "setup_checks A fl = attempts_all A
     ((if metricsCertPath fl \<noteq> '''' then [AddRunnable MetricsWatcherRunnable] else []) @
      [AddHealthzCheck ''healthz'', AddReadyzCheck ''readyz''] @
      (if webhookCertSecretName fl \<noteq> '''' then [AddReadyzCheck ''certificate-ready''] else []))"

text \<open>\<^verbatim>\<open>main\<close> after the flags are parsed; and from the arguments. Returning from \<^verbatim>\<open>main\<close> is status 0.\<close>

definition main_with :: "startup_api \<Rightarrow> environment \<Rightarrow> flags \<Rightarrow> (startup, unit ending) state" where
  "main_with A env fl = do {
     tlsOpts \<leftarrow> setup_tlsOpts A fl;
     and_then (setup_webhookTLSOpts A fl tlsOpts) (\<lambda>webhookTLSOpts.
     and_then (setup_metrics A fl tlsOpts) (\<lambda>metricsServerOptions.
     and_then (setup_manager A fl metricsServerOptions webhookTLSOpts) (\<lambda>_.
     and_then (setup_certificates A fl) (\<lambda>_.
     and_then (setup_index A) (\<lambda>_.
     and_then (start_workers A env) (\<lambda>_.
     and_then (setup_controllers A) (\<lambda>_.
     and_then (setup_checks A fl) (\<lambda>_.
     attempts_all A [StartManager]))))))))
   }"

definition main_status where
  "main_status A env other args =
     (case parse_flags other default_flags args of
        HelpRequested \<Rightarrow> (0, startup_init)
      | ParseError _ \<Rightarrow> (2, startup_init)
      | Parsed fl _ \<Rightarrow>
          (case run_state (main_with A env fl) startup_init of
             (Exit n, s) \<Rightarrow> (n, s)
           | (Continue _, s) \<Rightarrow> (0, s)))"

end
