(* ===== verification/Startup_Properties.thy ===== *)
theory Startup_Properties
  imports Startup_Main
begin

text \<open>
  What \<^verbatim>\<open>main\<close> does before and when the manager starts: it follows a plan up to the first failure, and the
  two servers keep their own TLS options. The plan is tracked by \<open>performs\<close>, the options by \<open>leaves\<close>, a
  logic for computations that may exit.
\<close>

section \<open>The plan\<close>

text \<open>Everything \<^verbatim>\<open>main\<close> has to do, in order, and doing it until something fails.\<close>

definition plan :: "environment \<Rightarrow> flags \<Rightarrow> action list" where
  "plan env fl =
     (let secret = webhookCertSecretName fl \<noteq> ''''; metricsCert = metricsCertPath fl \<noteq> ''''
      in (if secret then [GetConfig, NewClientset] else []) @
         (if metricsCert then [NewMetricsCertWatcher (metricsCertPath fl) (metricsCertName fl) (metricsCertKey fl)] else []) @
         [GetConfig, CreateManager] @
         (if secret then [AddRunnable SecretWatcherRunnable, GetConfig, NewClientset, AddRunnable CertManagerRunnable] else []) @
         [IndexField ''spec.sourceNamespace'', StartWorkerPool (numWorkers env)] @
         map SetupController controllers @ [SetupWebhook] @
         (if metricsCert then [AddRunnable MetricsWatcherRunnable] else []) @
         [AddHealthzCheck ''healthz'', AddReadyzCheck ''readyz''] @
         (if secret then [AddReadyzCheck ''certificate-ready''] else []) @
         [StartManager])"

fun run_plan :: "startup_api \<Rightarrow> action list \<Rightarrow> action list \<Rightarrow> unit ending \<times> action list" where
  "run_plan A h [] = (Continue (), h)"
| "run_plan A h (a # as) =
     (if answer A h a \<noteq> None then (Exit 1, h @ [a]) else run_plan A (h @ [a]) as)"

text \<open>A part of \<^verbatim>\<open>main\<close> performs a list of actions when it ends, and has done, as the plan says.\<close>

fun erase :: "'a ending \<Rightarrow> unit ending" where
  "erase (Exit n) = Exit n"
| "erase (Continue x) = Continue ()"

definition performs :: "startup_api \<Rightarrow> (startup, 'a ending) state \<Rightarrow> action list \<Rightarrow> bool" where
  "performs A m as \<longleftrightarrow> (\<forall>s. run_plan A (actions s) as =
     (erase (fst (run_state m s)), actions (snd (run_state m s))))"

lemma run_plan_append:
  "run_plan A h (as @ bs) = (case run_plan A h as of (Exit n, h') \<Rightarrow> (Exit n, h') | (Continue _, h') \<Rightarrow> run_plan A h' bs)"
  by (induction as arbitrary: h) auto

lemma run_and_then:
  "run_state (and_then m f) s = (case run_state m s of (Exit n, t) \<Rightarrow> (Exit n, t) | (Continue x, t) \<Rightarrow> run_state (f x) t)"
  by (auto simp: and_then_def split: prod.split ending.split)

lemma performs_and_then:
  "performs A m as \<Longrightarrow> (\<And>x. performs A (f x) bs) \<Longrightarrow> performs A (and_then m f) (as @ bs)"
  unfolding performs_def
proof
  fix s assume "\<forall>s. run_plan A (actions s) as = (erase (fst (run_state m s)), actions (snd (run_state m s)))"
    and "\<And>x. \<forall>s. run_plan A (actions s) bs = (erase (fst (run_state (f x) s)), actions (snd (run_state (f x) s)))"
  then show "run_plan A (actions s) (as @ bs) =
      (erase (fst (run_state (and_then m f) s)), actions (snd (run_state (and_then m f) s)))"
    by (cases "run_state m s"; cases "fst (run_state m s)") (simp_all add: run_plan_append run_and_then)
qed

lemma performs_all: "performs A (attempts_all A as) as"
proof (induction as)
  case (Cons a as)
  have "run_plan A (actions s @ [a]) as = (erase (fst (run_state (attempts_all A as) (s\<lparr>actions := actions s @ [a]\<rparr>))),
      actions (snd (run_state (attempts_all A as) (s\<lparr>actions := actions s @ [a]\<rparr>))))" for s
    using Cons [unfolded performs_def, rule_format, of "s\<lparr>actions := actions s @ [a]\<rparr>"] by simp
  then show ?case by (simp add: performs_def attempt_def split: option.split)
qed (simp add: performs_def)

lemma performs_return: "performs A (State_Monad.return (Continue x)) []"
  by (simp add: performs_def)

lemma performs_bind:
  "(\<And>s. actions (snd (run_state m s)) = actions s) \<Longrightarrow> (\<And>x. performs A (f x) as) \<Longrightarrow> performs A (m \<bind> f) as"
  by (simp add: performs_def split: prod.split) (metis snd_conv)

lemma actions_append: "actions (snd (run_state (append_option A s x) st)) = actions st"
  by (simp add: append_option_def split: prod.split)

declare attempts_all.simps [simp del]

lemma performs_webhookTLS:
  "performs A (setup_webhookTLSOpts A fl tlsOpts) (if webhookCertSecretName fl \<noteq> '''' then [GetConfig, NewClientset] else [])"
  by (auto simp: setup_webhookTLSOpts_def intro!: performs_return performs_bind actions_append
      performs_and_then [OF performs_all, where bs = "[]", simplified])

lemma performs_metrics:
  "performs A (setup_metrics A fl tlsOpts)
     (if metricsCertPath fl \<noteq> '''' then [NewMetricsCertWatcher (metricsCertPath fl) (metricsCertName fl) (metricsCertKey fl)] else [])"
  by (auto simp: setup_metrics_def Let_def intro!: performs_return performs_bind actions_append
      performs_and_then [OF performs_all, where bs = "[]", simplified])

lemma performs_manager: "performs A (setup_manager A fl mo w) [GetConfig, CreateManager]"
  unfolding setup_manager_def by (rule performs_bind) (simp_all add: performs_all)

lemma performs_certificates:
  "performs A (setup_certificates A fl) (if webhookCertSecretName fl \<noteq> ''''
     then [AddRunnable SecretWatcherRunnable, GetConfig, NewClientset, AddRunnable CertManagerRunnable] else [])"
  by (simp add: setup_certificates_def performs_all performs_return del: attempts_all.simps)

lemma performs_main: "performs A (main_with A env fl) (plan env fl)"
proof -
  have "performs A (main_with A env fl)
    ((if webhookCertSecretName fl \<noteq> '''' then [GetConfig, NewClientset] else []) @
     (if metricsCertPath fl \<noteq> '''' then [NewMetricsCertWatcher (metricsCertPath fl) (metricsCertName fl) (metricsCertKey fl)] else []) @
     [GetConfig, CreateManager] @
     (if webhookCertSecretName fl \<noteq> ''''
      then [AddRunnable SecretWatcherRunnable, GetConfig, NewClientset, AddRunnable CertManagerRunnable] else []) @
     [IndexField ''spec.sourceNamespace''] @ [StartWorkerPool (numWorkers env)] @
     (map SetupController controllers @ [SetupWebhook]) @
     ((if metricsCertPath fl \<noteq> '''' then [AddRunnable MetricsWatcherRunnable] else []) @
      [AddHealthzCheck ''healthz'', AddReadyzCheck ''readyz''] @
      (if webhookCertSecretName fl \<noteq> '''' then [AddReadyzCheck ''certificate-ready''] else [])) @ [StartManager])"
    unfolding main_with_def setup_index_def start_workers_def setup_controllers_def setup_checks_def
    by (rule performs_bind)
      (simp add: setup_tlsOpts_def actions_append,
       intro performs_and_then performs_webhookTLS performs_metrics performs_manager performs_certificates performs_all)
  then show ?thesis by (simp add: plan_def Let_def)
qed

text \<open>
  What was done of a plan: all of it, every action successful, or a part whose last action failed and
  whose other actions were successful.
\<close>

definition done_of :: "startup_api \<Rightarrow> action list \<Rightarrow> action list \<Rightarrow> unit ending \<Rightarrow> action list \<Rightarrow> bool" where
  "done_of A h as e h' \<longleftrightarrow>
     (case e of
        Continue _ \<Rightarrow> h' = h @ as \<and> (\<forall>k < length as. answer A (h @ take k as) (as ! k) = None)
      | Exit n \<Rightarrow> n = 1 \<and> (\<exists>j < length as. h' = h @ take (Suc j) as \<and> answer A (h @ take j as) (as ! j) \<noteq> None \<and>
          (\<forall>k < j. answer A (h @ take k as) (as ! k) = None)))"

lemma run_plan_done: "run_plan A h as = (e, h') \<Longrightarrow> done_of A h as e h'"
proof (induction as arbitrary: h)
  case Nil
  then show ?case by (auto simp: done_of_def)
next
  case (Cons a as)
  show ?case
  proof (cases "answer A h a = None")
    case True
    then have rest: "done_of A (h @ [a]) as e h'" using Cons by simp
    show ?thesis
    proof (cases e)
      case (Exit n)
      then obtain j where "n = 1" "j < length as" "h' = h @ a # take (Suc j) as"
        "answer A (h @ a # take j as) (as ! j) \<noteq> None" "\<forall>k < j. answer A (h @ a # take k as) (as ! k) = None"
        using rest by (auto simp: done_of_def)
      moreover from this True have "\<forall>k < Suc j. answer A (h @ take k (a # as)) ((a # as) ! k) = None"
        by (auto simp: less_Suc_eq_0_disj)
      ultimately show ?thesis by (simp add: done_of_def Exit) (intro exI [of _ "Suc j"], simp)
    next
      case (Continue u)
      then show ?thesis using rest True by (auto simp: done_of_def All_less_Suc2)
    qed
  next
    case False
    then show ?thesis using Cons.prems by (auto simp: done_of_def intro!: exI [of _ 0])
  qed
qed

text \<open>
  C14: Starting up stops at the first failure. Once the flags are parsed, \<^verbatim>\<open>main\<close> does what the plan lists, in
  that order: the certificate clients, the manager, the index over the policies' source namespaces, the
  workers, the four controllers, the webhook and the health checks, each only as configured, and last
  of all the start of the manager. The status is 0 only if everything succeeded; otherwise it is 1, the
  last action is the first that failed, and nothing after it was attempted. In particular the manager
  was started only after every registration had succeeded.
\<close>

theorem main_stops_at_first_failure:
  assumes "parse_flags other default_flags args = Parsed fl rest"
    and "main_status A env other args = (status, s)"
  shows "(status = 0 \<and> actions s = plan env fl \<and>
      (\<forall>k < length (plan env fl). answer A (take k (plan env fl)) (plan env fl ! k) = None)) \<or>
    (status = 1 \<and> (\<exists>j < length (plan env fl). actions s = take (Suc j) (plan env fl) \<and>
      answer A (take j (plan env fl)) (plan env fl ! j) \<noteq> None \<and>
      (\<forall>k < j. answer A (take k (plan env fl)) (plan env fl ! k) = None)))"
proof -
  obtain e where run: "run_state (main_with A env fl) startup_init = (e, s)" "status = (case e of Exit n \<Rightarrow> n | Continue _ \<Rightarrow> 0)"
    using assms by (auto simp: main_status_def split: prod.splits ending.splits)
  have "run_plan A [] (plan env fl) = (erase e, actions s)"
    using performs_main [of A env fl] run(1) unfolding performs_def
    by (metis fst_conv snd_conv startup.select_convs(2) startup_init_def)
  from run_plan_done [OF this] show ?thesis
    using run(2) by (cases e) (auto simp: done_of_def)
qed

text \<open>Libraries that always succeed but cannot add the metrics certificate watcher.\<close>

definition ex_startup :: startup_api where
  "ex_startup = \<lparr>outcome = \<lambda>h a. if a = AddRunnable MetricsWatcherRunnable then Some (Errorf ''refused'') else None,
     growth = \<lambda>c n. if c = 0 then n else max n (2 * c)\<rparr>"

theorem main_stops_at_first_failure_witness:
  "fst (main_status ex_startup (\<lambda>_. '''') (\<lambda>_. None) [''--leader-elect'']) = 0 \<and>
   last (actions (snd (main_status ex_startup (\<lambda>_. '''') (\<lambda>_. None) [''--leader-elect'']))) = StartManager \<and>
   fst (main_status ex_startup (\<lambda>_. '''') (\<lambda>_. None) [''--metrics-cert-path=/certs'']) = 1 \<and>
   last (actions (snd (main_status ex_startup (\<lambda>_. '''') (\<lambda>_. None) [''--metrics-cert-path=/certs'']))) =
     AddRunnable MetricsWatcherRunnable"
proof -
  let ?fl = "default_flags\<lparr>enableLeaderElection := True\<rparr>" and ?fl' = "default_flags\<lparr>metricsCertPath := ''/certs''\<rparr>"
  let ?p = "plan (\<lambda>_. '''') ?fl" and ?p' = "plan (\<lambda>_. '''') ?fl'"
  have parse: "parse_flags (\<lambda>_. None) default_flags [''--leader-elect''] = Parsed ?fl []"
      "parse_flags (\<lambda>_. None) default_flags [''--metrics-cert-path=/certs''] = Parsed ?fl' []"
    by (simp_all add: parse_flags.simps(2) split_flag_def lookup_flag_def declared_flags_def ParseBool_def)
  have ans: "answer ex_startup h a \<noteq> None \<longleftrightarrow> a = AddRunnable MetricsWatcherRunnable" for h a
    by (simp add: answer_def ex_startup_def split: action.split)
  have p: "AddRunnable MetricsWatcherRunnable \<notin> set ?p" "last ?p = StartManager" "AddRunnable MetricsWatcherRunnable \<in> set ?p'"
    by (auto simp: plan_def default_flags_def)
  have "last (take (Suc j) xs) = xs ! j" if "j < length xs" for j and xs :: "action list"
    using that by (simp add: take_Suc_conv_app_nth)
  then show ?thesis
    using main_stops_at_first_failure [OF parse(1) prod.collapse [symmetric], of ex_startup "\<lambda>_. ''''"]
      main_stops_at_first_failure [OF parse(2) prod.collapse [symmetric], of ex_startup "\<lambda>_. ''''"]
      p ans unfolding in_set_conv_nth by metis
qed

section \<open>The TLS options of the two servers\<close>

text \<open>
  A server applies its options in order to a configuration of the library when it starts, reading
  them from memory as it is then.
\<close>

definition server_config :: "tls_config \<Rightarrow> tls_option list memory \<Rightarrow> slice \<Rightarrow> tls_config" where
  "server_config c0 m opts = fold apply_tls_option (slice_elems tls_type (cells m) opts) c0"

text \<open>What \<^verbatim>\<open>append\<close> does for a first element: the runtime allocates exactly one pointer-sized element.\<close>

definition growth_ok :: "(nat \<Rightarrow> nat \<Rightarrow> nat) \<Rightarrow> bool" where
  "growth_ok grow \<longleftrightarrow> (\<forall>c n. n \<le> grow c n) \<and> grow 0 1 = 1"

definition base_options :: "flags \<Rightarrow> tls_option list" where
  "base_options fl = (if enableHTTP2 fl then [] else [DisableHTTP2])"

definition webhook_options :: "flags \<Rightarrow> tls_option list" where
  "webhook_options fl = base_options fl @
     (if webhookCertSecretName fl \<noteq> '''' then [GetCertificateFrom SecretCertificate] else [])"

definition metrics_server_options :: "flags \<Rightarrow> tls_option list" where
  "metrics_server_options fl = base_options fl @
     (if metricsCertPath fl \<noteq> '''' then [GetCertificateFrom MetricsCertificate] else [])"

definition holds_options :: "startup \<Rightarrow> slice \<Rightarrow> tls_option list \<Rightarrow> bool" where
  "holds_options s opts xs \<longleftrightarrow> slice_elems tls_type (cells (tls_memory s)) opts = xs \<and> length xs = slice_len opts"

text \<open>The manager was given the right options, if it was given any.\<close>

definition tls_right :: "flags \<Rightarrow> startup \<Rightarrow> bool" where
  "tls_right fl s \<longleftrightarrow> (\<forall>opts. options s = Some opts \<longrightarrow>
     holds_options s (webhook_TLSOpts opts) (webhook_options fl) \<and>
     holds_options s (metrics_TLSOpts (mo_Metrics opts)) (metrics_server_options fl))"

text \<open>
  \<open>leaves E I m R\<close>: from a state satisfying \<open>I\<close>, \<open>m\<close> exits in a state satisfying \<open>E\<close> or goes on with a
  value and a state satisfying \<open>R\<close>.
\<close>

definition leaves ::
  "(startup \<Rightarrow> bool) \<Rightarrow> (startup \<Rightarrow> bool) \<Rightarrow> (startup, 'a ending) state \<Rightarrow> ('a \<Rightarrow> startup \<Rightarrow> bool) \<Rightarrow> bool" where
  "leaves E I m R \<longleftrightarrow> (\<forall>s. I s \<longrightarrow>
     (case run_state m s of (Exit n, t) \<Rightarrow> E t | (Continue x, t) \<Rightarrow> R x t))"

lemma leaves_and_then:
  assumes "leaves E I m R" and "\<And>x. leaves E (R x) (f x) R'"
  shows "leaves E I (and_then m f) R'"
  unfolding leaves_def
proof (intro allI impI)
  fix s assume "I s"
  then show "case run_state (and_then m f) s of (Exit n, t) \<Rightarrow> E t | (Continue x, t) \<Rightarrow> R' x t"
    using assms unfolding leaves_def
    by (cases "run_state m s"; cases "fst (run_state m s)") (fastforce simp: run_and_then)+
qed

lemma leaves_all:
  assumes "\<And>s h. I s \<Longrightarrow> I (s\<lparr>actions := h\<rparr>)" and "\<And>s. I s \<Longrightarrow> E s"
  shows "leaves E I (attempts_all A as) (\<lambda>_. I)"
proof (induction as)
  case (Cons a as)
  have "case run_state (attempts_all A (a # as)) s of (Exit n, t) \<Rightarrow> E t | (Continue x, t) \<Rightarrow> I t" if "I s" for s
    using Cons [unfolded leaves_def, rule_format, of "s\<lparr>actions := actions s @ [a]\<rparr>"] assms(1) [OF that] assms(2)
    by (auto simp: attempts_all.simps attempt_def split: option.split)
  then show ?case by (simp add: leaves_def)
qed (simp add: leaves_def attempts_all.simps)

lemma tls_type_ok: "elem_type_ok tls_type"
  by (simp add: elem_type_ok_def tls_type_def)

text \<open>Appending to a slice without spare capacity, and what it leaves of other slices.\<close>

lemma append_option_full:
  assumes grow: "growth_ok (growth A)" and m: "mem_ok (tls_memory st)"
    and s: "holds_options st s xs" "slice_cap s = slice_len s"
    and run: "run_state (append_option A s x) st = (s', st')"
  shows "mem_ok (tls_memory st')" "holds_options st' s' (xs @ [x])" "options st' = options st"
    and "\<And>q ys. holds_options st q ys \<Longrightarrow> holds_options st' q ys"
    and "s = NilSlice \<Longrightarrow> slice_cap s' = slice_len s'"
proof -
  obtain m' where g: "run_state (go_append (growth A) tls_type s x) (tls_memory st) = (s', m')" "st' = st\<lparr>tls_memory := m'\<rparr>"
    using run by (auto simp: append_option_def split: prod.splits)
  have n: "\<And>c n. n \<le> growth A c n" "growth A 0 (Suc 0) = Suc 0" using grow by (simp_all add: growth_ok_def)
  have len: "length (slice_elems tls_type (cells (tls_memory st)) s) = slice_len s" using s(1) by (simp add: holds_options_def)
  note a = append_full [OF tls_type_ok m s(2) [symmetric] len n(1) g(1)]
  show "mem_ok (tls_memory st')" "holds_options st' s' (xs @ [x])" "options st' = options st"
    using a s(1) by (simp_all add: g(2) holds_options_def)
  show "holds_options st' q ys" if "holds_options st q ys" for q ys
    using that slice_elems_extends [OF a(2) m, of tls_type q] by (simp add: g(2) holds_options_def)
  show "slice_cap s' = slice_len s'" if "s = NilSlice" using a s(1) that n(2) by (simp add: holds_options_def)
qed

text \<open>The slices while \<^verbatim>\<open>main\<close> prepares the manager.\<close>

definition tls_ready :: "flags \<Rightarrow> slice \<Rightarrow> startup \<Rightarrow> bool" where
  "tls_ready fl tlsOpts s \<longleftrightarrow> options s = None \<and> mem_ok (tls_memory s) \<and> slice_cap tlsOpts = slice_len tlsOpts \<and>
     holds_options s tlsOpts (base_options fl)"

lemma after_tlsOpts:
  assumes "growth_ok (growth A)" and "run_state (setup_tlsOpts A fl) startup_init = (tlsOpts, s)"
  shows "tls_ready fl tlsOpts s"
proof -
  have init: "mem_ok (tls_memory startup_init)" "holds_options startup_init NilSlice []" "options startup_init = None"
    by (simp_all add: startup_init_def empty_memory_def mem_ok_def holds_options_def)
  show ?thesis
  proof (cases "enableHTTP2 fl")
    case False
    then have "run_state (append_option A NilSlice DisableHTTP2) startup_init = (tlsOpts, s)"
      using assms(2) by (simp add: setup_tlsOpts_def)
    from append_option_full [OF assms(1) init(1,2) _ this] show ?thesis
      using False init(3) by (simp add: tls_ready_def base_options_def)
  qed (use assms(2) init in \<open>auto simp: setup_tlsOpts_def tls_ready_def base_options_def\<close>)
qed

lemma tls_ready_right: "tls_ready fl o' s \<Longrightarrow> tls_right fl s"
  by (simp add: tls_ready_def tls_right_def)

lemma ignores_actions [simp]:
  "holds_options (s\<lparr>actions := h\<rparr>) q xs = holds_options s q xs" "tls_ready fl o' (s\<lparr>actions := h\<rparr>) = tls_ready fl o' s"
  "tls_right fl (s\<lparr>actions := h\<rparr>) = tls_right fl s"
  by (simp_all add: holds_options_def tls_ready_def tls_right_def)

lemma leaves_append:
  assumes "growth_ok (growth A)" and "\<And>s. I s \<Longrightarrow> tls_ready fl tlsOpts s \<and> holds_options s w ys"
  shows "leaves (tls_right fl) I (do { q \<leftarrow> append_option A tlsOpts x; State_Monad.return (Continue (g q)) })
    (\<lambda>r s. \<exists>q. r = g q \<and> tls_ready fl tlsOpts s \<and> holds_options s w ys \<and> holds_options s q (base_options fl @ [x]))"
  unfolding leaves_def
proof (intro allI impI)
  fix s assume "I s"
  then have s: "tls_ready fl tlsOpts s" "holds_options s w ys" using assms(2) by blast+
  obtain q t where run: "run_state (append_option A tlsOpts x) s = (q, t)" by fastforce
  have "mem_ok (tls_memory s)" "holds_options s tlsOpts (base_options fl)" "slice_cap tlsOpts = slice_len tlsOpts"
    "options s = None" using s(1) by (simp_all add: tls_ready_def)
  moreover note f = append_option_full [OF assms(1) this(1-3) run]
  ultimately have "tls_ready fl tlsOpts t \<and> holds_options t w ys \<and> holds_options t q (base_options fl @ [x])"
    using f(1-3) f(4) [OF s(2)] f(4) [of tlsOpts "base_options fl"] by (simp add: tls_ready_def)
  then show "case run_state (do { q \<leftarrow> append_option A tlsOpts x; State_Monad.return (Continue (g q)) }) s of
      (Exit n, t) \<Rightarrow> tls_right fl t
    | (Continue r, t) \<Rightarrow> \<exists>q. r = g q \<and> tls_ready fl tlsOpts t \<and> holds_options t w ys \<and> holds_options t q (base_options fl @ [x])"
    using run by auto
qed

lemma leaves_weaken: "leaves E I m R \<Longrightarrow> (\<And>x s. R x s \<Longrightarrow> R' x s) \<Longrightarrow> leaves E I m R'"
  unfolding leaves_def by (fastforce split: prod.splits ending.splits)

lemma leaves_return: "(\<And>s. I s \<Longrightarrow> R x s) \<Longrightarrow> leaves E I (State_Monad.return (Continue x)) R"
  by (simp add: leaves_def)

lemma leaves_webhookTLS:
  assumes "growth_ok (growth A)"
  shows "leaves (tls_right fl) (tls_ready fl tlsOpts) (setup_webhookTLSOpts A fl tlsOpts)
    (\<lambda>w s. tls_ready fl tlsOpts s \<and> holds_options s w (webhook_options fl))"
proof (cases "webhookCertSecretName fl = ''''")
  case False
  have "leaves (tls_right fl) (tls_ready fl tlsOpts)
      (do { q \<leftarrow> append_option A tlsOpts (GetCertificateFrom SecretCertificate); State_Monad.return (Continue q) })
      (\<lambda>w s. tls_ready fl tlsOpts s \<and> holds_options s w (webhook_options fl))"
    using False by (rule_tac leaves_weaken [OF leaves_append [OF assms, where w = tlsOpts and ys = "base_options fl"]])
      (auto simp: tls_ready_def webhook_options_def)
  then show ?thesis
    using False unfolding setup_webhookTLSOpts_def
    by (simp add: leaves_and_then [OF leaves_all] tls_ready_right)
qed (auto simp: setup_webhookTLSOpts_def webhook_options_def tls_ready_def intro!: leaves_return)

lemma leaves_metrics:
  assumes "growth_ok (growth A)"
  shows "leaves (tls_right fl) (\<lambda>s. tls_ready fl tlsOpts s \<and> holds_options s w ys) (setup_metrics A fl tlsOpts)
    (\<lambda>mo s. holds_options s w ys \<and> holds_options s (metrics_TLSOpts mo) (metrics_server_options fl) \<and> options s = None)"
proof (cases "metricsCertPath fl = ''''")
  case False
  let ?opts = "\<lambda>q. \<lparr>BindAddress = metricsAddr fl, SecureServing = secureMetrics fl, metrics_TLSOpts = q,
    authenticated = secureMetrics fl\<rparr>"
  have "leaves (tls_right fl) (\<lambda>s. tls_ready fl tlsOpts s \<and> holds_options s w ys)
      (do { q \<leftarrow> append_option A tlsOpts (GetCertificateFrom MetricsCertificate); State_Monad.return (Continue (?opts q)) })
      (\<lambda>mo s. holds_options s w ys \<and> holds_options s (metrics_TLSOpts mo) (metrics_server_options fl) \<and> options s = None)"
    using False by (rule_tac leaves_weaken [OF leaves_append [OF assms, where w = w and ys = ys]])
      (auto simp: tls_ready_def metrics_server_options_def)
  then have "leaves (tls_right fl) (\<lambda>s. tls_ready fl tlsOpts s \<and> holds_options s w ys)
      (and_then (attempts_all A as) (\<lambda>_. do { q \<leftarrow> append_option A tlsOpts (GetCertificateFrom MetricsCertificate);
         State_Monad.return (Continue (?opts q)) }))
      (\<lambda>mo s. holds_options s w ys \<and> holds_options s (metrics_TLSOpts mo) (metrics_server_options fl) \<and> options s = None)" for as
    by (intro leaves_and_then [OF leaves_all]) (auto intro: tls_ready_right)
  then show ?thesis using False by (simp add: setup_metrics_def Let_def)
qed (auto simp: setup_metrics_def Let_def metrics_server_options_def tls_ready_def intro!: leaves_return)

lemma leaves_manager:
  "leaves (tls_right fl)
     (\<lambda>s. holds_options s w (webhook_options fl) \<and> holds_options s (metrics_TLSOpts mo) (metrics_server_options fl) \<and> options s = None)
     (setup_manager A fl mo w) (\<lambda>_. tls_right fl)"
proof -
  have "leaves (tls_right fl) (tls_right fl) (attempts_all A [GetConfig, CreateManager]) (\<lambda>_. tls_right fl)"
    by (rule leaves_all) simp_all
  then show ?thesis
    by (simp add: leaves_def setup_manager_def tls_right_def [of fl "_\<lparr>options := _\<rparr>"] newManager_options_def holds_options_def)
qed

lemma main_tls_right:
  assumes "growth_ok (growth A)" and "run_state (main_with A env fl) startup_init = (e, s)"
  shows "tls_right fl s"
proof -
  obtain tlsOpts t where t: "run_state (setup_tlsOpts A fl) startup_init = (tlsOpts, t)" by fastforce
  let ?rest = "and_then (setup_webhookTLSOpts A fl tlsOpts) (\<lambda>webhookTLSOpts.
     and_then (setup_metrics A fl tlsOpts) (\<lambda>metricsServerOptions.
     and_then (setup_manager A fl metricsServerOptions webhookTLSOpts) (\<lambda>_.
     and_then (setup_certificates A fl) (\<lambda>_.
     and_then (setup_index A) (\<lambda>_.
     and_then (start_workers A env) (\<lambda>_.
     and_then (setup_controllers A) (\<lambda>_.
     and_then (setup_checks A fl) (\<lambda>_.
     attempts_all A [StartManager]))))))))"
  have "leaves (tls_right fl) (tls_right fl) (attempts_all A as) (\<lambda>_. tls_right fl)" for as
    by (rule leaves_all) simp_all
  then have "leaves (tls_right fl) (tls_ready fl tlsOpts) ?rest (\<lambda>_. tls_right fl)"
    unfolding setup_certificates_def setup_index_def start_workers_def setup_controllers_def setup_checks_def
    by (intro leaves_and_then [OF leaves_webhookTLS [OF assms(1)]] leaves_and_then [OF leaves_metrics [OF assms(1)]]
        leaves_and_then [OF leaves_manager] leaves_and_then [where R = "\<lambda>_. tls_right fl"])
      (simp_all add: leaves_return)
  moreover have "run_state ?rest t = (e, s)" using assms(2) t by (simp add: main_with_def)
  ultimately show ?thesis
    using after_tlsOpts [OF assms(1) t] by (cases e) (fastforce simp: leaves_def)+
qed


definition ex_tls_flags :: flags where
  "ex_tls_flags = default_flags\<lparr>webhookCertSecretName := ''tls'', metricsCertPath := ''/certs''\<rparr>"

lemmas main_eval = main_with_def setup_tlsOpts_def setup_webhookTLSOpts_def setup_metrics_def setup_manager_def
  setup_certificates_def setup_index_def start_workers_def setup_controllers_def setup_checks_def
  and_then_def attempts_all.simps attempt_def append_option_def go_append_def new_cell_def assign_def array_at_def
  answer_def startup_init_def empty_memory_def tls_type_def newManager_options_def


text \<open>
  With spare capacity after the first append the two servers would share the place of the second
  option: the webhook server would serve the metrics certificate.
\<close>

lemma shared_capacity_mixes_certificates:
  "\<exists>s opts. snd (run_state (main_with (ex_startup\<lparr>growth := \<lambda>c n. 2 * n\<rparr>) (\<lambda>_. '''') ex_tls_flags) startup_init) = s \<and>
     options s = Some opts \<and>
     tls_GetCertificate (server_config c0 (tls_memory s) (webhook_TLSOpts opts)) = Some MetricsCertificate"
  by (simp add: main_eval ex_startup_def ex_tls_flags_def default_flags_def controllers_def server_config_def)

text \<open>The flags for a webhook certificate in files are parsed and then not used.\<close>

lemma webhook_cert_files_ignored:
  "main_with A env (fl\<lparr>webhookCertPath := path, webhookCertName := name, webhookCertKey := key\<rparr>) = main_with A env fl"
  by (simp add: main_with_def setup_tlsOpts_def setup_webhookTLSOpts_def setup_metrics_def setup_manager_def
      setup_certificates_def setup_checks_def newManager_options_def)

end
