(* ===== verification/Deep_Copy.thy ===== *)
theory Deep_Copy
  imports Go_Memory Api_Types
begin

text \<open>
  The generated methods of \<^verbatim>\<open>api/kubetemplater.io/v1alpha1/zz_generated.deepcopy.go\<close>, over the structs as they
  are in memory: pointers and slices are references into cells. The rest of the development works
  with the values these structs stand for (\<open>Api_Types\<close>); that a client can change what it got without
  changing anyone else's object rests on these methods, since the caches of client-go hand out deep
  copies. \<^verbatim>\<open>DeepCopyInto\<close> gives the struct it leaves in \<^verbatim>\<open>*out\<close>.
\<close>

section \<open>Structs in memory\<close>

record TypeMeta =
  tm_Kind :: string
  tm_APIVersion :: string

record FieldValidation_mem =
  mfv_Name :: string
  mfv_FieldPath :: string
  mfv_Type :: FieldValidationType
  mfv_CEL :: string
  mfv_Regex :: string
  mfv_Min :: pointer
  mfv_Max :: pointer
  mfv_Required :: bool
  mfv_Message :: string

record ValidationRule_mem =
  mrule_Kind :: string
  mrule_Group :: string
  mrule_Version :: string
  mrule_Rule :: string
  mrule_FieldValidations :: slice
  mrule_TargetNamespaces :: slice

record KubeTemplatePolicySpec_mem =
  mpol_SourceNamespace :: string
  mpol_ValidationRules :: slice

text \<open>\<open>'h\<close> stands for the structs and pointers of apimachinery: metadata, raw extensions, times.\<close>

record 'h KubeTemplatePolicyStatus_mem =
  mps_Active :: bool
  mps_TemplatesUsing :: go_int
  mps_LastValidationTime :: "'h option"
  mps_ValidationSuccesses :: go_int
  mps_ValidationFailures :: go_int

record 'h KubeTemplatePolicy_mem =
  mpol_TypeMeta :: TypeMeta
  mpol_ObjectMeta :: 'h
  mpol_Spec :: KubeTemplatePolicySpec_mem
  mpol_Status :: "'h KubeTemplatePolicyStatus_mem"

record 'h Template_mem =
  mtpl_Object :: 'h
  mtpl_Replace :: bool
  mtpl_Referenced :: bool

record KubeTemplateSpec_mem =
  mspec_Templates :: slice

record 'h KubeTemplateStatus_mem =
  mst_Status :: string
  mst_ProcessingPhase :: string
  mst_QueuedAt :: "'h option"
  mst_ProcessedAt :: "'h option"
  mst_RetryCount :: go_int
  mst_RetryCycle :: go_int
  mst_LastReconcileTime :: "'h option"
  mst_ResourcesTotal :: go_int
  mst_ResourcesSynced :: go_int
  mst_LastDriftDetected :: "'h option"
  mst_DriftDetectionCount :: go_int
  mst_DryRunChecks :: go_int
  mst_AppliedSpecHash :: string
  mst_PausedReason :: string
  mst_PausedAt :: "'h option"

record 'h KubeTemplate_mem =
  mkt_TypeMeta :: TypeMeta
  mkt_ObjectMeta :: 'h
  mkt_Spec :: KubeTemplateSpec_mem
  mkt_Status :: "'h KubeTemplateStatus_mem"

text \<open>\<^verbatim>\<open>KubeTemplateList\<close> and \<^verbatim>\<open>KubeTemplatePolicyList\<close>\<close>

record 'h KubeTemplateList =
  ktl_TypeMeta :: TypeMeta
  ktl_ListMeta :: 'h
  ktl_Items :: slice

record 'h KubeTemplatePolicyList =
  kpl_TypeMeta :: TypeMeta
  kpl_ListMeta :: 'h
  kpl_Items :: slice

datatype ('h, 'x) cell =
    Int64s "int list"
  | Strings "string list"
  | FieldValidations "FieldValidation_mem list"
  | ValidationRules "ValidationRule_mem list"
  | PolicySpecs "KubeTemplatePolicySpec_mem list"
  | PolicyStatuses "'h KubeTemplatePolicyStatus_mem list"
  | Policies "'h KubeTemplatePolicy_mem list"
  | PolicyLists "'h KubeTemplatePolicyList list"
  | Templates "'h Template_mem list"
  | TemplateSpecs "KubeTemplateSpec_mem list"
  | TemplateStatuses "'h KubeTemplateStatus_mem list"
  | KubeTemplates "'h KubeTemplate_mem list"
  | KubeTemplateLists "'h KubeTemplateList list"
  | LibraryCell 'x

section \<open>Copies made by apimachinery\<close>

text \<open>
  The methods of other packages the generated code calls. What an object of apimachinery stands
  for includes parts the operator never reads (\<open>'v\<close>).
\<close>

record ('h, 'x, 'v) apimachinery =
  lib_zero :: 'h
  meta_ok :: "('h, 'x) cell heap \<Rightarrow> 'h \<Rightarrow> bool"
  meta_foot :: "('h, 'x) cell heap \<Rightarrow> 'h \<Rightarrow> addr set"
  meta_val :: "('h, 'x) cell heap \<Rightarrow> 'h \<Rightarrow> ObjectMeta \<times> 'v"
  ObjectMeta_DeepCopyInto :: "'h \<Rightarrow> (('h, 'x) cell memory, 'h) state"
  listmeta_ok :: "('h, 'x) cell heap \<Rightarrow> 'h \<Rightarrow> bool"
  listmeta_foot :: "('h, 'x) cell heap \<Rightarrow> 'h \<Rightarrow> addr set"
  listmeta_val :: "('h, 'x) cell heap \<Rightarrow> 'h \<Rightarrow> 'v"
  ListMeta_DeepCopyInto :: "'h \<Rightarrow> (('h, 'x) cell memory, 'h) state"
  raw_ok :: "('h, 'x) cell heap \<Rightarrow> 'h \<Rightarrow> bool"
  raw_foot :: "('h, 'x) cell heap \<Rightarrow> 'h \<Rightarrow> addr set"
  raw_val :: "('h, 'x) cell heap \<Rightarrow> 'h \<Rightarrow> string \<times> 'v"
  RawExtension_DeepCopyInto :: "'h \<Rightarrow> (('h, 'x) cell memory, 'h) state"
  time_ok :: "('h, 'x) cell heap \<Rightarrow> 'h \<Rightarrow> bool"
  time_foot :: "('h, 'x) cell heap \<Rightarrow> 'h \<Rightarrow> addr set"
  time_val :: "('h, 'x) cell heap \<Rightarrow> 'h \<Rightarrow> time"
  Time_DeepCopy :: "'h \<Rightarrow> (('h, 'x) cell memory, 'h) state"

text \<open>They are documented to be deep copies.\<close>

definition library_ok :: "('h, 'x, 'v) apimachinery \<Rightarrow> bool" where
  "library_ok L \<longleftrightarrow>
     deep_copy (meta_ok L) (meta_foot L) (meta_val L) (ObjectMeta_DeepCopyInto L) \<and>
     deep_copy (listmeta_ok L) (listmeta_foot L) (listmeta_val L) (ListMeta_DeepCopyInto L) \<and>
     deep_copy (raw_ok L) (raw_foot L) (raw_val L) (RawExtension_DeepCopyInto L) \<and>
     deep_copy (time_ok L) (time_foot L) (time_val L) (Time_DeepCopy L)"

section \<open>Element types and zero values\<close>

definition int64_type :: "(int, ('h, 'x) cell) elem_type" where
  "int64_type = \<lparr>et_zero = 0, et_wrap = Int64s, et_unwrap = \<lambda>c. case c of Int64s xs \<Rightarrow> Some xs | _ \<Rightarrow> None\<rparr>"

definition string_type :: "(string, ('h, 'x) cell) elem_type" where
  "string_type = \<lparr>et_zero = '''', et_wrap = Strings, et_unwrap = \<lambda>c. case c of Strings xs \<Rightarrow> Some xs | _ \<Rightarrow> None\<rparr>"

definition FieldValidation_type :: "(FieldValidation_mem, ('h, 'x) cell) elem_type" where
  "FieldValidation_type =
     \<lparr>et_zero = \<lparr>mfv_Name = '''', mfv_FieldPath = '''', mfv_Type = FieldValidationTypeOther '''', mfv_CEL = '''',
        mfv_Regex = '''', mfv_Min = None, mfv_Max = None, mfv_Required = False, mfv_Message = ''''\<rparr>,
      et_wrap = FieldValidations, et_unwrap = \<lambda>c. case c of FieldValidations xs \<Rightarrow> Some xs | _ \<Rightarrow> None\<rparr>"

definition ValidationRule_type :: "(ValidationRule_mem, ('h, 'x) cell) elem_type" where
  "ValidationRule_type =
     \<lparr>et_zero = \<lparr>mrule_Kind = '''', mrule_Group = '''', mrule_Version = '''', mrule_Rule = '''',
        mrule_FieldValidations = NilSlice, mrule_TargetNamespaces = NilSlice\<rparr>,
      et_wrap = ValidationRules, et_unwrap = \<lambda>c. case c of ValidationRules xs \<Rightarrow> Some xs | _ \<Rightarrow> None\<rparr>"

definition zero_PolicySpec :: KubeTemplatePolicySpec_mem where
  "zero_PolicySpec = \<lparr>mpol_SourceNamespace = '''', mpol_ValidationRules = NilSlice\<rparr>"

definition zero_PolicyStatus :: "'h KubeTemplatePolicyStatus_mem" where
  "zero_PolicyStatus = \<lparr>mps_Active = False, mps_TemplatesUsing = 0, mps_LastValidationTime = None,
     mps_ValidationSuccesses = 0, mps_ValidationFailures = 0\<rparr>"

definition zero_TypeMeta :: TypeMeta where
  "zero_TypeMeta = \<lparr>tm_Kind = '''', tm_APIVersion = ''''\<rparr>"

definition PolicySpec_type :: "(KubeTemplatePolicySpec_mem, ('h, 'x) cell) elem_type" where
  "PolicySpec_type = \<lparr>et_zero = zero_PolicySpec, et_wrap = PolicySpecs,
     et_unwrap = \<lambda>c. case c of PolicySpecs xs \<Rightarrow> Some xs | _ \<Rightarrow> None\<rparr>"

definition PolicyStatus_type :: "('h KubeTemplatePolicyStatus_mem, ('h, 'x) cell) elem_type" where
  "PolicyStatus_type = \<lparr>et_zero = zero_PolicyStatus, et_wrap = PolicyStatuses,
     et_unwrap = \<lambda>c. case c of PolicyStatuses xs \<Rightarrow> Some xs | _ \<Rightarrow> None\<rparr>"

definition Policy_type :: "('h, 'x, 'v) apimachinery \<Rightarrow> ('h KubeTemplatePolicy_mem, ('h, 'x) cell) elem_type" where
  "Policy_type L =
     \<lparr>et_zero = \<lparr>mpol_TypeMeta = zero_TypeMeta, mpol_ObjectMeta = lib_zero L, mpol_Spec = zero_PolicySpec,
        mpol_Status = zero_PolicyStatus\<rparr>,
      et_wrap = Policies, et_unwrap = \<lambda>c. case c of Policies xs \<Rightarrow> Some xs | _ \<Rightarrow> None\<rparr>"

definition PolicyList_type :: "('h, 'x, 'v) apimachinery \<Rightarrow> ('h KubeTemplatePolicyList, ('h, 'x) cell) elem_type" where
  "PolicyList_type L =
     \<lparr>et_zero = \<lparr>kpl_TypeMeta = zero_TypeMeta, kpl_ListMeta = lib_zero L, kpl_Items = NilSlice\<rparr>,
      et_wrap = PolicyLists, et_unwrap = \<lambda>c. case c of PolicyLists xs \<Rightarrow> Some xs | _ \<Rightarrow> None\<rparr>"

definition Template_type :: "('h, 'x, 'v) apimachinery \<Rightarrow> ('h Template_mem, ('h, 'x) cell) elem_type" where
  "Template_type L =
     \<lparr>et_zero = \<lparr>mtpl_Object = lib_zero L, mtpl_Replace = False, mtpl_Referenced = False\<rparr>,
      et_wrap = Templates, et_unwrap = \<lambda>c. case c of Templates xs \<Rightarrow> Some xs | _ \<Rightarrow> None\<rparr>"

definition zero_TemplateStatus :: "'h KubeTemplateStatus_mem" where
  "zero_TemplateStatus = \<lparr>mst_Status = '''', mst_ProcessingPhase = '''', mst_QueuedAt = None, mst_ProcessedAt = None,
     mst_RetryCount = 0, mst_RetryCycle = 0, mst_LastReconcileTime = None, mst_ResourcesTotal = 0,
     mst_ResourcesSynced = 0, mst_LastDriftDetected = None, mst_DriftDetectionCount = 0, mst_DryRunChecks = 0,
     mst_AppliedSpecHash = '''', mst_PausedReason = '''', mst_PausedAt = None\<rparr>"

definition TemplateSpec_type :: "(KubeTemplateSpec_mem, ('h, 'x) cell) elem_type" where
  "TemplateSpec_type = \<lparr>et_zero = \<lparr>mspec_Templates = NilSlice\<rparr>, et_wrap = TemplateSpecs,
     et_unwrap = \<lambda>c. case c of TemplateSpecs xs \<Rightarrow> Some xs | _ \<Rightarrow> None\<rparr>"

definition TemplateStatus_type :: "('h KubeTemplateStatus_mem, ('h, 'x) cell) elem_type" where
  "TemplateStatus_type = \<lparr>et_zero = zero_TemplateStatus, et_wrap = TemplateStatuses,
     et_unwrap = \<lambda>c. case c of TemplateStatuses xs \<Rightarrow> Some xs | _ \<Rightarrow> None\<rparr>"

definition KubeTemplate_type :: "('h, 'x, 'v) apimachinery \<Rightarrow> ('h KubeTemplate_mem, ('h, 'x) cell) elem_type" where
  "KubeTemplate_type L =
     \<lparr>et_zero = \<lparr>mkt_TypeMeta = zero_TypeMeta, mkt_ObjectMeta = lib_zero L, mkt_Spec = \<lparr>mspec_Templates = NilSlice\<rparr>,
        mkt_Status = zero_TemplateStatus\<rparr>,
      et_wrap = KubeTemplates, et_unwrap = \<lambda>c. case c of KubeTemplates xs \<Rightarrow> Some xs | _ \<Rightarrow> None\<rparr>"

definition KubeTemplateList_type :: "('h, 'x, 'v) apimachinery \<Rightarrow> ('h KubeTemplateList, ('h, 'x) cell) elem_type" where
  "KubeTemplateList_type L =
     \<lparr>et_zero = \<lparr>ktl_TypeMeta = zero_TypeMeta, ktl_ListMeta = lib_zero L, ktl_Items = NilSlice\<rparr>,
      et_wrap = KubeTemplateLists, et_unwrap = \<lambda>c. case c of KubeTemplateLists xs \<Rightarrow> Some xs | _ \<Rightarrow> None\<rparr>"

lemmas elem_type_defs = int64_type_def string_type_def FieldValidation_type_def ValidationRule_type_def
  PolicySpec_type_def PolicyStatus_type_def Policy_type_def PolicyList_type_def Template_type_def
  TemplateSpec_type_def TemplateStatus_type_def KubeTemplate_type_def KubeTemplateList_type_def

lemma elem_types_ok [simp]:
  "elem_type_ok int64_type" "elem_type_ok string_type" "elem_type_ok FieldValidation_type"
  "elem_type_ok ValidationRule_type" "elem_type_ok PolicySpec_type" "elem_type_ok PolicyStatus_type"
  "elem_type_ok (Policy_type L)" "elem_type_ok (PolicyList_type L)" "elem_type_ok (Template_type L)"
  "elem_type_ok TemplateSpec_type" "elem_type_ok TemplateStatus_type" "elem_type_ok (KubeTemplate_type L)"
  "elem_type_ok (KubeTemplateList_type L)"
  by (simp_all add: elem_type_ok_def elem_type_defs)

section \<open>The methods\<close>

definition FieldValidation_DeepCopyInto where
  "FieldValidation_DeepCopyInto fv = do {
     min \<leftarrow> copy_pointer int64_type State_Monad.return (mfv_Min fv);
     max \<leftarrow> copy_pointer int64_type State_Monad.return (mfv_Max fv);
     State_Monad.return (fv\<lparr>mfv_Min := min, mfv_Max := max\<rparr>)
   }"

definition FieldValidation_DeepCopy where
  "FieldValidation_DeepCopy p = copy_pointer FieldValidation_type FieldValidation_DeepCopyInto p"

definition ValidationRule_DeepCopyInto where
  "ValidationRule_DeepCopyInto rule = do {
     fields \<leftarrow> copy_slice FieldValidation_type FieldValidation_DeepCopyInto (mrule_FieldValidations rule);
     namespaces \<leftarrow> copy_slice string_type State_Monad.return (mrule_TargetNamespaces rule);
     State_Monad.return (rule\<lparr>mrule_FieldValidations := fields, mrule_TargetNamespaces := namespaces\<rparr>)
   }"

definition ValidationRule_DeepCopy where
  "ValidationRule_DeepCopy p = copy_pointer ValidationRule_type ValidationRule_DeepCopyInto p"

definition KubeTemplatePolicySpec_DeepCopyInto where
  "KubeTemplatePolicySpec_DeepCopyInto spec = do {
     rules \<leftarrow> copy_slice ValidationRule_type ValidationRule_DeepCopyInto (mpol_ValidationRules spec);
     State_Monad.return (spec\<lparr>mpol_ValidationRules := rules\<rparr>)
   }"

definition KubeTemplatePolicySpec_DeepCopy where
  "KubeTemplatePolicySpec_DeepCopy p = copy_pointer PolicySpec_type KubeTemplatePolicySpec_DeepCopyInto p"

definition KubeTemplatePolicyStatus_DeepCopyInto where
  "KubeTemplatePolicyStatus_DeepCopyInto L st = do {
     t \<leftarrow> copy_nillable (Time_DeepCopy L) (mps_LastValidationTime st);
     State_Monad.return (st\<lparr>mps_LastValidationTime := t\<rparr>)
   }"

definition KubeTemplatePolicyStatus_DeepCopy where
  "KubeTemplatePolicyStatus_DeepCopy L p = copy_pointer PolicyStatus_type (KubeTemplatePolicyStatus_DeepCopyInto L) p"

definition KubeTemplatePolicy_DeepCopyInto where
  "KubeTemplatePolicy_DeepCopyInto L pol = do {
     meta \<leftarrow> ObjectMeta_DeepCopyInto L (mpol_ObjectMeta pol);
     spec \<leftarrow> KubeTemplatePolicySpec_DeepCopyInto (mpol_Spec pol);
     st \<leftarrow> KubeTemplatePolicyStatus_DeepCopyInto L (mpol_Status pol);
     State_Monad.return (pol\<lparr>mpol_ObjectMeta := meta, mpol_Spec := spec, mpol_Status := st\<rparr>)
   }"

definition KubeTemplatePolicy_DeepCopy where
  "KubeTemplatePolicy_DeepCopy L p = copy_pointer (Policy_type L) (KubeTemplatePolicy_DeepCopyInto L) p"

definition KubeTemplatePolicyList_DeepCopyInto where
  "KubeTemplatePolicyList_DeepCopyInto L l = do {
     meta \<leftarrow> ListMeta_DeepCopyInto L (kpl_ListMeta l);
     items \<leftarrow> copy_slice (Policy_type L) (KubeTemplatePolicy_DeepCopyInto L) (kpl_Items l);
     State_Monad.return (l\<lparr>kpl_ListMeta := meta, kpl_Items := items\<rparr>)
   }"

definition KubeTemplatePolicyList_DeepCopy where
  "KubeTemplatePolicyList_DeepCopy L p = copy_pointer (PolicyList_type L) (KubeTemplatePolicyList_DeepCopyInto L) p"

definition Template_DeepCopyInto where
  "Template_DeepCopyInto L t = do {
     obj \<leftarrow> RawExtension_DeepCopyInto L (mtpl_Object t);
     State_Monad.return (t\<lparr>mtpl_Object := obj\<rparr>)
   }"

definition Template_DeepCopy where
  "Template_DeepCopy L p = copy_pointer (Template_type L) (Template_DeepCopyInto L) p"

definition KubeTemplateSpec_DeepCopyInto where
  "KubeTemplateSpec_DeepCopyInto L spec = do {
     templates \<leftarrow> copy_slice (Template_type L) (Template_DeepCopyInto L) (mspec_Templates spec);
     State_Monad.return (spec\<lparr>mspec_Templates := templates\<rparr>)
   }"

definition KubeTemplateSpec_DeepCopy where
  "KubeTemplateSpec_DeepCopy L p = copy_pointer TemplateSpec_type (KubeTemplateSpec_DeepCopyInto L) p"

definition KubeTemplateStatus_DeepCopyInto where
  "KubeTemplateStatus_DeepCopyInto L st = do {
     queuedAt \<leftarrow> copy_nillable (Time_DeepCopy L) (mst_QueuedAt st);
     processedAt \<leftarrow> copy_nillable (Time_DeepCopy L) (mst_ProcessedAt st);
     lastReconcileTime \<leftarrow> copy_nillable (Time_DeepCopy L) (mst_LastReconcileTime st);
     lastDriftDetected \<leftarrow> copy_nillable (Time_DeepCopy L) (mst_LastDriftDetected st);
     pausedAt \<leftarrow> copy_nillable (Time_DeepCopy L) (mst_PausedAt st);
     State_Monad.return (st\<lparr>mst_QueuedAt := queuedAt, mst_ProcessedAt := processedAt,
       mst_LastReconcileTime := lastReconcileTime, mst_LastDriftDetected := lastDriftDetected,
       mst_PausedAt := pausedAt\<rparr>)
   }"

definition KubeTemplateStatus_DeepCopy where
  "KubeTemplateStatus_DeepCopy L p = copy_pointer TemplateStatus_type (KubeTemplateStatus_DeepCopyInto L) p"

definition KubeTemplate_DeepCopyInto where
  "KubeTemplate_DeepCopyInto L kt = do {
     meta \<leftarrow> ObjectMeta_DeepCopyInto L (mkt_ObjectMeta kt);
     spec \<leftarrow> KubeTemplateSpec_DeepCopyInto L (mkt_Spec kt);
     st \<leftarrow> KubeTemplateStatus_DeepCopyInto L (mkt_Status kt);
     State_Monad.return (kt\<lparr>mkt_ObjectMeta := meta, mkt_Spec := spec, mkt_Status := st\<rparr>)
   }"

definition KubeTemplate_DeepCopy where
  "KubeTemplate_DeepCopy L p = copy_pointer (KubeTemplate_type L) (KubeTemplate_DeepCopyInto L) p"

definition KubeTemplateList_DeepCopyInto where
  "KubeTemplateList_DeepCopyInto L l = do {
     meta \<leftarrow> ListMeta_DeepCopyInto L (ktl_ListMeta l);
     items \<leftarrow> copy_slice (KubeTemplate_type L) (KubeTemplate_DeepCopyInto L) (ktl_Items l);
     State_Monad.return (l\<lparr>ktl_ListMeta := meta, ktl_Items := items\<rparr>)
   }"

definition KubeTemplateList_DeepCopy where
  "KubeTemplateList_DeepCopy L p = copy_pointer (KubeTemplateList_type L) (KubeTemplateList_DeepCopyInto L) p"

text \<open>
  A \<^verbatim>\<open>runtime.Object\<close> is nil or a pointer with its type; a nil pointer with a type is not the nil interface,
  which is why \<^verbatim>\<open>DeepCopyObject\<close> tests the copy.
\<close>

datatype go_type = GoKubeTemplate | GoKubeTemplateList | GoKubeTemplatePolicy | GoKubeTemplatePolicyList

datatype api_object = NilObject | ApiObject go_type pointer

definition KubeTemplate_DeepCopyObject where
  "KubeTemplate_DeepCopyObject L p = do {
     c \<leftarrow> KubeTemplate_DeepCopy L p;
     State_Monad.return (if c \<noteq> None then ApiObject GoKubeTemplate c else NilObject)
   }"

definition KubeTemplateList_DeepCopyObject where
  "KubeTemplateList_DeepCopyObject L p = do {
     c \<leftarrow> KubeTemplateList_DeepCopy L p;
     State_Monad.return (if c \<noteq> None then ApiObject GoKubeTemplateList c else NilObject)
   }"

definition KubeTemplatePolicy_DeepCopyObject where
  "KubeTemplatePolicy_DeepCopyObject L p = do {
     c \<leftarrow> KubeTemplatePolicy_DeepCopy L p;
     State_Monad.return (if c \<noteq> None then ApiObject GoKubeTemplatePolicy c else NilObject)
   }"

definition KubeTemplatePolicyList_DeepCopyObject where
  "KubeTemplatePolicyList_DeepCopyObject L p = do {
     c \<leftarrow> KubeTemplatePolicyList_DeepCopy L p;
     State_Monad.return (if c \<noteq> None then ApiObject GoKubeTemplatePolicyList c else NilObject)
   }"

end
