(* ===== verification/Deep_Copy_Properties.thy ===== *)
theory Deep_Copy_Properties
  imports Deep_Copy
begin

text \<open>
  The generated methods meet the contract of a deep copy: for every struct, when it is well formed, which
  cells it reaches and which value it stands for, and that its \<^verbatim>\<open>DeepCopyInto\<close> yields the same value over
  new cells. The copies of other packages are assumed to do so.
\<close>

section \<open>What the structs stand for\<close>

abbreviation int64_ok :: "('h, 'x) cell heap \<Rightarrow> pointer \<Rightarrow> bool" where
  "int64_ok \<equiv> pointer_ok int64_type (\<lambda>h x. True)"

abbreviation int64_foot :: "('h, 'x) cell heap \<Rightarrow> pointer \<Rightarrow> addr set" where
  "int64_foot \<equiv> pointer_foot int64_type (\<lambda>h x. {})"

abbreviation int64_val :: "('h, 'x) cell heap \<Rightarrow> pointer \<Rightarrow> int option" where
  "int64_val \<equiv> pointer_val int64_type (\<lambda>h x. x)"

definition FieldValidation_ok :: "('h, 'x) cell heap \<Rightarrow> FieldValidation_mem \<Rightarrow> bool" where
  "FieldValidation_ok h fv \<longleftrightarrow> int64_ok h (mfv_Min fv) \<and> int64_ok h (mfv_Max fv)"

definition FieldValidation_foot :: "('h, 'x) cell heap \<Rightarrow> FieldValidation_mem \<Rightarrow> addr set" where
  "FieldValidation_foot h fv = int64_foot h (mfv_Min fv) \<union> int64_foot h (mfv_Max fv)"

definition FieldValidation_val :: "('h, 'x) cell heap \<Rightarrow> FieldValidation_mem \<Rightarrow> FieldValidation" where
  "FieldValidation_val h fv =
     \<lparr>fv_Name = mfv_Name fv, fv_FieldPath = mfv_FieldPath fv, fv_Type = mfv_Type fv, fv_CEL = mfv_CEL fv,
      fv_Regex = mfv_Regex fv, fv_Min = int64_val h (mfv_Min fv), fv_Max = int64_val h (mfv_Max fv),
      fv_Required = mfv_Required fv, fv_Message = mfv_Message fv\<rparr>"

lemma int64_copy: "deep_copy int64_ok int64_foot int64_val (copy_pointer int64_type State_Monad.return)"
  by (rule deep_copy.pointer_copy [OF scalar_copy]) simp

lemma FieldValidation_copy:
  "deep_copy FieldValidation_ok FieldValidation_foot FieldValidation_val FieldValidation_DeepCopyInto"
  by (rule deep_copy.struct_copy [OF pair_copy [OF int64_copy int64_copy],
        where get = "\<lambda>r. (mfv_Min r, mfv_Max r)" and put = "\<lambda>t r. r\<lparr>mfv_Min := fst t, mfv_Max := snd t\<rparr>"])
    (simp_all add: FieldValidation_ok_def FieldValidation_foot_def FieldValidation_val_def FieldValidation_DeepCopyInto_def)

interpretation FieldValidation: deep_copy FieldValidation_ok FieldValidation_foot FieldValidation_val
  FieldValidation_DeepCopyInto by (rule FieldValidation_copy)

subsection \<open>Policies\<close>

definition ValidationRule_ok :: "('h, 'x) cell heap \<Rightarrow> ValidationRule_mem \<Rightarrow> bool" where
  "ValidationRule_ok h r \<longleftrightarrow> slice_ok FieldValidation_type FieldValidation_ok h (mrule_FieldValidations r) \<and>
     slice_ok string_type (\<lambda>h x. True) h (mrule_TargetNamespaces r)"

definition ValidationRule_foot :: "('h, 'x) cell heap \<Rightarrow> ValidationRule_mem \<Rightarrow> addr set" where
  "ValidationRule_foot h r = slice_foot FieldValidation_type FieldValidation_foot h (mrule_FieldValidations r) \<union>
     slice_foot string_type (\<lambda>h x. {}) h (mrule_TargetNamespaces r)"

definition ValidationRule_val :: "('h, 'x) cell heap \<Rightarrow> ValidationRule_mem \<Rightarrow> ValidationRule" where
  "ValidationRule_val h r =
     \<lparr>rule_Kind = mrule_Kind r, rule_Group = mrule_Group r, rule_Version = mrule_Version r, rule_Rule = mrule_Rule r,
      rule_FieldValidations = slice_val FieldValidation_type FieldValidation_val h (mrule_FieldValidations r),
      rule_TargetNamespaces = slice_val string_type (\<lambda>h x. x) h (mrule_TargetNamespaces r)\<rparr>"

definition PolicySpec_ok :: "('h, 'x) cell heap \<Rightarrow> KubeTemplatePolicySpec_mem \<Rightarrow> bool" where
  "PolicySpec_ok h s = slice_ok ValidationRule_type ValidationRule_ok h (mpol_ValidationRules s)"

definition PolicySpec_foot :: "('h, 'x) cell heap \<Rightarrow> KubeTemplatePolicySpec_mem \<Rightarrow> addr set" where
  "PolicySpec_foot h s = slice_foot ValidationRule_type ValidationRule_foot h (mpol_ValidationRules s)"

definition PolicySpec_val :: "('h, 'x) cell heap \<Rightarrow> KubeTemplatePolicySpec_mem \<Rightarrow> KubeTemplatePolicySpec" where
  "PolicySpec_val h s = \<lparr>pol_SourceNamespace = mpol_SourceNamespace s,
     pol_ValidationRules = slice_val ValidationRule_type ValidationRule_val h (mpol_ValidationRules s)\<rparr>"

lemma ValidationRule_copy:
  "deep_copy ValidationRule_ok ValidationRule_foot ValidationRule_val ValidationRule_DeepCopyInto"
  by (rule deep_copy.struct_copy [OF pair_copy [OF deep_copy.slice_copy [OF FieldValidation_copy elem_types_ok(3)]
          deep_copy.slice_copy [OF scalar_copy elem_types_ok(2)]],
        where get = "\<lambda>r. (mrule_FieldValidations r, mrule_TargetNamespaces r)"
          and put = "\<lambda>t r. r\<lparr>mrule_FieldValidations := fst t, mrule_TargetNamespaces := snd t\<rparr>"])
    (simp_all add: ValidationRule_ok_def ValidationRule_foot_def ValidationRule_val_def ValidationRule_DeepCopyInto_def)

interpretation ValidationRule: deep_copy ValidationRule_ok ValidationRule_foot ValidationRule_val
  ValidationRule_DeepCopyInto by (rule ValidationRule_copy)

lemma PolicySpec_copy:
  "deep_copy PolicySpec_ok PolicySpec_foot PolicySpec_val KubeTemplatePolicySpec_DeepCopyInto"
  by (rule deep_copy.struct_copy [OF deep_copy.slice_copy [OF ValidationRule_copy elem_types_ok(4)],
        where get = mpol_ValidationRules and put = "\<lambda>t r. r\<lparr>mpol_ValidationRules := t\<rparr>"])
    (simp_all add: PolicySpec_ok_def PolicySpec_foot_def PolicySpec_val_def KubeTemplatePolicySpec_DeepCopyInto_def)

interpretation PolicySpec: deep_copy PolicySpec_ok PolicySpec_foot PolicySpec_val
  KubeTemplatePolicySpec_DeepCopyInto by (rule PolicySpec_copy)

text \<open>Pointers to times, nil or not.\<close>

definition nilable_ok :: "('k \<Rightarrow> 'h \<Rightarrow> bool) \<Rightarrow> 'k \<Rightarrow> 'h option \<Rightarrow> bool" where
  "nilable_ok ok h p = (case p of None \<Rightarrow> True | Some x \<Rightarrow> ok h x)"

definition nilable_foot :: "('k \<Rightarrow> 'h \<Rightarrow> addr set) \<Rightarrow> 'k \<Rightarrow> 'h option \<Rightarrow> addr set" where
  "nilable_foot foot h p = (case p of None \<Rightarrow> {} | Some x \<Rightarrow> foot h x)"

definition nilable_val :: "('k \<Rightarrow> 'h \<Rightarrow> 'v) \<Rightarrow> 'k \<Rightarrow> 'h option \<Rightarrow> 'v option" where
  "nilable_val val h p = map_option (val h) p"

abbreviation timep_ok :: "('h, 'x, 'v) apimachinery \<Rightarrow> ('h, 'x) cell heap \<Rightarrow> 'h option \<Rightarrow> bool" where
  "timep_ok L \<equiv> nilable_ok (time_ok L)"

abbreviation timep_foot :: "('h, 'x, 'v) apimachinery \<Rightarrow> ('h, 'x) cell heap \<Rightarrow> 'h option \<Rightarrow> addr set" where
  "timep_foot L \<equiv> nilable_foot (time_foot L)"

abbreviation timep_val :: "('h, 'x, 'v) apimachinery \<Rightarrow> ('h, 'x) cell heap \<Rightarrow> 'h option \<Rightarrow> time option" where
  "timep_val L \<equiv> nilable_val (time_val L)"

lemma timep_copy:
  "library_ok L \<Longrightarrow> deep_copy (timep_ok L) (timep_foot L) (timep_val L) (copy_nillable (Time_DeepCopy L))"
  using deep_copy.option_copy [of "time_ok L" "time_foot L" "time_val L" "Time_DeepCopy L"]
  by (simp add: library_ok_def nilable_ok_def [abs_def] nilable_foot_def [abs_def] nilable_val_def [abs_def])

definition PolicyStatus_val ::
  "('h, 'x, 'v) apimachinery \<Rightarrow> ('h, 'x) cell heap \<Rightarrow> 'h KubeTemplatePolicyStatus_mem \<Rightarrow> KubeTemplatePolicyStatus" where
  "PolicyStatus_val L h s =
     \<lparr>ps_Active = mps_Active s, ps_TemplatesUsing = mps_TemplatesUsing s,
      ps_LastValidationTime = timep_val L h (mps_LastValidationTime s),
      ps_ValidationSuccesses = mps_ValidationSuccesses s, ps_ValidationFailures = mps_ValidationFailures s\<rparr>"

lemma PolicyStatus_copy:
  "library_ok L \<Longrightarrow> deep_copy (\<lambda>h s. timep_ok L h (mps_LastValidationTime s))
     (\<lambda>h s. timep_foot L h (mps_LastValidationTime s)) (PolicyStatus_val L) (KubeTemplatePolicyStatus_DeepCopyInto L)"
  by (rule deep_copy.struct_copy [OF timep_copy, where get = mps_LastValidationTime
        and put = "\<lambda>t r. r\<lparr>mps_LastValidationTime := t\<rparr>"])
    (simp_all add: PolicyStatus_val_def KubeTemplatePolicyStatus_DeepCopyInto_def)

text \<open>A policy stands for its type, its metadata and the parts the model has of it.\<close>

type_synonym 'v policy_value =
  "TypeMeta \<times> (ObjectMeta \<times> 'v) \<times> KubeTemplatePolicySpec \<times> KubeTemplatePolicyStatus"

definition Policy_ok :: "('h, 'x, 'v) apimachinery \<Rightarrow> ('h, 'x) cell heap \<Rightarrow> 'h KubeTemplatePolicy_mem \<Rightarrow> bool" where
  "Policy_ok L h p \<longleftrightarrow> meta_ok L h (mpol_ObjectMeta p) \<and> PolicySpec_ok h (mpol_Spec p) \<and>
     timep_ok L h (mps_LastValidationTime (mpol_Status p))"

definition Policy_foot :: "('h, 'x, 'v) apimachinery \<Rightarrow> ('h, 'x) cell heap \<Rightarrow> 'h KubeTemplatePolicy_mem \<Rightarrow> addr set" where
  "Policy_foot L h p = meta_foot L h (mpol_ObjectMeta p) \<union> (PolicySpec_foot h (mpol_Spec p) \<union>
     timep_foot L h (mps_LastValidationTime (mpol_Status p)))"

definition Policy_val :: "('h, 'x, 'v) apimachinery \<Rightarrow> ('h, 'x) cell heap \<Rightarrow> 'h KubeTemplatePolicy_mem \<Rightarrow> 'v policy_value" where
  "Policy_val L h p = (mpol_TypeMeta p, meta_val L h (mpol_ObjectMeta p), PolicySpec_val h (mpol_Spec p),
     PolicyStatus_val L h (mpol_Status p))"

lemma Policy_copy:
  assumes "library_ok L"
  shows "deep_copy (Policy_ok L) (Policy_foot L) (Policy_val L) (KubeTemplatePolicy_DeepCopyInto L)"
proof -
  have "deep_copy (meta_ok L) (meta_foot L) (meta_val L) (ObjectMeta_DeepCopyInto L)"
    using assms by (simp add: library_ok_def)
  from pair_copy [OF this pair_copy [OF PolicySpec_copy PolicyStatus_copy [OF assms]]]
  show ?thesis
    by (rule deep_copy.struct_copy [where get = "\<lambda>r. (mpol_ObjectMeta r, mpol_Spec r, mpol_Status r)"
          and put = "\<lambda>t r. r\<lparr>mpol_ObjectMeta := fst t, mpol_Spec := fst (snd t), mpol_Status := snd (snd t)\<rparr>"])
      (simp_all add: Policy_ok_def Policy_foot_def Policy_val_def KubeTemplatePolicy_DeepCopyInto_def)
qed

definition PolicyList_ok :: "('h, 'x, 'v) apimachinery \<Rightarrow> ('h, 'x) cell heap \<Rightarrow> 'h KubeTemplatePolicyList \<Rightarrow> bool" where
  "PolicyList_ok L h l \<longleftrightarrow> listmeta_ok L h (kpl_ListMeta l) \<and> slice_ok (Policy_type L) (Policy_ok L) h (kpl_Items l)"

definition PolicyList_foot :: "('h, 'x, 'v) apimachinery \<Rightarrow> ('h, 'x) cell heap \<Rightarrow> 'h KubeTemplatePolicyList \<Rightarrow> addr set" where
  "PolicyList_foot L h l = listmeta_foot L h (kpl_ListMeta l) \<union> slice_foot (Policy_type L) (Policy_foot L) h (kpl_Items l)"

definition PolicyList_val ::
  "('h, 'x, 'v) apimachinery \<Rightarrow> ('h, 'x) cell heap \<Rightarrow> 'h KubeTemplatePolicyList \<Rightarrow> TypeMeta \<times> 'v \<times> 'v policy_value list" where
  "PolicyList_val L h l =
     (kpl_TypeMeta l, listmeta_val L h (kpl_ListMeta l), slice_val (Policy_type L) (Policy_val L) h (kpl_Items l))"

lemma PolicyList_copy:
  assumes "library_ok L"
  shows "deep_copy (PolicyList_ok L) (PolicyList_foot L) (PolicyList_val L) (KubeTemplatePolicyList_DeepCopyInto L)"
proof -
  have "deep_copy (listmeta_ok L) (listmeta_foot L) (listmeta_val L) (ListMeta_DeepCopyInto L)"
    using assms by (simp add: library_ok_def)
  from pair_copy [OF this deep_copy.slice_copy [OF Policy_copy [OF assms] elem_types_ok(7)]]
  show ?thesis
    by (rule deep_copy.struct_copy [where get = "\<lambda>r. (kpl_ListMeta r, kpl_Items r)"
          and put = "\<lambda>t r. r\<lparr>kpl_ListMeta := fst t, kpl_Items := snd t\<rparr>"])
      (simp_all add: PolicyList_ok_def PolicyList_foot_def PolicyList_val_def KubeTemplatePolicyList_DeepCopyInto_def)
qed

subsection \<open>Templates\<close>

definition Template_val ::
  "('h, 'x, 'v) apimachinery \<Rightarrow> ('h, 'x) cell heap \<Rightarrow> 'h Template_mem \<Rightarrow> Template \<times> 'v" where
  "Template_val L h t =
     (\<lparr>tpl_Object = fst (raw_val L h (mtpl_Object t)), tpl_Replace = mtpl_Replace t, tpl_Referenced = mtpl_Referenced t\<rparr>,
      snd (raw_val L h (mtpl_Object t)))"

lemma Template_copy:
  assumes "library_ok L"
  shows "deep_copy (\<lambda>h t. raw_ok L h (mtpl_Object t)) (\<lambda>h t. raw_foot L h (mtpl_Object t)) (Template_val L)
    (Template_DeepCopyInto L)"
proof -
  have "deep_copy (raw_ok L) (raw_foot L) (raw_val L) (RawExtension_DeepCopyInto L)"
    using assms by (simp add: library_ok_def)
  then show ?thesis
    by (rule deep_copy.struct_copy [where get = mtpl_Object and put = "\<lambda>t r. r\<lparr>mtpl_Object := t\<rparr>"])
      (simp_all add: Template_val_def Template_DeepCopyInto_def)
qed

definition Templates_ok :: "('h, 'x, 'v) apimachinery \<Rightarrow> ('h, 'x) cell heap \<Rightarrow> KubeTemplateSpec_mem \<Rightarrow> bool" where
  "Templates_ok L h s = slice_ok (Template_type L) (\<lambda>h t. raw_ok L h (mtpl_Object t)) h (mspec_Templates s)"

definition Templates_foot :: "('h, 'x, 'v) apimachinery \<Rightarrow> ('h, 'x) cell heap \<Rightarrow> KubeTemplateSpec_mem \<Rightarrow> addr set" where
  "Templates_foot L h s = slice_foot (Template_type L) (\<lambda>h t. raw_foot L h (mtpl_Object t)) h (mspec_Templates s)"

definition Templates_val ::
  "('h, 'x, 'v) apimachinery \<Rightarrow> ('h, 'x) cell heap \<Rightarrow> KubeTemplateSpec_mem \<Rightarrow> (Template \<times> 'v) list" where
  "Templates_val L h s = slice_val (Template_type L) (Template_val L) h (mspec_Templates s)"

lemma TemplateSpec_copy:
  assumes "library_ok L"
  shows "deep_copy (Templates_ok L) (Templates_foot L) (Templates_val L) (KubeTemplateSpec_DeepCopyInto L)"
  by (rule deep_copy.struct_copy [OF deep_copy.slice_copy [OF Template_copy [OF assms] elem_types_ok(9)],
        where get = mspec_Templates and put = "\<lambda>t r. r\<lparr>mspec_Templates := t\<rparr>"])
    (simp_all add: Templates_ok_def Templates_foot_def Templates_val_def KubeTemplateSpec_DeepCopyInto_def)

definition TemplateStatus_ok :: "('h, 'x, 'v) apimachinery \<Rightarrow> ('h, 'x) cell heap \<Rightarrow> 'h KubeTemplateStatus_mem \<Rightarrow> bool" where
  "TemplateStatus_ok L h s \<longleftrightarrow> timep_ok L h (mst_QueuedAt s) \<and> timep_ok L h (mst_ProcessedAt s) \<and>
     timep_ok L h (mst_LastReconcileTime s) \<and> timep_ok L h (mst_LastDriftDetected s) \<and> timep_ok L h (mst_PausedAt s)"

definition TemplateStatus_foot :: "('h, 'x, 'v) apimachinery \<Rightarrow> ('h, 'x) cell heap \<Rightarrow> 'h KubeTemplateStatus_mem \<Rightarrow> addr set" where
  "TemplateStatus_foot L h s = timep_foot L h (mst_QueuedAt s) \<union> (timep_foot L h (mst_ProcessedAt s) \<union>
     (timep_foot L h (mst_LastReconcileTime s) \<union> (timep_foot L h (mst_LastDriftDetected s) \<union> timep_foot L h (mst_PausedAt s))))"

definition TemplateStatus_val ::
  "('h, 'x, 'v) apimachinery \<Rightarrow> ('h, 'x) cell heap \<Rightarrow> 'h KubeTemplateStatus_mem \<Rightarrow> KubeTemplateStatus" where
  "TemplateStatus_val L h s =
     \<lparr>st_Status = mst_Status s, st_ProcessingPhase = mst_ProcessingPhase s, st_QueuedAt = timep_val L h (mst_QueuedAt s),
      st_ProcessedAt = timep_val L h (mst_ProcessedAt s), st_RetryCount = mst_RetryCount s, st_RetryCycle = mst_RetryCycle s,
      st_LastReconcileTime = timep_val L h (mst_LastReconcileTime s), st_ResourcesTotal = mst_ResourcesTotal s,
      st_ResourcesSynced = mst_ResourcesSynced s, st_LastDriftDetected = timep_val L h (mst_LastDriftDetected s),
      st_DriftDetectionCount = mst_DriftDetectionCount s, st_DryRunChecks = mst_DryRunChecks s,
      st_AppliedSpecHash = mst_AppliedSpecHash s, st_PausedReason = mst_PausedReason s,
      st_PausedAt = timep_val L h (mst_PausedAt s)\<rparr>"

lemma TemplateStatus_copy:
  assumes "library_ok L"
  shows "deep_copy (TemplateStatus_ok L) (TemplateStatus_foot L) (TemplateStatus_val L) (KubeTemplateStatus_DeepCopyInto L)"
proof -
  note t = timep_copy [OF assms]
  from pair_copy [OF t pair_copy [OF t pair_copy [OF t pair_copy [OF t t]]]]
  show ?thesis
    by (rule deep_copy.struct_copy [where
          get = "\<lambda>r. (mst_QueuedAt r, mst_ProcessedAt r, mst_LastReconcileTime r, mst_LastDriftDetected r, mst_PausedAt r)"
          and put = "\<lambda>t r. r\<lparr>mst_QueuedAt := fst t, mst_ProcessedAt := fst (snd t),
            mst_LastReconcileTime := fst (snd (snd t)), mst_LastDriftDetected := fst (snd (snd (snd t))),
            mst_PausedAt := snd (snd (snd (snd t)))\<rparr>"])
      (simp_all add: TemplateStatus_ok_def TemplateStatus_foot_def TemplateStatus_val_def KubeTemplateStatus_DeepCopyInto_def)
qed

type_synonym 'v template_value = "TypeMeta \<times> (ObjectMeta \<times> 'v) \<times> (Template \<times> 'v) list \<times> KubeTemplateStatus"

definition KubeTemplate_ok :: "('h, 'x, 'v) apimachinery \<Rightarrow> ('h, 'x) cell heap \<Rightarrow> 'h KubeTemplate_mem \<Rightarrow> bool" where
  "KubeTemplate_ok L h k \<longleftrightarrow> meta_ok L h (mkt_ObjectMeta k) \<and> Templates_ok L h (mkt_Spec k) \<and>
     TemplateStatus_ok L h (mkt_Status k)"

definition KubeTemplate_foot :: "('h, 'x, 'v) apimachinery \<Rightarrow> ('h, 'x) cell heap \<Rightarrow> 'h KubeTemplate_mem \<Rightarrow> addr set" where
  "KubeTemplate_foot L h k = meta_foot L h (mkt_ObjectMeta k) \<union> (Templates_foot L h (mkt_Spec k) \<union>
     TemplateStatus_foot L h (mkt_Status k))"

definition KubeTemplate_val :: "('h, 'x, 'v) apimachinery \<Rightarrow> ('h, 'x) cell heap \<Rightarrow> 'h KubeTemplate_mem \<Rightarrow> 'v template_value" where
  "KubeTemplate_val L h k = (mkt_TypeMeta k, meta_val L h (mkt_ObjectMeta k), Templates_val L h (mkt_Spec k),
     TemplateStatus_val L h (mkt_Status k))"

text \<open>The value the rest of the development works with.\<close>

definition template_of :: "'v template_value \<Rightarrow> KubeTemplate" where
  "template_of v = (case v of (tm, meta, ts, st) \<Rightarrow>
     \<lparr>kt_Meta = fst meta, kt_Spec = \<lparr>spec_Templates = map fst ts\<rparr>, kt_Status = st\<rparr>)"

lemma KubeTemplate_copy:
  assumes "library_ok L"
  shows "deep_copy (KubeTemplate_ok L) (KubeTemplate_foot L) (KubeTemplate_val L) (KubeTemplate_DeepCopyInto L)"
proof -
  have "deep_copy (meta_ok L) (meta_foot L) (meta_val L) (ObjectMeta_DeepCopyInto L)"
    using assms by (simp add: library_ok_def)
  from pair_copy [OF this pair_copy [OF TemplateSpec_copy [OF assms] TemplateStatus_copy [OF assms]]]
  show ?thesis
    by (rule deep_copy.struct_copy [where get = "\<lambda>r. (mkt_ObjectMeta r, mkt_Spec r, mkt_Status r)"
          and put = "\<lambda>t r. r\<lparr>mkt_ObjectMeta := fst t, mkt_Spec := fst (snd t), mkt_Status := snd (snd t)\<rparr>"])
      (simp_all add: KubeTemplate_ok_def KubeTemplate_foot_def KubeTemplate_val_def KubeTemplate_DeepCopyInto_def)
qed

definition KubeTemplateList_ok :: "('h, 'x, 'v) apimachinery \<Rightarrow> ('h, 'x) cell heap \<Rightarrow> 'h KubeTemplateList \<Rightarrow> bool" where
  "KubeTemplateList_ok L h l \<longleftrightarrow> listmeta_ok L h (ktl_ListMeta l) \<and>
     slice_ok (KubeTemplate_type L) (KubeTemplate_ok L) h (ktl_Items l)"

definition KubeTemplateList_foot :: "('h, 'x, 'v) apimachinery \<Rightarrow> ('h, 'x) cell heap \<Rightarrow> 'h KubeTemplateList \<Rightarrow> addr set" where
  "KubeTemplateList_foot L h l = listmeta_foot L h (ktl_ListMeta l) \<union>
     slice_foot (KubeTemplate_type L) (KubeTemplate_foot L) h (ktl_Items l)"

definition KubeTemplateList_val ::
  "('h, 'x, 'v) apimachinery \<Rightarrow> ('h, 'x) cell heap \<Rightarrow> 'h KubeTemplateList \<Rightarrow> TypeMeta \<times> 'v \<times> 'v template_value list" where
  "KubeTemplateList_val L h l =
     (ktl_TypeMeta l, listmeta_val L h (ktl_ListMeta l), slice_val (KubeTemplate_type L) (KubeTemplate_val L) h (ktl_Items l))"

lemma KubeTemplateList_copy:
  assumes "library_ok L"
  shows "deep_copy (KubeTemplateList_ok L) (KubeTemplateList_foot L) (KubeTemplateList_val L) (KubeTemplateList_DeepCopyInto L)"
proof -
  have "deep_copy (listmeta_ok L) (listmeta_foot L) (listmeta_val L) (ListMeta_DeepCopyInto L)"
    using assms by (simp add: library_ok_def)
  from pair_copy [OF this deep_copy.slice_copy [OF KubeTemplate_copy [OF assms] elem_types_ok(12)]]
  show ?thesis
    by (rule deep_copy.struct_copy [where get = "\<lambda>r. (ktl_ListMeta r, ktl_Items r)"
          and put = "\<lambda>t r. r\<lparr>ktl_ListMeta := fst t, ktl_Items := snd t\<rparr>"])
      (simp_all add: KubeTemplateList_ok_def KubeTemplateList_foot_def KubeTemplateList_val_def KubeTemplateList_DeepCopyInto_def)
qed

section \<open>A library instance\<close>

text \<open>Objects of apimachinery held in cells of their own; a copy is a new cell.\<close>

datatype ex_library_cell = ExMeta ObjectMeta | ExRaw string | ExTime time

definition ex_cell :: "(addr, ex_library_cell) cell heap \<Rightarrow> addr \<Rightarrow> ex_library_cell" where
  "ex_cell h a = (case h a of Some (LibraryCell c) \<Rightarrow> c | _ \<Rightarrow> ExTime 0)"

definition ex_copy :: "addr \<Rightarrow> ((addr, ex_library_cell) cell memory, addr) state" where
  "ex_copy a = do { m \<leftarrow> State_Monad.get; new_cell (LibraryCell (ex_cell (cells m) a)) }"

definition ex_cell_ok :: "(addr, ex_library_cell) cell heap \<Rightarrow> addr \<Rightarrow> bool" where
  "ex_cell_ok h a = (case h a of Some (LibraryCell c) \<Rightarrow> True | _ \<Rightarrow> False)"

definition ex_library :: "(addr, ex_library_cell, unit) apimachinery" where
  "ex_library =
     \<lparr>lib_zero = 0,
      meta_ok = ex_cell_ok, meta_foot = \<lambda>h a. {a},
      meta_val = \<lambda>h a. (case ex_cell h a of ExMeta md \<Rightarrow> md | _ \<Rightarrow> zero_meta, ()), ObjectMeta_DeepCopyInto = ex_copy,
      listmeta_ok = ex_cell_ok, listmeta_foot = \<lambda>h a. {a}, listmeta_val = \<lambda>h a. (), ListMeta_DeepCopyInto = ex_copy,
      raw_ok = ex_cell_ok, raw_foot = \<lambda>h a. {a},
      raw_val = \<lambda>h a. (case ex_cell h a of ExRaw r \<Rightarrow> r | _ \<Rightarrow> '''', ()), RawExtension_DeepCopyInto = ex_copy,
      time_ok = ex_cell_ok, time_foot = \<lambda>h a. {a},
      time_val = \<lambda>h a. (case ex_cell h a of ExTime t \<Rightarrow> t | _ \<Rightarrow> 0), Time_DeepCopy = ex_copy\<rparr>"

lemma ex_cell_copy: "deep_copy ex_cell_ok (\<lambda>h a. {a}) (\<lambda>h a. f (ex_cell h a)) ex_copy"
  by unfold_locales
    (auto simp: ex_cell_ok_def ex_cell_def ex_copy_def memory copied_def extends_def mem_ok_def
      split: option.splits cell.splits)

lemma ex_library_ok: "library_ok ex_library"
  using ex_cell_copy [of "\<lambda>c. (case c of ExMeta md \<Rightarrow> md | _ \<Rightarrow> zero_meta, ())"] ex_cell_copy [of "\<lambda>c. ()"]
    ex_cell_copy [of "\<lambda>c. (case c of ExRaw r \<Rightarrow> r | _ \<Rightarrow> '''', ())"] ex_cell_copy [of "\<lambda>c. case c of ExTime t \<Rightarrow> t | _ \<Rightarrow> 0"]
  by (simp add: library_ok_def ex_library_def)

text \<open>A memory with a KubeTemplate of one template, and a list of one policy.\<close>

definition ex_struct :: "addr KubeTemplate_mem" where
  "ex_struct = \<lparr>mkt_TypeMeta = zero_TypeMeta, mkt_ObjectMeta = 0, mkt_Spec = \<lparr>mspec_Templates = Slice 2 0 1 1\<rparr>,
     mkt_Status = zero_TemplateStatus\<lparr>mst_QueuedAt := Some 1\<rparr>\<rparr>"

definition ex_rule_struct :: ValidationRule_mem where
  "ex_rule_struct = \<lparr>mrule_Kind = ''ConfigMap'', mrule_Group = '''', mrule_Version = ''v1'', mrule_Rule = '''',
     mrule_FieldValidations = NilSlice, mrule_TargetNamespaces = Slice 5 0 2 2\<rparr>"

definition ex_memory :: "(addr, ex_library_cell) cell memory" where
  "ex_memory =
     \<lparr>cells = [0 \<mapsto> LibraryCell (ExMeta (zero_meta\<lparr>md_Name := ''web''\<rparr>)), 1 \<mapsto> LibraryCell (ExTime 7),
        2 \<mapsto> Templates [\<lparr>mtpl_Object = 3, mtpl_Replace = True, mtpl_Referenced = False\<rparr>],
        3 \<mapsto> LibraryCell (ExRaw ''configmap''), 4 \<mapsto> KubeTemplates [ex_struct],
        5 \<mapsto> Strings [''dev'', ''prod''], 6 \<mapsto> ValidationRules [ex_rule_struct],
        7 \<mapsto> Policies [\<lparr>mpol_TypeMeta = zero_TypeMeta, mpol_ObjectMeta = 0,
          mpol_Spec = \<lparr>mpol_SourceNamespace = ''dev'', mpol_ValidationRules = Slice 6 0 1 1\<rparr>, mpol_Status = zero_PolicyStatus\<rparr>],
        8 \<mapsto> PolicyLists [\<lparr>kpl_TypeMeta = zero_TypeMeta, kpl_ListMeta = 0, kpl_Items = Slice 7 0 1 1\<rparr>]],
      limit = 9\<rparr>"

lemma ex_memory_ok: "mem_ok ex_memory"
  by (auto simp: mem_ok_def ex_memory_def)

section \<open>Properties\<close>

lemma DeepCopyObject_cases:
  assumes "deep_copy ok foot val copy" "elem_type_ok T" "mem_ok m" "pointer_ok T ok (cells m) p"
    and "run_state (do { c \<leftarrow> copy_pointer T copy p;
           State_Monad.return (if c \<noteq> None then ApiObject ty c else NilObject) }) m = (obj, m')"
  shows "\<exists>q. obj = (if p = None then NilObject else ApiObject ty q) \<and> (q = None \<longleftrightarrow> p = None) \<and>
    extends m m' \<and> isolated_copy (pointer_foot T foot) (pointer_val T val) m p q m'"
proof -
  note pc = deep_copy.pointer_copy [OF assms(1,2)]
  obtain q where q: "run_state (copy_pointer T copy p) m = (q, m')" "obj = (if q \<noteq> None then ApiObject ty q else NilObject)"
    using assms(5) by (auto split: prod.splits)
  have nil: "q = None \<longleftrightarrow> p = None" using q(1) by (cases p) (auto simp: copy_pointer_def split: prod.splits)
  have "extends m m'" using deep_copy.copies [OF pc assms(3,4) q(1)] by (simp add: copied_def)
  then show ?thesis using q(2) nil deep_copy.isolated [OF pc assms(3,4) q(1)] by auto
qed

text \<open>
  C10: Copying a KubeTemplate isolates it. If the copies of apimachinery are deep, \<^verbatim>\<open>DeepCopyObject\<close> of a
  well-formed KubeTemplate gives an object that stands for the same type, metadata, templates and status;
  no cell there was is changed; and afterwards no write through the copy can change what the
  original stands for, nor a write through the original the copy. Of the nil pointer it gives
  the nil interface.
\<close>

theorem KubeTemplate_copy_isolated:
  assumes "library_ok L" and "mem_ok m" and "pointer_ok (KubeTemplate_type L) (KubeTemplate_ok L) (cells m) p"
    and "run_state (KubeTemplate_DeepCopyObject L p) m = (obj, m')"
  shows "\<exists>q. obj = (if p = None then NilObject else ApiObject GoKubeTemplate q) \<and> (q = None \<longleftrightarrow> p = None) \<and>
    extends m m' \<and>
    isolated_copy (pointer_foot (KubeTemplate_type L) (KubeTemplate_foot L))
      (pointer_val (KubeTemplate_type L) (KubeTemplate_val L)) m p q m'"
  using assms(4) unfolding KubeTemplate_DeepCopyObject_def KubeTemplate_DeepCopy_def
  by (rule DeepCopyObject_cases [OF KubeTemplate_copy [OF assms(1)] elem_types_ok(12) assms(2,3)])

theorem KubeTemplate_copy_isolated_witness:
  "map_option template_of (pointer_val (KubeTemplate_type ex_library) (KubeTemplate_val ex_library) (cells ex_memory) (Some (4, 0))) =
     Some \<lparr>kt_Meta = zero_meta\<lparr>md_Name := ''web''\<rparr>,
       kt_Spec = \<lparr>spec_Templates = [\<lparr>tpl_Object = ''configmap'', tpl_Replace = True, tpl_Referenced = False\<rparr>]\<rparr>,
       kt_Status = zero_status\<lparr>st_QueuedAt := Some 7\<rparr>\<rparr> \<and>
   (\<exists>q m'. run_state (KubeTemplate_DeepCopyObject ex_library (Some (4, 0))) ex_memory = (ApiObject GoKubeTemplate q, m') \<and>
     isolated_copy (pointer_foot (KubeTemplate_type ex_library) (KubeTemplate_foot ex_library))
       (pointer_val (KubeTemplate_type ex_library) (KubeTemplate_val ex_library)) ex_memory (Some (4, 0)) q m')"
proof -
  have ok: "pointer_ok (KubeTemplate_type ex_library) (KubeTemplate_ok ex_library) (cells ex_memory) (Some (4, 0))"
    by (simp add: ex_memory_def pointer_ok_def slice_ok_def array_at_def elem_type_defs KubeTemplate_ok_def ex_library_def
        ex_cell_ok_def Templates_ok_def TemplateStatus_ok_def nilable_ok_def ex_struct_def zero_TemplateStatus_def)
  obtain obj m' where "run_state (KubeTemplate_DeepCopyObject ex_library (Some (4, 0))) ex_memory = (obj, m')" by fastforce
  moreover from KubeTemplate_copy_isolated [OF ex_library_ok ex_memory_ok ok this]
  obtain q where "obj = ApiObject GoKubeTemplate q" "isolated_copy (pointer_foot (KubeTemplate_type ex_library) (KubeTemplate_foot ex_library))
       (pointer_val (KubeTemplate_type ex_library) (KubeTemplate_val ex_library)) ex_memory (Some (4, 0)) q m'" by auto
  moreover have "map_option template_of (pointer_val (KubeTemplate_type ex_library) (KubeTemplate_val ex_library)
      (cells ex_memory) (Some (4, 0))) =
     Some \<lparr>kt_Meta = zero_meta\<lparr>md_Name := ''web''\<rparr>,
       kt_Spec = \<lparr>spec_Templates = [\<lparr>tpl_Object = ''configmap'', tpl_Replace = True, tpl_Referenced = False\<rparr>]\<rparr>,
       kt_Status = zero_status\<lparr>st_QueuedAt := Some 7\<rparr>\<rparr>"
    by (simp add: ex_memory_def pointer_val_def slice_val_def array_at_def elem_type_defs KubeTemplate_val_def ex_library_def
        ex_cell_def Templates_val_def Template_val_def TemplateStatus_val_def nilable_val_def ex_struct_def
        zero_TemplateStatus_def template_of_def zero_status_def)
  ultimately show ?thesis by blast
qed

text \<open>
  C17: Copying a list of policies isolates every policy in it, down to the bounds of its field validations
  and the target namespaces of its rules, in the sense above.
\<close>

theorem KubeTemplatePolicyList_copy_isolated:
  assumes "library_ok L" and "mem_ok m" and "pointer_ok (PolicyList_type L) (PolicyList_ok L) (cells m) p"
    and "run_state (KubeTemplatePolicyList_DeepCopyObject L p) m = (obj, m')"
  shows "\<exists>q. obj = (if p = None then NilObject else ApiObject GoKubeTemplatePolicyList q) \<and> (q = None \<longleftrightarrow> p = None) \<and>
    extends m m' \<and>
    isolated_copy (pointer_foot (PolicyList_type L) (PolicyList_foot L))
      (pointer_val (PolicyList_type L) (PolicyList_val L)) m p q m'"
  using assms(4) unfolding KubeTemplatePolicyList_DeepCopyObject_def KubeTemplatePolicyList_DeepCopy_def
  by (rule DeepCopyObject_cases [OF PolicyList_copy [OF assms(1)] elem_types_ok(8) assms(2,3)])

theorem KubeTemplatePolicyList_copy_isolated_witness:
  "\<exists>q m'. run_state (KubeTemplatePolicyList_DeepCopyObject ex_library (Some (8, 0))) ex_memory =
     (ApiObject GoKubeTemplatePolicyList q, m') \<and> extends ex_memory m' \<and>
     isolated_copy (pointer_foot (PolicyList_type ex_library) (PolicyList_foot ex_library))
       (pointer_val (PolicyList_type ex_library) (PolicyList_val ex_library)) ex_memory (Some (8, 0)) q m'"
proof -
  have ok: "pointer_ok (PolicyList_type ex_library) (PolicyList_ok ex_library) (cells ex_memory) (Some (8, 0))"
    by (simp add: ex_memory_def pointer_ok_def slice_ok_def array_at_def elem_type_defs PolicyList_ok_def Policy_ok_def
        PolicySpec_ok_def ValidationRule_ok_def ex_library_def ex_cell_ok_def nilable_ok_def ex_rule_struct_def zero_PolicyStatus_def)
  obtain obj m' where "run_state (KubeTemplatePolicyList_DeepCopyObject ex_library (Some (8, 0))) ex_memory = (obj, m')"
    by fastforce
  with KubeTemplatePolicyList_copy_isolated [OF ex_library_ok ex_memory_ok ok this] show ?thesis by auto
qed

end
