(* ===== verification/Api_Scheme.thy ===== *)
theory Api_Scheme
  imports Deep_Copy Template_Processor
begin

text \<open>
  Registration of the custom resources with the scheme: \<^verbatim>\<open>groupversion_info.go\<close>, the \<^verbatim>\<open>init\<close> functions of the
  two type files and of \<^verbatim>\<open>cmd/main.go\<close>. The scheme and its builder are libraries and a parameter. Shown is that
  the owner reference the worker writes names a type the operator has registered.
\<close>

record GroupVersion_t =
  gv_Group :: string
  gv_Version :: string

definition GroupVersion :: GroupVersion_t where
  "GroupVersion = \<lparr>gv_Group = ''kubetemplater.io'', gv_Version = ''v1alpha1''\<rparr>"

text \<open>The objects each \<^verbatim>\<open>init\<close> passes to \<^verbatim>\<open>SchemeBuilder.Register\<close>, in the order of the files.\<close>

definition kubetemplate_types_init :: "go_type list" where
  "kubetemplate_types_init = [GoKubeTemplate, GoKubeTemplateList]"

definition kubetemplatepolicy_types_init :: "go_type list" where
  "kubetemplatepolicy_types_init = [GoKubeTemplatePolicy, GoKubeTemplatePolicyList]"

definition SchemeBuilder :: "go_type list" where
  "SchemeBuilder = kubetemplate_types_init @ kubetemplatepolicy_types_init"

text \<open>
  The scheme: adding the types of client-go, adding types under a group and version, and the type
  known under an API version and kind.
\<close>

record 's scheme_api =
  sc_AddClientGo :: "'s \<Rightarrow> go_error option \<times> 's"
  sc_AddKnownTypes :: "GroupVersion_t \<Rightarrow> go_type list \<Rightarrow> 's \<Rightarrow> go_error option \<times> 's"
  sc_lookup :: "'s \<Rightarrow> string \<Rightarrow> string \<Rightarrow> go_type option"

definition AddToScheme :: "'s scheme_api \<Rightarrow> 's \<Rightarrow> go_error option \<times> 's" where
  "AddToScheme S = sc_AddKnownTypes S GroupVersion SchemeBuilder"

text \<open>\<^verbatim>\<open>init\<close> of the main package: \<^verbatim>\<open>utilruntime.Must\<close> panics on an error.\<close>

definition main_init :: "'s scheme_api \<Rightarrow> 's \<Rightarrow> 's option" where
  "main_init S s =
     (case sc_AddClientGo S s of
        (Some _, _) \<Rightarrow> None
      | (None, s) \<Rightarrow> (case AddToScheme S s of (Some _, _) \<Rightarrow> None | (None, s) \<Rightarrow> Some s))"

text \<open>The kind of a type is the name of its Go struct; group and version are joined by a slash.\<close>

fun kind_name :: "go_type \<Rightarrow> string" where
  "kind_name GoKubeTemplate = ''KubeTemplate''"
| "kind_name GoKubeTemplateList = ''KubeTemplateList''"
| "kind_name GoKubeTemplatePolicy = ''KubeTemplatePolicy''"
| "kind_name GoKubeTemplatePolicyList = ''KubeTemplatePolicyList''"

definition gv_String :: "GroupVersion_t \<Rightarrow> string" where
  "gv_String gv = gv_Group gv @ ''/'' @ gv_Version gv"

text \<open>Types that were added without error are known under their kind.\<close>

definition scheme_ok :: "'s scheme_api \<Rightarrow> bool" where
  "scheme_ok S \<longleftrightarrow> (\<forall>gv ts s s' t. sc_AddKnownTypes S gv ts s = (None, s') \<longrightarrow> t \<in> set ts \<longrightarrow>
     sc_lookup S s' (gv_String gv) (kind_name t) = Some t)"

lemma registered_types_known:
  assumes "scheme_ok S" "main_init S s = Some s'"
  shows "sc_lookup S s' (gv_String GroupVersion) (kind_name t) = Some t"
proof -
  have "t \<in> set SchemeBuilder"
    by (cases t) (simp_all add: SchemeBuilder_def kubetemplate_types_init_def kubetemplatepolicy_types_init_def)
  then show ?thesis
    using assms by (auto simp: scheme_ok_def main_init_def AddToScheme_def split: prod.splits option.splits)
qed

text \<open>
  A referenced object gets exactly one more owner, whose API version and kind are those of the registered
  KubeTemplate type and whose name and identity are those of the KubeTemplate.
\<close>

lemma owner_reference_resolves:
  assumes "scheme_ok S" "main_init S s = Some s'" "tpl_Referenced template"
    and "\<And>os obj. u_GetOwnerReferences U (u_SetOwnerReferences U os obj) = os"
    and "\<And>ls obj. u_GetOwnerReferences U (u_SetLabels U ls obj) = u_GetOwnerReferences U obj"
  obtains owner where
    "u_GetOwnerReferences U (decorate U kt template obj) = u_GetOwnerReferences U obj @ [owner]"
    "sc_lookup S s' (or_APIVersion owner) (or_Kind owner) = Some GoKubeTemplate"
    "or_Name owner = md_Name (kt_Meta kt)" "or_UID owner = md_UID (kt_Meta kt)"
  using assms registered_types_known [OF assms(1,2), of GoKubeTemplate]
  by (simp add: decorate_def Let_def gv_String_def GroupVersion_def)

text \<open>A scheme as a list of known types satisfies the laws, so that registration succeeds on it.\<close>

definition ex_scheme :: "((string \<times> string) \<times> go_type) list scheme_api" where
  "ex_scheme = \<lparr>sc_AddClientGo = (\<lambda>s. (None, s)),
     sc_AddKnownTypes = (\<lambda>gv ts s. (None, map (\<lambda>t. ((gv_String gv, kind_name t), t)) ts @ s)),
     sc_lookup = (\<lambda>s av k. map_of s (av, k))\<rparr>"

lemma kind_name_inject: "kind_name t = kind_name u \<Longrightarrow> t = u"
  by (cases t; cases u) simp_all

lemma ex_scheme_lookup:
  "t \<in> set ts \<Longrightarrow> map_of (map (\<lambda>t. ((a, kind_name t), t)) ts @ s) (a, kind_name t) = Some t"
  by (induction ts) (auto dest: kind_name_inject)

lemma ex_scheme_ok: "scheme_ok ex_scheme"
  by (auto simp: scheme_ok_def ex_scheme_def ex_scheme_lookup simp del: map_of_append)

lemma ex_scheme_init: "main_init ex_scheme [] \<noteq> None"
  by (simp add: main_init_def AddToScheme_def ex_scheme_def)

end
