(* ===== verification/Spec2Isabelle.thy ===== *)
theory Spec2Isabelle
  imports Queue_Drain Operator_System Namespace_Controller Resource_Watcher Cert_Properties
    Startup_Properties Deep_Copy_Properties Api_Scheme
begin

text \<open>
  \<^bold>\<open>KubeTemplater\<close>: an operator that applies the objects listed in \<^verbatim>\<open>KubeTemplate\<close> resources, as far
  as a \<^verbatim>\<open>KubeTemplatePolicy\<close> permits. File names below are relative to \<^verbatim>\<open>src/\<close>.

  \<^bold>\<open>Parts and how they interact.\<close> The admission webhook checks a KubeTemplate against the policy of its
  namespace. The controller puts an admitted template into a work queue; a pool of workers
  takes it out, checks each of its objects against the policy again, applies what is permitted and
  writes the outcome into the template's status; failures go back to the queue with exponential
  backoff until the template is paused. Both sides get policies from a cache that two policy
  controllers keep up to date. For completed templates the controller compares the cluster with the
  template periodically and repairs drift. A namespace controller deletes the templates of a namespace
  before the namespace goes. The certificate manager keeps the certificates of the webhook in secrets,
  from which the certificate watcher serves them. \<^verbatim>\<open>cmd/main.go\<close> configures and starts all this.
  Generated code copies the custom resources.

  \<^bold>\<open>Conventions.\<close> Go integers and durations are \<^typ>\<open>int\<close> with the wrap-around of 64 bits written out
  (\<^const>\<open>wrap64\<close>), points in time are unbounded nanoseconds. Errors are values that keep the reason
  tested by \<^verbatim>\<open>errors.IsNotFound\<close> and its like. A panic is \<^const>\<open>None\<close> or an outcome of its own. Code that
  calls the API server is a computation in the state monad over a record with the outside world and
  the trace of calls made to it; the API server, the clock, CEL, regular expressions,
  unstructured objects and cryptography are records of functions given as parameters, and what a property
  needs of them is a hypothesis that its witness discharges on a concrete instance
  (\<open>Example_World\<close>, and the vaults and clocks of the certificate theories).
  Logging is left out. Values are immutable except where sharing matters: the deep copies and the TLS
  options work on an explicit memory. Small logics carry the proofs: \<^const>\<open>keeps\<close> for state invariants, \<^const>\<open>emits\<close> for
  a predicate on every call, \<^const>\<open>yields\<close> for the exact calls and the result of a computation, \<^const>\<open>performs\<close> and
  \<^const>\<open>leaves\<close> for computations that may exit.

  \<^bold>\<open>Theories.\<close>
  \<^item> \<open>KT_Prelude\<close>: 64-bit arithmetic, durations, names. \<open>Api_Types\<close>: \<^verbatim>\<open>api/.../v1alpha1\<close>, errors, printing
    and reading of integers. \<open>Kube_Env\<close>: parameters, traces, the three logics.
  \<^item> \<open>Go_Heap\<close>: \<^verbatim>\<open>container/heap\<close> over an abstract interface (locale \<open>heap_interface\<close>).
    \<open>Work_Queue\<close>: \<^verbatim>\<open>internal/queue/work_queue.go\<close> over an explicit store of items, interpreting that
    interface; \<^verbatim>\<open>Dequeue\<close> is one pass of its loop, whose waits are outcomes. \<open>Queue_Invariant\<close>: the heap and
    index invariant and that every operation keeps it. \<open>Queue_Behaviour\<close>: all interleavings of operations
    as a step relation, refinement of an abstract queue (\<open>Enqueue_refines\<close>, \<open>Dequeue_refines\<close>,
    \<open>Requeue_refines\<close>), absence of panics, metrics, duplicates, batches of enqueues (locale
    \<open>producer_queue\<close>). \<open>Queue_Retry\<close>: backoff and its overflow, counters over a series of failures.
    \<open>Queue_Drain\<close>: everything due is handed out, in order.
  \<^item> \<open>Policy_Cache\<close>: \<^verbatim>\<open>internal/cache/policy_cache.go\<close> and the two policy controllers
    (\<^verbatim>\<open>policy_cache_controller.go\<close>, \<^verbatim>\<open>kubetemplatepolicy_controller.go\<close>): policies are served to their own
    namespace only, for as long as they are fresh; what a deletion leaves behind (locale \<open>policy_source\<close>).
  \<^item> \<open>Template_Processor\<close>: \<^verbatim>\<open>internal/worker/template_processor.go\<close>, with \<^verbatim>\<open>Start\<close> as one turn of its loop.
    \<open>Worker_Properties\<close>: every write is authorised by a policy of the template's namespace, retries of
    status updates, the exact number of attempts before a pause, rejected templates.
  \<^item> \<open>Template_Reconciler\<close>: \<^verbatim>\<open>internal/controller/kubetemplater.io/kubetemplate_controller.go\<close>.
    \<open>Reconciler_Properties\<close>: when a template is handed to the queue, when the drift check writes, what it
    compares, and that it writes what the worker rejected.
  \<^item> \<open>Webhook_Validator\<close>: \<^verbatim>\<open>internal/webhook/kubetemplate_webhook.go\<close>. \<open>Webhook_Properties\<close>: soundness and
    completeness of admission, transparency of the cache of patterns, and that the worker accepts what was
    admitted under the same policy.
  \<^item> \<open>Namespace_Controller\<close>: \<^verbatim>\<open>internal/controller/namespace_controller.go\<close>; a namespace is released only after
    its templates are gone. \<open>Resource_Watcher\<close>: \<^verbatim>\<open>resource_watcher_controller.go\<close>; the labels the worker
    writes map back to the template.
  \<^item> \<open>Cert_Manager\<close>: \<^verbatim>\<open>internal/cert/manager.go\<close>. \<open>Cert_Properties\<close>: what a successful check has verified or
    written, when an authority is deleted, how long it is valid, when it is published.
    \<open>Secret_Watcher\<close>: \<^verbatim>\<open>internal/cert/secret_watcher.go\<close>; the initial load ends, and the certificate served
    is the last good one seen.
  \<^item> \<open>Startup_Flags\<close>: the flags of \<^verbatim>\<open>cmd/main.go\<close> and the parsing of \<^verbatim>\<open>flag\<close>; the round trip. \<open>Startup_Config\<close>: the
    parameters from the environment, and \<^verbatim>\<open>StartWorkers\<close>. \<open>Startup_Main\<close>: \<^verbatim>\<open>main\<close> as a sequence of actions that
    may fail, with the TLS options in memory. \<open>Startup_Properties\<close>: \<^verbatim>\<open>main\<close> follows its plan up to the first
    failure, each server gets its own TLS options, and flags without effect.
  \<^item> \<open>Go_Memory\<close>: cells, slices, pointers, \<^verbatim>\<open>append\<close>, and what it means that a copy is isolated (locales
    \<open>references\<close>, \<open>deep_copy\<close>). \<open>Deep_Copy\<close>: \<^verbatim>\<open>zz_generated.deepcopy.go\<close>, all methods. \<open>Deep_Copy_Properties\<close>: a copy
    has the value of the original and shares no memory with it.
  \<^item> \<open>Api_Scheme\<close>: \<^verbatim>\<open>groupversion_info.go\<close> and the \<^verbatim>\<open>init\<close> functions; the owner references of the worker
    name a registered type.
  \<^item> \<open>Operator_System\<close>: controller, workers, policy controllers and webhook over one queue, one cache and one
    API server as a step relation from the state after startup; what the operator writes in any
    interleaving, and that no handler panics (\<open>operator_safe\<close>).
  \<^item> This theory: what spans components. Everything the running operator writes was admitted by its webhook in
    every respect, field validations included (\<open>operator_writes_were_admitted\<close>); a certificate the
    manager wrote is the one the watcher serves once it sees the secret (\<open>renewed_certificate_served\<close>).

  \<^bold>\<open>Bounds.\<close> There is no fuel. Loops are structural recursions, recursions with a measure (the sift loops of
  the heap, the three attempts of a status update) or, for the initial load of the certificate
  watcher, a partial function proved to return from the deadline of its context. Loops
  over what a \<^verbatim>\<open>select\<close> receives (certificate renewal, watches, worker turns) take the sequence of events as
  an argument. The mutexes make queue and cache operations atomic, so concurrency is interleaving; in
  \<open>Operator_System\<close> a step is a handler, and a worker takes an item and handles it in two steps. The
  capacity \<^verbatim>\<open>append\<close> allocates is a parameter.

  \<^bold>\<open>Not modelled.\<close> The inside of the libraries: what the manager does with its options and the registered
  controllers, how a builder in a \<^verbatim>\<open>SetupWithManager\<close> sets up its watches (the predicates given to them are
  modelled), the flags of zap, the deep copies of apimachinery types. Logging. Wake-ups of the condition
  variable of the queue (a pass says how it waits, not who wakes it). Interleaving of two handlers
  between the calls of one of them as far as queue and cache are concerned, and data races on the cache
  of compiled patterns of the webhook.
\<close>

section \<open>Webhook, worker and policy together\<close>

text \<open>A KubeTemplate that the webhook of the running operator admits at some moment.\<close>

definition admitted ::
  "('w, 'u, 'v, 'h) TemplateProcessor \<Rightarrow> ('w, 'u, 'v, 'h) KubeTemplateReconciler \<Rightarrow>
   ('w, 'u, 'v, 'h, 're) KubeTemplateValidator \<Rightarrow> environment \<Rightarrow> KubeTemplate \<Rightarrow> bool" where
  "admitted P R V env kt \<longleftrightarrow> (\<exists>y. operator_reach P R V env y \<and>
     (snd (fst (run_state (ValidateCreate V (ObjKubeTemplate kt)) (webhook_view y))) = None \<or>
      (\<exists>old. snd (fst (run_state (ValidateUpdate V old (ObjKubeTemplate kt)) (webhook_view y))) = None)))"

text \<open>The object of a write that changes the cluster.\<close>

fun written :: "'u call \<Rightarrow> 'u option" where
  "written (CPatch opts u e) = (if DryRunAll \<in> set opts then None else Some u)"
| "written (CDelete u e) = Some u"
| "written c = None"

text \<open>
  The object \<open>raw\<close> of a template, as the periodic check writes it, or as the worker does: in the namespace of the
  KubeTemplate unless it names one, with the tracking labels and the owner reference.
\<close>

definition written_for :: "('u, 'v) unstructured_api \<Rightarrow> NamespacedName \<Rightarrow> Template \<Rightarrow> 'u \<Rightarrow> 'u \<Rightarrow> bool" where
  "written_for U nn t raw u \<longleftrightarrow> u = raw \<or>
     (\<exists>kt. kt_name kt = nn \<and> u = decorate U kt t (default_namespace U (Namespace nn) raw))"

lemma may_write_any: "may_write P nn Q u \<Longrightarrow> may_write P nn (\<lambda>_. True) u"
  unfolding may_write_def by blast

lemma verdict_object:
  assumes "template_verdict P pol ns t = Accepted obj"
  shows "\<exists>raw. u_Unmarshal (Unst P) (tpl_Object t) = Inr raw \<and> obj = default_namespace (Unst P) ns raw"
  using assms by (auto simp: template_verdict_def dest: check_object_accepts split: sum.splits)

text \<open>Every write is for a template of a KubeTemplate the API server answered with.\<close>

lemma written_template:
  assumes "operator_call P c" "written c = Some u"
  obtains nn kt t raw where "kt \<in> answers (Client P) nn" "t \<in> set (spec_Templates (kt_Spec kt))"
    "u_Unmarshal (Unst P) (tpl_Object t) = Inr raw" "written_for (Unst P) nn t raw u"
proof -
  consider (worker) nn where "may_write P nn (\<lambda>_. True) u" | (check) "rechecked P u"
    using assms by (cases c) (auto dest: may_write_any split: if_splits)
  then show ?thesis
  proof cases
    case worker
    then obtain pol kt0 kt t obj where w: "kt0 \<in> answers (Client P) nn" "t \<in> set (spec_Templates (kt_Spec kt0))"
        "template_verdict P pol (Namespace nn) t = Accepted obj" "kt \<in> answers (Client P) nn"
        "u = decorate (Unst P) kt t obj"
      unfolding may_write_def by blast
    obtain raw where "u_Unmarshal (Unst P) (tpl_Object t) = Inr raw" "obj = default_namespace (Unst P) (Namespace nn) raw"
      using verdict_object [OF w(3)] by blast
    then show ?thesis using that [OF w(1,2)] w(5) answers_name [OF w(4)] unfolding written_for_def by blast
  next
    case check
    then show ?thesis using that unfolding rechecked_def written_for_def by blast
  qed
qed

lemma admitted_template_ok:
  assumes "wired P R V" "client_ok (Client P)" "list_ok (Client P)" "retry_ok R"
    and "admitted P R V env kt" and "t \<in> set (spec_Templates (kt_Spec kt))"
  shows "\<exists>pol. pol_SourceNamespace (pol_Spec pol) = md_Namespace (kt_Meta kt) \<and>
    template_ok V pol (md_Namespace (kt_Meta kt)) t"
proof -
  obtain y where y: "operator_reach P R V env y"
      "snd (fst (run_state (ValidateCreate V (ObjKubeTemplate kt)) (webhook_view y))) = None"
    using assms(5) unfolding admitted_def by (auto simp: ValidateCreate_def ValidateUpdate_def)
  have "webhook_inv V (webhook_view y)"
    using operator_reach_inv [OF assms(1-4) y(1)] assms(1)
    by (simp add: operator_inv_def webhook_inv_def webhook_view_def wired_def)
  then show ?thesis using admission_policy [of V "webhook_view y" kt] y(2) assms(6) by (auto simp: webhook_inv_def)
qed


text \<open>
  A server on which every name has a KubeTemplate with the same spec, and every namespace a policy for
  ConfigMaps in it.
\<close>

definition ex_open_W :: "(ex_world, ex_obj, string, string) world_api" where
  "ex_open_W = ex_W\<lparr>
     w_GetTemplate := (\<lambda>nn kt w. ((None, (ex_kt [''configmap''])\<lparr>kt_Meta := ex_meta (Namespace nn) (Name nn)\<rparr>), w)),
     w_StatusUpdate := (\<lambda>kt w. ((None, kt\<lparr>kt_Spec := kt_Spec (ex_kt [''configmap''])\<rparr>), w)),
     w_ListPolicies := (\<lambda>opNs ns w. (Inr [ex_policy opNs ns [ex_rule\<lparr>rule_TargetNamespaces := [ns]\<rparr>]], w))\<rparr>"

definition ex_open_P :: "(ex_world, ex_obj, string, string) TemplateProcessor" where
  "ex_open_P = ex_P\<lparr>Client := ex_open_W\<rparr>"

definition ex_open_R :: "(ex_world, ex_obj, string, string) KubeTemplateReconciler" where
  "ex_open_R = ex_R\<lparr>r_Client := ex_open_W\<rparr>"

definition ex_open_V :: "(ex_world, ex_obj, string, string, string) KubeTemplateValidator" where
  "ex_open_V = ex_V\<lparr>v_Client := ex_open_W\<rparr>"

lemma ex_open_ok: "client_ok ex_open_W" "list_ok ex_open_W" "retry_ok ex_open_R" "wired ex_open_P ex_open_R ex_open_V"
proof -
  show "client_ok ex_open_W"
    by (auto simp: client_ok_def ex_open_W_def ex_W_def ex_meta_def meta_name_def)
  show "list_ok ex_open_W" by (auto simp: list_ok_def ex_open_W_def ex_policy_def ex_meta_def)
  show "retry_ok ex_open_R" using ex_retry_ok by (simp add: retry_ok_def ex_open_R_def)
  show "wired ex_open_P ex_open_R ex_open_V"
    by (simp add: wired_def ex_open_P_def ex_open_R_def ex_open_V_def ex_P_def ex_R_def ex_V_def)
qed

lemma ex_open_sel [simp]:
  "v_Client ex_open_V = ex_open_W" "v_Unst ex_open_V = ex_U" "v_Cel ex_open_V = ex_cel"
  "v_OperatorNamespace ex_open_V = ''ops''" "Client ex_open_P = ex_open_W"
  "w_ContextEval ex_open_W = w_ContextEval ex_W"
  "w_ListPolicies ex_open_W opNs ns w = (Inr [ex_policy opNs ns [ex_rule\<lparr>rule_TargetNamespaces := [ns]\<rparr>]], w)"
  by (simp_all add: ex_open_V_def ex_V_def ex_open_P_def ex_open_W_def)

lemma ex_open_template:
  "template_ok ex_open_V (ex_policy ''ops'' ns [ex_rule\<lparr>rule_TargetNamespaces := [ns]\<rparr>]) ns (ex_tpl ''configmap'')"
proof -
  have "cel_program ex_open_V ''true'' ''object'' TMapStringDyn = Some ''true''" by code_simp
  then have "cel_accepts ex_open_V ''true'' ''object'' TMapStringDyn v" for v
    by (simp add: cel_accepts_def ex_W_def ex_cel_def)
  then show ?thesis
    by (simp add: ex_tpl_def template_ok_def object_ok_def ex_U_def default_namespace_def ex_configmap_def
        gvk_configmap_def ex_policy_def ex_rule_def)
qed

lemma ex_open_admitted:
  assumes "kt_Spec kt = kt_Spec (ex_kt [''configmap''])"
  shows "admitted ex_open_P ex_open_R ex_open_V env kt"
proof -
  let ?x = "operator_init env (ex_cluster []) :: (ex_world, ex_obj, string) operator"
    and ?ns = "md_Namespace (kt_Meta kt)"
  have "snd (fst (run_state (ValidateCreate ex_open_V (ObjKubeTemplate kt)) (webhook_view ?x))) = None"
  proof (rule admits_allowed)
    show "fst (run_state (PolicyCache_Get (v_Client ex_open_V) ?ns (v_OperatorNamespace ex_open_V)) (webhook_view ?x)) =
        Inr (ex_policy ''ops'' ?ns [ex_rule\<lparr>rule_TargetNamespaces := [?ns]\<rparr>])"
      by (simp add: PolicyCache_Get_def PolicyCache_refresh_def client_ListPolicies_def run_do_call run_pc_store
          webhook_view_def operator_init_def startup_policyCache_def NewPolicyCache_def)
    show "cel_stable ex_open_V" by (simp add: cel_stable_def ex_W_def)
    show "\<forall>t \<in> set (spec_Templates (kt_Spec kt)).
        template_ok ex_open_V (ex_policy ''ops'' ?ns [ex_rule\<lparr>rule_TargetNamespaces := [?ns]\<rparr>]) ?ns t"
      using assms ex_open_template by (simp add: ex_kt_def)
  qed (use assms in \<open>simp_all add: ex_open_ok webhook_view_def operator_init_def startup_policyCache_def
      cache_ok_remove regex_ok_def ex_kt_def\<close>)
  then show ?thesis unfolding admitted_def by (intro exI [of _ ?x] conjI operator_reach.started) simp
qed


section \<open>Certificate manager and watcher together\<close>

text \<open>
  What \<^verbatim>\<open>tls.X509KeyPair\<close> documents: it accepts a certificate with the private key it was made
  for. Encodings are not empty.
\<close>

definition pairs_ok :: "('w, 'k) cert_api \<Rightarrow> ('w2, 't) watch_api \<Rightarrow> bool" where
  "pairs_ok A S \<longleftrightarrow> (\<forall>tpl ca key priv der. signs A tpl ca key priv der \<longrightarrow>
     (let crt = pem_Encode A ''CERTIFICATE'' der; pem = pem_Encode A ''RSA PRIVATE KEY'' (x_MarshalPKCS1PrivateKey A key)
      in crt \<noteq> '''' \<and> pem \<noteq> '''' \<and> (\<exists>pair. x_X509KeyPair S crt pem = Inr pair)))"

lemma tls_data_pair:
  assumes "pairs_ok A S" and "signs A tpl ca key priv der" and "sec_Data secret = tls_data A der key"
  shows "\<exists>pair. key_pair S secret = Some pair"
  using assms by (fastforce simp: pairs_ok_def key_pair_def tls_data_def Let_def Mapping.lookup_update')

text \<open>
  C15: A renewed certificate reaches the TLS handshakes. When the operator is configured so that manager and
  watcher look into the same namespace, every successful generation of a server certificate writes
  the very secret the watcher watches, that secret holds a key pair, and a watcher in any reachable
  condition that sees it serves exactly that key pair from then on.
\<close>

theorem renewed_certificate_served:
  assumes ok: "get_ok A" "pairs_ok A S" and m: "certManager env fl = Some m"
    and ns: "operatorNamespace env = podNamespace env"
    and run: "run_state (generateServerCert A m caCert caKey) s = (None, s')" and s: "trace s = []"
  shows "\<exists>secret pair. (KCreate secret None \<in> set (trace s') \<or> KUpdate secret None \<in> set (trace s')) \<and>
    secret_name secret = \<lparr>Namespace = podNamespace env, Name = webhookCertSecretName fl\<rparr> \<and>
    key_pair S secret = Some pair \<and>
    (\<forall>w. watcher_inv w \<longrightarrow>
       (\<exists>w'. handle_event S (SecretSeen secret) w = Some w' \<and> GetCertificate w' = Served pair))"
proof -
  have "server_stored A m (caCert, caKey) (trace s')"
    using yieldsD [OF generateServerCert_yields [of A m "(caCert, caKey)", simplified] run] s by simp
  then obtain sn t1 t2 key der secret where st: "signs A (server_template m sn t1 t2) caCert key caKey der"
      "KCreate secret None \<in> set (trace s') \<or> KUpdate secret None \<in> set (trace s')"
      "sec_Data secret = tls_data A der key" "secret_name secret = server_key m"
    using ok(1) by (fastforce simp: server_stored_def)
  obtain pair where pair: "key_pair S secret = Some pair" using tls_data_pair [OF ok(2) st(1,3)] by blast
  have "\<exists>w'. handle_event S (SecretSeen secret) w = Some w' \<and> GetCertificate w' = Served pair"
    if inv: "watcher_inv w" for w
    using handle_event_step [OF inv, of S "SecretSeen secret"] pair
    by (auto simp: GetCertificate_def watcher_inv_def)
  moreover have "server_key m = \<lparr>Namespace = podNamespace env, Name = webhookCertSecretName fl\<rparr>"
    using m ns by (auto simp: certManager_def server_key_def NewManager_def split: if_splits)
  ultimately show ?thesis using st(2,4) pair by metis
qed

text \<open>Both components on the vault of \<open>Cert_Properties\<close>; a key pair is its certificate.\<close>

definition ex_env :: environment where
  "ex_env = (\<lambda>_. ''sys'')"

definition ex_flags :: flags where
  "ex_flags = default_flags\<lparr>webhookCertSecretName := ''tls'', webhookServiceName := ''webhook'',
     webhookConfigurationName := ''kubetemplater''\<rparr>"

theorem renewed_certificate_served_witness:
  "\<exists>secret pair. secret_name secret = \<lparr>Namespace = ''sys'', Name = ''tls''\<rparr> \<and> key_pair ex_S secret = Some pair"
proof -
  let ?ca = "zero_certificate\<lparr>IsCA := True\<rparr>"
  have m: "certManager ex_env ex_flags = Some ex_m"
    by (simp add: certManager_def ex_env_def ex_flags_def ex_m_def operatorNamespace_def)
  have ns: "operatorNamespace ex_env = podNamespace ex_env" "podNamespace ex_env = ''sys''"
    by (simp_all add: ex_env_def operatorNamespace_def podNamespace_def)
  have run: "fst (run_state (generateServerCert ex_A ex_m ?ca 1) (ex_vault_with [] False)) = None"
    by (simp add: ensure_defs ex_cert_eval)
  have "pairs_ok ex_A ex_S"
    by (auto simp: pairs_ok_def ex_A_def ex_S_def signs_def Let_def split: if_splits)
  from renewed_certificate_served [OF ex_get_ok this m ns(1), of ?ca 1 "ex_vault_with [] False"] run ns(2)
  show ?thesis by (simp add: prod_eq_iff ex_vault_with_def) (auto simp: ex_flags_def)
qed

end
